(* ===== verification/Plane_Prelude.thy ===== *)
theory Plane_Prelude
  imports Main "HOL-Library.Word" "HOL-Library.Sublist" "HOL-Library.Char_ord" "HOL-Library.Multiset"
begin

text \<open>
  Vocabulary shared by all the components of the development: time stamps and durations,
  results of fallible code, rows of database tables, and the string operations of the Rust
  standard library that the sources use.

  \<^item> A time stamp is an \<^typ>\<open>int\<close>, a number of microseconds (the resolution of Postgres); a
    duration given in seconds in the sources is written \<open>secs n\<close>.
  \<^item> Fallible code returns \<^typ>\<open>'e + 'a\<close>, with \<open>Inl\<close> the error; \<open>bind_result\<close> is the \<open>?\<close> operator.
  \<^item> A table is the list of its rows. \<open>find_row\<close>, \<open>update_where\<close>, \<open>delete_where\<close> and \<open>exists_row\<close>
    are the four SQL forms the sources use on one table.
  \<^item> A Rust string is the list of its code points; the model has the code points below 256, the
    values of \<^typ>\<open>char\<close>. \<open>str_len\<close> is the length in UTF-8 bytes, Rust's \<open>len\<close>.
\<close>

section \<open>Time\<close>

type_synonym time = int

definition secs :: "int \<Rightarrow> time" where
  "secs n = n * 1000000"

section \<open>Results\<close>

definition bind_result :: "'e + 'a \<Rightarrow> ('a \<Rightarrow> 'e + 'b) \<Rightarrow> 'e + 'b" where
  "bind_result r f = (case r of Inl e \<Rightarrow> Inl e | Inr x \<Rightarrow> f x)"

definition ok_or :: "'a option \<Rightarrow> 'e \<Rightarrow> 'e + 'a" where
  "ok_or x e = (case x of None \<Rightarrow> Inl e | Some v \<Rightarrow> Inr v)"

definition map_err :: "('e \<Rightarrow> 'f) \<Rightarrow> 'e + 'a \<Rightarrow> 'f + 'a" where
  "map_err g r = (case r of Inl e \<Rightarrow> Inl (g e) | Inr x \<Rightarrow> Inr x)"

section \<open>Tables\<close>

definition find_row :: "('r \<Rightarrow> bool) \<Rightarrow> 'r list \<Rightarrow> 'r option" where
  "find_row P rows = find P rows"

definition exists_row :: "('r \<Rightarrow> bool) \<Rightarrow> 'r list \<Rightarrow> bool" where
  "exists_row P rows = list_ex P rows"

definition update_where :: "('r \<Rightarrow> bool) \<Rightarrow> ('r \<Rightarrow> 'r) \<Rightarrow> 'r list \<Rightarrow> 'r list" where
  "update_where P f rows = map (\<lambda>r. if P r then f r else r) rows"

definition delete_where :: "('r \<Rightarrow> bool) \<Rightarrow> 'r list \<Rightarrow> 'r list" where
  "delete_where P rows = filter (\<lambda>r. \<not> P r) rows"

definition rows_affected :: "('r \<Rightarrow> bool) \<Rightarrow> 'r list \<Rightarrow> nat" where
  "rows_affected P rows = length (filter P rows)"

definition unique_on :: "('r \<Rightarrow> 'k) \<Rightarrow> 'r list \<Rightarrow> bool" where
  "unique_on key rows = distinct (map key rows)"

section \<open>Strings\<close>

definition starts_with :: "string \<Rightarrow> string \<Rightarrow> bool" where
  "starts_with s p = (take (length p) s = p)"

definition strip_prefix :: "string \<Rightarrow> string \<Rightarrow> string option" where
  "strip_prefix s p = (if starts_with s p then Some (drop (length p) s) else None)"

definition ends_with :: "string \<Rightarrow> string \<Rightarrow> bool" where
  "ends_with s p = starts_with (rev s) (rev p)"

definition strip_suffix :: "string \<Rightarrow> string \<Rightarrow> string option" where
  "strip_suffix s p = (if ends_with s p then Some (take (length s - length p) s) else None)"

fun split_once :: "char \<Rightarrow> string \<Rightarrow> (string \<times> string) option" where
  "split_once c [] = None"
| "split_once c (x # xs) = (if x = c then Some ([], xs)
     else map_option (\<lambda>(a, b). (x # a, b)) (split_once c xs))"

fun split_char :: "char \<Rightarrow> string \<Rightarrow> string list" where
  "split_char c [] = [[]]"
| "split_char c (x # xs) = (if x = c then [] # split_char c xs
     else (case split_char c xs of s # ss \<Rightarrow> (x # s) # ss | [] \<Rightarrow> [[x]]))"

definition str_len :: "string \<Rightarrow> nat" where
  "str_len s = sum_list (map (\<lambda>c. if (of_char c :: nat) < 128 then 1 else 2) s)"

definition is_ascii_lowercase :: "char \<Rightarrow> bool" where
  "is_ascii_lowercase c = (CHR ''a'' \<le> c \<and> c \<le> CHR ''z'')"

definition is_ascii_uppercase :: "char \<Rightarrow> bool" where
  "is_ascii_uppercase c = (CHR ''A'' \<le> c \<and> c \<le> CHR ''Z'')"

definition is_ascii_digit :: "char \<Rightarrow> bool" where
  "is_ascii_digit c = (CHR ''0'' \<le> c \<and> c \<le> CHR ''9'')"

text \<open>\<open>char::is_alphanumeric\<close> below 256: ASCII letters and digits, and in Latin-1 the letters, the
  ordinal indicators, the micro sign and the numeric superscripts and fractions.\<close>

definition is_alphanumeric :: "char \<Rightarrow> bool" where
  "is_alphanumeric c = (is_ascii_lowercase c \<or> is_ascii_uppercase c \<or> is_ascii_digit c
     \<or> (of_char c :: nat) \<in> {170, 178, 179, 181, 185, 186, 188, 189, 190}
     \<or> (192 \<le> (of_char c :: nat) \<and> (of_char c :: nat) \<noteq> 215 \<and> (of_char c :: nat) \<noteq> 247))"

section \<open>Laws of the vocabulary\<close>

named_theorems status_simps \<open>rewrite rules for backend statuses and states\<close>
named_theorems db_simps \<open>definitions of single database statements\<close>
named_theorems db_inv \<open>preservation of table invariants\<close>

lemma secs_less [simp]: "secs a < secs b \<longleftrightarrow> a < b"
  and secs_le [simp]: "secs a \<le> secs b \<longleftrightarrow> a \<le> b"
  by (simp_all add: secs_def)

lemma bind_result_simps [simp]:
  "bind_result (Inl e) f = Inl e" "bind_result (Inr x) f = f x"
  by (simp_all add: bind_result_def)

lemma bind_result_Inr_iff:
  "bind_result r f = Inr y \<longleftrightarrow> (\<exists>x. r = Inr x \<and> f x = Inr y)"
  by (cases r) simp_all

lemma bind_result_Inl_iff:
  "bind_result r f = Inl e \<longleftrightarrow> r = Inl e \<or> (\<exists>x. r = Inr x \<and> f x = Inl e)"
  by (cases r) auto

lemma ok_or_simps [simp]: "ok_or None e = Inl e" "ok_or (Some x) e = Inr x"
  by (simp_all add: ok_or_def)

lemma map_err_simps [simp]: "map_err g (Inl e) = Inl (g e)" "map_err g (Inr x) = Inr x"
  by (simp_all add: map_err_def)

lemma map_err_iff [simp]:
  "map_err g r = Inr x \<longleftrightarrow> r = Inr x" "map_err g r = Inl f \<longleftrightarrow> (\<exists>e. r = Inl e \<and> f = g e)"
  by (cases r; auto)+

lemma ok_or_iff [simp]:
  "ok_or v e = Inr x \<longleftrightarrow> v = Some x" "ok_or v e = Inl f \<longleftrightarrow> v = None \<and> f = e"
  by (cases v; auto)+

lemma find_row_SomeD:
  "find_row P rows = Some r \<Longrightarrow> r \<in> set rows \<and> P r"
  by (auto simp: find_row_def find_Some_iff)

lemma find_row_None_iff: "find_row P rows = None \<longleftrightarrow> (\<forall>r\<in>set rows. \<not> P r)"
  by (auto simp: find_row_def find_None_iff)

lemma exists_row_iff: "exists_row P rows \<longleftrightarrow> (\<exists>r\<in>set rows. P r)"
  by (simp add: exists_row_def list_ex_iff)

lemma unique_onD:
  "\<lbrakk> unique_on key rows; r \<in> set rows; r' \<in> set rows; key r = key r' \<rbrakk> \<Longrightarrow> r = r'"
  by (auto simp: unique_on_def distinct_map inj_on_def)

lemma unique_on_Nil [simp]: "unique_on key []"
  by (simp add: unique_on_def)

lemma unique_on_Cons:
  "unique_on key (a # rows) \<longleftrightarrow> (\<forall>r\<in>set rows. key r \<noteq> key a) \<and> unique_on key rows"
  by (auto simp: unique_on_def) (metis image_eqI)

lemma find_row_key:
  assumes "unique_on key rows" and "r \<in> set rows"
  shows "find_row (\<lambda>x. key x = key r) rows = Some r"
proof -
  obtain x where x: "find_row (\<lambda>x. key x = key r) rows = Some x"
    using assms(2) by (cases "find_row (\<lambda>x. key x = key r) rows") (auto simp: find_row_None_iff)
  then have "x \<in> set rows" "key x = key r" by (auto dest: find_row_SomeD)
  then have "x = r" using unique_onD [OF assms(1) _ assms(2)] by blast
  with x show ?thesis by simp
qed

lemma find_row_update_where:
  assumes "\<And>r. key (f r) = key r"
  shows "find_row (\<lambda>r. key r = k) (update_where (\<lambda>r. key r = k) f rows) =
         map_option f (find_row (\<lambda>r. key r = k) rows)"
  using assms by (induction rows) (auto simp: find_row_def update_where_def)

lemma find_row_update_other:
  assumes "\<And>r. key (f r) = key r" and "\<And>r. P r \<Longrightarrow> key r \<noteq> k"
  shows "find_row (\<lambda>r. key r = k) (update_where P f rows) = find_row (\<lambda>r. key r = k) rows"
  using assms by (induction rows) (auto simp: find_row_def update_where_def)

lemma find_row_delete_where:
  "find_row Q (delete_where P rows) = find_row (\<lambda>r. Q r \<and> \<not> P r) rows"
  by (induction rows) (auto simp: find_row_def delete_where_def)

lemma find_row_append:
  "find_row P (xs @ ys) = (case find_row P xs of Some r \<Rightarrow> Some r | None \<Rightarrow> find_row P ys)"
  by (induction xs) (auto simp: find_row_def)

lemma find_row_single [simp]: "find_row P [r] = (if P r then Some r else None)"
  by (simp add: find_row_def)

lemma set_update_where: "set (update_where P f rows) = (\<lambda>r. if P r then f r else r) ` set rows"
  by (simp add: update_where_def)

lemma set_delete_where [simp]: "set (delete_where P rows) = {r \<in> set rows. \<not> P r}"
  by (auto simp: delete_where_def)

lemma exists_row_update_key:
  "(\<And>r. key (f r) = key r) \<Longrightarrow>
     exists_row (\<lambda>r. key r = k) (update_where P f rows) = exists_row (\<lambda>r. key r = k) rows"
  by (induction rows) (auto simp: exists_row_def update_where_def)

lemma map_key_update_where:
  "(\<And>r. key (f r) = key r) \<Longrightarrow> map key (update_where P f rows) = map key rows"
  by (simp add: update_where_def)

lemma image_key_update_where:
  assumes "\<And>r. key (f r) = key r"
  shows "key ` set (update_where P f rows) = key ` set rows"
  using arg_cong [OF map_key_update_where [of key f P rows, OF assms], of set] by simp

lemma unique_on_update_where [db_inv]:
  "(\<And>r. key (f r) = key r) \<Longrightarrow> unique_on key (update_where P f rows) = unique_on key rows"
  by (simp add: unique_on_def map_key_update_where)

lemma unique_on_delete_where [db_inv, intro]:
  "unique_on key rows \<Longrightarrow> unique_on key (delete_where P rows)"
  by (auto simp: unique_on_def delete_where_def intro: distinct_map_filter)

lemma unique_on_append1:
  "unique_on key (rows @ [r]) \<longleftrightarrow> unique_on key rows \<and> \<not> exists_row (\<lambda>x. key x = key r) rows"
  by (simp add: unique_on_def exists_row_iff) (metis imageE image_eqI)

lemma rows_affected_pos: "0 < rows_affected P rows \<longleftrightarrow> exists_row P rows"
  by (auto simp: rows_affected_def exists_row_iff filter_empty_conv)

lemma rows_affected_zero: "rows_affected P rows = 0 \<longleftrightarrow> \<not> exists_row P rows"
  by (simp only: rows_affected_pos [symmetric] not_gr_zero)

lemma rows_affected_unique:
  assumes "unique_on key rows"
  shows "rows_affected (\<lambda>r. key r = k \<and> P r) rows \<le> 1"
  using assms
proof (induction rows)
  case (Cons a rows)
  then have IH: "rows_affected (\<lambda>r. key r = k \<and> P r) rows \<le> 1"
    by (simp add: unique_on_def)
  show ?case
  proof (cases "key a = k \<and> P a")
    case True
    then have "filter (\<lambda>r. key r = k \<and> P r) rows = []"
      using Cons.prems by (auto simp: unique_on_def filter_empty_conv) (metis image_eqI)
    with True show ?thesis by (simp add: rows_affected_def)
  next
    case False
    then show ?thesis using IH by (auto simp: rows_affected_def)
  qed
qed (simp add: rows_affected_def)

lemma find_row_update_cond:
  assumes "\<And>r. key (f r) = key r"
  shows "find_row (\<lambda>r. key r = k) (update_where (\<lambda>r. key r = k \<and> Q r) f rows) =
         map_option (\<lambda>r. if Q r then f r else r) (find_row (\<lambda>r. key r = k) rows)"
  using assms by (induction rows) (auto simp: find_row_def update_where_def)

lemma find_row_update_cond_other:
  assumes "\<And>r. key (f r) = key r" and "k' \<noteq> k"
  shows "find_row (\<lambda>r. key r = k') (update_where (\<lambda>r. key r = k \<and> Q r) f rows) =
         find_row (\<lambda>r. key r = k') rows"
  using assms by (induction rows) (auto simp: find_row_def update_where_def)

lemma find_row_delete_cond:
  assumes "unique_on key rows"
  shows "find_row (\<lambda>r. key r = k) (delete_where (\<lambda>r. key r = k \<and> Q r) rows) =
    (case find_row (\<lambda>r. key r = k) rows of None \<Rightarrow> None | Some r \<Rightarrow> if Q r then None else Some r)"
  using assms
proof (induction rows)
  case (Cons a rows)
  show ?case
  proof (cases "key a = k")
    case True
    then have "find_row (\<lambda>r. key r = k) rows = None"
      using Cons.prems by (auto simp: unique_on_Cons find_row_None_iff)
    with Cons True show ?thesis by (auto simp: unique_on_Cons find_row_def delete_where_def)
  next
    case False
    with Cons show ?thesis by (auto simp: unique_on_Cons find_row_def delete_where_def)
  qed
qed (simp add: find_row_def delete_where_def)

lemma find_row_delete_cond_other:
  assumes "k' \<noteq> k"
  shows "find_row (\<lambda>r. key r = k') (delete_where (\<lambda>r. key r = k \<and> Q r) rows) =
         find_row (\<lambda>r. key r = k') rows"
  using assms by (induction rows) (auto simp: find_row_def delete_where_def)

lemma rows_affected_find:
  assumes "unique_on key rows"
  shows "exists_row (\<lambda>r. key r = k \<and> Q r) rows
     \<longleftrightarrow> (\<exists>r. find_row (\<lambda>r. key r = k) rows = Some r \<and> Q r)"
proof
  assume "exists_row (\<lambda>r. key r = k \<and> Q r) rows"
  then obtain r where "r \<in> set rows" "key r = k" "Q r" by (auto simp: exists_row_iff)
  with find_row_key [OF assms] show "\<exists>r. find_row (\<lambda>r. key r = k) rows = Some r \<and> Q r" by auto
next
  assume "\<exists>r. find_row (\<lambda>r. key r = k) rows = Some r \<and> Q r"
  then show "exists_row (\<lambda>r. key r = k \<and> Q r) rows"
    by (auto simp: exists_row_iff dest: find_row_SomeD)
qed

lemma rows_affected_unique_iff:
  assumes "unique_on key rows"
  shows "rows_affected (\<lambda>r. key r = k \<and> Q r) rows = 1
     \<longleftrightarrow> (\<exists>r. find_row (\<lambda>r. key r = k) rows = Some r \<and> Q r)"
proof -
  have "rows_affected (\<lambda>r. key r = k \<and> Q r) rows = 1 \<longleftrightarrow> 0 < rows_affected (\<lambda>r. key r = k \<and> Q r) rows"
    using rows_affected_unique [OF assms, of k Q] by linarith
  then show ?thesis by (simp only: rows_affected_pos rows_affected_find [OF assms])
qed

lemma sorted_wrt_less_last:
  fixes f :: "'a \<Rightarrow> 'b::linorder"
  shows "\<lbrakk> sorted_wrt (<) (map f xs); x \<in> set xs \<rbrakk> \<Longrightarrow> f x \<le> f (last xs)"
  by (induction xs rule: rev_induct) (auto simp: sorted_wrt_append intro: less_imp_le)

lemma sorted_map_last:
  fixes f :: "'a \<Rightarrow> 'b::linorder"
  shows "\<lbrakk> sorted (map f xs); x \<in> set xs \<rbrakk> \<Longrightarrow> f x \<le> f (last xs)"
  by (induction xs rule: rev_induct) (auto simp: sorted_append)

lemma sorted_wrt_snoc_iff:
  fixes f :: "'a \<Rightarrow> 'b::linorder"
  shows "sorted_wrt (<) (map f (xs @ [y])) \<longleftrightarrow>
    sorted_wrt (<) (map f xs) \<and> (xs = [] \<or> f (last xs) < f y)"
proof
  assume "sorted_wrt (<) (map f (xs @ [y]))"
  then show "sorted_wrt (<) (map f xs) \<and> (xs = [] \<or> f (last xs) < f y)"
    by (cases "xs = []") (auto simp: sorted_wrt_append)
next
  assume a: "sorted_wrt (<) (map f xs) \<and> (xs = [] \<or> f (last xs) < f y)"
  then have "f x < f y" if "x \<in> set xs" for x
    using that sorted_wrt_less_last [of f xs x] by (auto intro: le_less_trans)
  with a show "sorted_wrt (<) (map f (xs @ [y]))" by (auto simp: sorted_wrt_append)
qed

lemma starts_with_iff: "starts_with s p \<longleftrightarrow> prefix p s"
  by (metis starts_with_def take_is_prefix prefix_def append_eq_conv_conj)

lemma strip_prefix_Some_iff: "strip_prefix s p = Some r \<longleftrightarrow> s = p @ r"
  by (auto simp: strip_prefix_def starts_with_iff prefix_def)

lemma ends_with_iff: "ends_with s p \<longleftrightarrow> suffix p s"
  by (simp add: ends_with_def starts_with_iff suffix_to_prefix)

lemma strip_suffix_Some_iff: "strip_suffix s p = Some r \<longleftrightarrow> s = r @ p"
  by (auto simp: strip_suffix_def ends_with_iff suffix_def)

lemma strip_suffix_None_iff: "strip_suffix s p = None \<longleftrightarrow> \<not> suffix p s"
  by (auto simp: strip_suffix_def ends_with_iff)

lemma strip_suffix_append [simp]: "strip_suffix (s @ t) t = Some s"
  by (simp add: strip_suffix_Some_iff)

lemma split_once_None_iff: "split_once c s = None \<longleftrightarrow> c \<notin> set s"
  by (induction s) auto

lemma split_once_Some_iff: "split_once c s = Some (a, b) \<longleftrightarrow> s = a @ c # b \<and> c \<notin> set a"
proof (induction s arbitrary: a)
  case (Cons x s)
  show ?case
  proof (cases a)
    case Nil
    then show ?thesis by auto
  next
    case (Cons y a')
    then show ?thesis using Cons.IH [of a'] by auto
  qed
qed simp

lemmas ascii_class_defs = is_ascii_lowercase_def is_ascii_uppercase_def is_ascii_digit_def
  less_eq_char_def less_char_def

lemma str_len_ascii: "list_all (\<lambda>c. (of_char c :: nat) < 128) s \<Longrightarrow> str_len s = length s"
  by (induction s) (simp_all add: str_len_def)

lemma str_len_ge: "length s \<le> str_len s"
  by (induction s) (simp_all add: str_len_def)

section \<open>Machines that only move forward\<close>

text \<open>
  The contract several components share: a machine driven by events whose rank never goes down.
  It gives monotonicity of whole runs, and that a run that has reached a rank keeps it.
\<close>

locale monotone_machine =
  fixes step :: "'e \<Rightarrow> 's \<Rightarrow> 's"
    and rank :: "'s \<Rightarrow> 'r::linorder"
    and inv :: "'s \<Rightarrow> bool"
  assumes inv_step: "inv s \<Longrightarrow> inv (step e s)"
    and rank_step: "inv s \<Longrightarrow> rank s \<le> rank (step e s)"
begin

lemma run_inv: "inv s \<Longrightarrow> inv (fold step es s)"
  by (induction es arbitrary: s) (simp_all add: inv_step)

lemma run_rank: "inv s \<Longrightarrow> rank s \<le> rank (fold step es s)"
proof (induction es arbitrary: s)
  case (Cons e es)
  have "rank s \<le> rank (step e s)" using Cons.prems by (rule rank_step)
  also have "\<dots> \<le> rank (fold step es (step e s))" using Cons inv_step by blast
  finally show ?case by simp
qed simp

lemma run_extend: "inv s \<Longrightarrow> rank (fold step es s) \<le> rank (fold step (es @ fs) s)"
  by (simp add: run_rank run_inv)

lemma run_top: "\<lbrakk> inv s; \<And>x. rank x \<le> rank s \<rbrakk> \<Longrightarrow> rank (fold step es s) = rank s"
  by (meson order_antisym run_rank)

end

section \<open>Splitting of strings\<close>

lemma split_once_append:
  "split_once c (p @ q) = (case split_once c p of
     Some (a, b) \<Rightarrow> Some (a, b @ q)
   | None \<Rightarrow> map_option (\<lambda>(a, b). (p @ a, b)) (split_once c q))"
proof (induction p)
  case Nil
  show ?case by (cases "split_once c q") auto
next
  case (Cons x p)
  then show ?case by (cases "split_once c q") (auto split: option.splits)
qed

lemma split_once_here: "c \<notin> set s \<Longrightarrow> split_once c (s @ c # t) = Some (s, t)"
  by (induction s) auto

lemma split_once_length: "split_once c s = Some (a, b) \<Longrightarrow> length b < length s"
  by (induction s arbitrary: a) (auto split: if_splits)

lemma split_char_append:
  "c \<notin> set s \<Longrightarrow> split_char c (s @ c # t) = s # split_char c t"
  by (induction s) auto

lemma split_char_none: "c \<notin> set s \<Longrightarrow> split_char c s = [s]"
  by (induction s) auto

lemma split_char_not_Nil [simp]: "split_char c s \<noteq> []"
  by (induction s) (auto split: list.split)

lemma hd_split_char: "hd (split_char c s) = takeWhile (\<lambda>x. x \<noteq> c) s"
  by (induction s) (auto split: list.split)

lemma takeWhile_plain: "c \<notin> set s \<Longrightarrow> takeWhile (\<lambda>x. x \<noteq> c) (s @ t) = s @ takeWhile (\<lambda>x. x \<noteq> c) t"
  by (rule takeWhile_append2) auto

end
