(* ===== verification/Backend_State.thy ===== *)
theory Backend_State
  imports Plane_Prelude
begin

text \<open>
  The lifecycle of a backend, from \<open>common/src/types/backend_state.rs\<close>: the statuses with their
  declaration order and their integer codes, the states a backend goes through with the data
  each one carries, the \<open>to_*\<close> operations that move a backend along its lifecycle, and the public
  view of a state that status streams send.

  The interpretation \<open>lifecycle\<close> of \<open>monotone_machine\<close> on the terminating operations shows that no
  sequence of them moves a backend backwards.
\<close>

section \<open>Statuses\<close>

datatype BackendStatus =
    StScheduled | StLoading | StStarting | StWaiting | StReady
  | StTerminating | StHardTerminating | StTerminated

text \<open>The derived \<open>PartialOrd\<close> compares declaration positions.\<close>

fun status_index :: "BackendStatus \<Rightarrow> nat" where
  "status_index StScheduled = 0"
| "status_index StLoading = 1"
| "status_index StStarting = 2"
| "status_index StWaiting = 3"
| "status_index StReady = 4"
| "status_index StTerminating = 5"
| "status_index StHardTerminating = 6"
| "status_index StTerminated = 7"

fun as_int :: "BackendStatus \<Rightarrow> int" where
  "as_int StScheduled = 10"
| "as_int StLoading = 20"
| "as_int StStarting = 30"
| "as_int StWaiting = 40"
| "as_int StReady = 50"
| "as_int StTerminating = 60"
| "as_int StHardTerminating = 65"
| "as_int StTerminated = 70"

fun status_as_value :: "BackendStatus \<Rightarrow> string" where
  "status_as_value StScheduled = ''scheduled''"
| "status_as_value StLoading = ''loading''"
| "status_as_value StStarting = ''starting''"
| "status_as_value StWaiting = ''waiting''"
| "status_as_value StReady = ''ready''"
| "status_as_value StTerminating = ''terminating''"
| "status_as_value StHardTerminating = ''hard-terminating''"
| "status_as_value StTerminated = ''terminated''"

text \<open>
  \<open>Display\<close> and \<open>TryFrom<String>\<close> go through serde with the names of the attributes
  \<open>rename_all = "lowercase"\<close> and \<open>rename = "hard-terminating"\<close>.
\<close>

definition status_to_string :: "BackendStatus \<Rightarrow> string" where
  "status_to_string s = status_as_value s"

definition all_statuses :: "BackendStatus list" where
  "all_statuses = [StScheduled, StLoading, StStarting, StWaiting, StReady,
                   StTerminating, StHardTerminating, StTerminated]"

definition status_try_from :: "string \<Rightarrow> BackendStatus option" where
  "status_try_from s = find (\<lambda>st. status_to_string st = s) all_statuses"

instantiation BackendStatus :: linorder
begin

definition less_eq_BackendStatus :: "BackendStatus \<Rightarrow> BackendStatus \<Rightarrow> bool" where
  "less_eq_BackendStatus a b = (status_index a \<le> status_index b)"

definition less_BackendStatus :: "BackendStatus \<Rightarrow> BackendStatus \<Rightarrow> bool" where
  "less_BackendStatus a b = (status_index a < status_index b)"

instance
proof
  fix a b :: BackendStatus
  show "a \<le> b \<Longrightarrow> b \<le> a \<Longrightarrow> a = b"
    by (cases a; cases b) (simp_all add: less_eq_BackendStatus_def)
qed (auto simp: less_eq_BackendStatus_def less_BackendStatus_def)

end

section \<open>States\<close>

type_synonym socket_addr = "string \<times> 16 word"

datatype TerminationKind = Soft | Hard

datatype TerminationReason =
  Swept | External | KeyExpired | Lost | ReasonStartupTimeout | InternalError

datatype BackendError = BackendStartupTimeout | BackendOther string

datatype BackendState =
    Scheduled
  | Loading
  | Starting
  | Waiting socket_addr
  | Ready socket_addr
  | Terminating BackendStatus TerminationKind TerminationReason
  | HardTerminating BackendStatus TerminationReason
  | Terminated BackendStatus "TerminationKind option" "TerminationReason option" "32 word option"

fun reason_as_value :: "TerminationReason \<Rightarrow> string" where
  "reason_as_value Swept = ''swept''"
| "reason_as_value External = ''external''"
| "reason_as_value KeyExpired = ''keyexpired''"
| "reason_as_value Lost = ''lost''"
| "reason_as_value ReasonStartupTimeout = ''startuptimeout''"
| "reason_as_value InternalError = ''internalerror''"

text \<open>The structured log entry of a state: the \<open>visit_entry\<close> calls in order.\<close>

datatype log_value =
    LString string
  | LAddr socket_addr
  | LKind TerminationKind
  | LI32 "32 word"
  | LUnit

definition log_option :: "('a \<Rightarrow> log_value) \<Rightarrow> 'a option \<Rightarrow> log_value" where
  "log_option f x = (case x of None \<Rightarrow> LUnit | Some v \<Rightarrow> f v)"

fun visit_state :: "BackendState \<Rightarrow> (string \<times> log_value) list" where
  "visit_state Scheduled = [(''status'', LString ''scheduled'')]"
| "visit_state Loading = [(''status'', LString ''loading'')]"
| "visit_state Starting = [(''status'', LString ''starting'')]"
| "visit_state (Waiting a) = [(''status'', LString ''waiting''), (''address'', LAddr a)]"
| "visit_state (Ready a) = [(''status'', LString ''ready''), (''address'', LAddr a)]"
| "visit_state (Terminating ls t r) =
     [(''status'', LString ''terminating''), (''last_status'', LString (status_as_value ls)),
      (''termination'', LKind t), (''reason'', LString (reason_as_value r))]"
| "visit_state (HardTerminating ls r) =
     [(''status'', LString ''hard-terminating''), (''last_status'', LString (status_as_value ls)),
      (''reason'', LString (reason_as_value r))]"
| "visit_state (Terminated ls t r e) =
     [(''status'', LString ''terminated''), (''last_status'', LString (status_as_value ls)),
      (''termination'', log_option LKind t),
      (''reason'', log_option (LString \<circ> reason_as_value) r),
      (''exit_code'', log_option LI32 e)]"

fun state_size_hint :: "BackendState \<Rightarrow> nat \<times> nat option" where
  "state_size_hint Scheduled = (1, Some 1)"
| "state_size_hint Loading = (1, Some 1)"
| "state_size_hint Starting = (1, Some 1)"
| "state_size_hint (Waiting _) = (2, Some 2)"
| "state_size_hint (Ready _) = (1, Some 2)"
| "state_size_hint (Terminating _ _ _) = (1, Some 4)"
| "state_size_hint (HardTerminating _ _) = (1, Some 3)"
| "state_size_hint (Terminated _ _ _ _) = (2, Some 5)"

fun address :: "BackendState \<Rightarrow> socket_addr option" where
  "address (Waiting a) = Some a"
| "address (Ready a) = Some a"
| "address _ = None"

fun status :: "BackendState \<Rightarrow> BackendStatus" where
  "status Scheduled = StScheduled"
| "status Loading = StLoading"
| "status Starting = StStarting"
| "status (Waiting _) = StWaiting"
| "status (Ready _) = StReady"
| "status (Terminating _ _ _) = StTerminating"
| "status (HardTerminating _ _) = StHardTerminating"
| "status (Terminated _ _ _ _) = StTerminated"

definition status_int :: "BackendState \<Rightarrow> int" where
  "status_int s = as_int (status s)"

definition to_loading :: "BackendState \<Rightarrow> BackendState" where
  "to_loading s = Loading"

definition to_starting :: "BackendState \<Rightarrow> BackendState" where
  "to_starting s = Starting"

definition to_waiting :: "BackendState \<Rightarrow> socket_addr \<Rightarrow> BackendState" where
  "to_waiting s a = Waiting a"

definition to_ready :: "BackendState \<Rightarrow> socket_addr \<Rightarrow> BackendState" where
  "to_ready s a = Ready a"

definition to_terminating :: "BackendState \<Rightarrow> TerminationReason \<Rightarrow> BackendState" where
  "to_terminating s reason =
     (if status s \<ge> StTerminating then s else Terminating (status s) Soft reason)"

definition to_hard_terminating :: "BackendState \<Rightarrow> TerminationReason \<Rightarrow> BackendState" where
  "to_hard_terminating s reason =
     (if status s \<ge> StHardTerminating then s
      else case s of
        Terminating last_status _ _ \<Rightarrow> HardTerminating last_status reason
      | _ \<Rightarrow> HardTerminating (status s) reason)"

definition to_terminated :: "BackendState \<Rightarrow> 32 word option \<Rightarrow> BackendState" where
  "to_terminated s exit_code = (case s of
     Terminated _ _ _ _ \<Rightarrow> s
   | HardTerminating last_status reason \<Rightarrow>
       Terminated last_status (Some Hard) (Some reason) exit_code
   | Terminating last_status termination reason \<Rightarrow>
       Terminated last_status (Some termination) (Some reason) exit_code
   | _ \<Rightarrow> Terminated (status s) None None exit_code)"

definition default_state :: BackendState where
  "default_state = Scheduled"

section \<open>The public view of a state\<close>

record BackendStatusStreamEntry =
  se_status :: BackendStatus
  se_termination_reason :: "TerminationReason option"
  se_termination_kind :: "TerminationKind option"
  se_exit_error :: "bool option"
  se_time :: time

definition from_state :: "BackendState \<Rightarrow> time \<Rightarrow> BackendStatusStreamEntry" where
  "from_state s timestamp =
     \<lparr> se_status = status s,
       se_termination_reason = (case s of
           Terminated _ _ reason _ \<Rightarrow> reason
         | Terminating _ _ reason \<Rightarrow> Some reason
         | HardTerminating _ reason \<Rightarrow> Some reason
         | _ \<Rightarrow> None),
       se_termination_kind = (case s of
           Terminated _ termination _ _ \<Rightarrow> termination
         | Terminating _ _ _ \<Rightarrow> Some Soft
         | HardTerminating _ _ \<Rightarrow> Some Hard
         | _ \<Rightarrow> None),
       se_exit_error = (case s of
           Terminated _ _ _ exit_code \<Rightarrow> (case exit_code of
               Some d \<Rightarrow> if d \<noteq> 0 then Some True else Some False
             | None \<Rightarrow> Some False)
         | _ \<Rightarrow> None),
       se_time = timestamp \<rparr>"

section \<open>The termination operations as a machine\<close>

text \<open>
  A state is well-formed when the status recorded by a terminating state is one from before
  termination, as the comments on \<open>last_status\<close> require. The three termination operations, which
  any caller may apply at any time, form a machine driven by \<open>term_event\<close>.
\<close>

fun wf_state :: "BackendState \<Rightarrow> bool" where
  "wf_state (Terminating ls _ _) = (ls < StTerminating)"
| "wf_state (HardTerminating ls _) = (ls < StTerminating)"
| "wf_state (Terminated ls _ _ _) = (ls < StTerminating)"
| "wf_state _ = True"

datatype term_event =
    EvTerminating TerminationReason
  | EvHardTerminating TerminationReason
  | EvTerminated "32 word option"

fun term_step :: "term_event \<Rightarrow> BackendState \<Rightarrow> BackendState" where
  "term_step (EvTerminating r) s = to_terminating s r"
| "term_step (EvHardTerminating r) s = to_hard_terminating s r"
| "term_step (EvTerminated e) s = to_terminated s e"

text \<open>The status before termination that a state remembers.\<close>

fun last_live_status :: "BackendState \<Rightarrow> BackendStatus" where
  "last_live_status (Terminating ls _ _) = ls"
| "last_live_status (HardTerminating ls _) = ls"
| "last_live_status (Terminated ls _ _ _) = ls"
| "last_live_status s = status s"

section \<open>Lemmas\<close>

lemmas status_order_defs = less_eq_BackendStatus_def less_BackendStatus_def

lemma status_le_Terminated [simp, status_simps]: "s \<le> StTerminated"
  by (cases s) (simp_all add: status_order_defs)

lemma StScheduled_le [simp, status_simps]: "StScheduled \<le> s"
  by (simp add: status_order_defs)

lemma as_int_less: "as_int a < as_int b \<longleftrightarrow> a < b"
  by (cases a; cases b) (simp_all add: status_order_defs)

lemma as_int_le: "as_int a \<le> as_int b \<longleftrightarrow> a \<le> b"
  using as_int_less [of b a] by (simp add: not_less [symmetric])

lemma as_int_inject [simp]: "as_int a = as_int b \<longleftrightarrow> a = b"
  by (metis as_int_le order_antisym order_refl)

lemma as_int_bounds: "10 \<le> as_int s" "as_int s \<le> 70"
  by (cases s; simp)+

lemma status_strings_distinct: "distinct (map status_to_string all_statuses)"
  by (simp add: all_statuses_def status_to_string_def)

lemma mem_all_statuses [simp]: "s \<in> set all_statuses"
  by (cases s) (simp_all add: all_statuses_def)

lemma status_to_string_inject [simp]: "status_to_string a = status_to_string b \<longleftrightarrow> a = b"
  by (cases a; cases b) (simp_all add: status_to_string_def)

lemma status_try_from_Some_iff: "status_try_from x = Some s \<longleftrightarrow> x = status_to_string s"
proof
  assume "status_try_from x = Some s"
  then show "x = status_to_string s" by (auto simp: status_try_from_def find_Some_iff)
next
  assume "x = status_to_string s"
  then show "status_try_from x = Some s"
    by (cases s) (simp_all add: status_try_from_def all_statuses_def status_to_string_def)
qed

lemma status_eq_iff [status_simps]:
  "status s = StScheduled \<longleftrightarrow> s = Scheduled"
  "status s = StLoading \<longleftrightarrow> s = Loading"
  "status s = StStarting \<longleftrightarrow> s = Starting"
  "status s = StWaiting \<longleftrightarrow> (\<exists>a. s = Waiting a)"
  "status s = StReady \<longleftrightarrow> (\<exists>a. s = Ready a)"
  "status s = StTerminating \<longleftrightarrow> (\<exists>l t r. s = Terminating l t r)"
  "status s = StHardTerminating \<longleftrightarrow> (\<exists>l r. s = HardTerminating l r)"
  "status s = StTerminated \<longleftrightarrow> (\<exists>l t r e. s = Terminated l t r e)"
  by (cases s; simp)+

lemma wf_state_live: "status s < StTerminating \<Longrightarrow> wf_state s"
  by (cases s) (simp_all add: status_order_defs)

lemma status_to_terminating: "status (to_terminating s r) = max (status s) StTerminating"
  by (cases s) (simp_all add: to_terminating_def status_order_defs max_def)

lemma status_to_hard_terminating:
  "status (to_hard_terminating s r) = max (status s) StHardTerminating"
  by (cases s) (simp_all add: to_hard_terminating_def status_order_defs max_def)

lemma status_to_terminated: "status (to_terminated s e) = StTerminated"
  by (cases s) (simp_all add: to_terminated_def)

lemmas status_to_term = status_to_terminating status_to_hard_terminating status_to_terminated

lemma wf_to_terminating: "wf_state s \<Longrightarrow> wf_state (to_terminating s r)"
  by (cases s) (simp_all add: to_terminating_def status_order_defs)

lemma wf_to_hard_terminating: "wf_state s \<Longrightarrow> wf_state (to_hard_terminating s r)"
  by (cases s) (simp_all add: to_hard_terminating_def status_order_defs)

lemma wf_to_terminated: "wf_state s \<Longrightarrow> wf_state (to_terminated s e)"
  by (cases s) (simp_all add: to_terminated_def status_order_defs)

lemmas wf_to_term = wf_to_terminating wf_to_hard_terminating wf_to_terminated

lemma status_term_step: "status s \<le> status (term_step ev s)"
  by (cases ev) (simp_all add: status_to_term)

lemma wf_term_step: "wf_state s \<Longrightarrow> wf_state (term_step ev s)"
  by (cases ev) (simp_all add: wf_to_term)

lemma last_live_term_step: "last_live_status (term_step ev s) = last_live_status s"
  by (cases ev; cases s)
     (simp_all add: to_terminating_def to_hard_terminating_def to_terminated_def status_order_defs)

interpretation lifecycle: monotone_machine term_step status wf_state
  by unfold_locales (simp_all add: status_term_step wf_term_step)

lemma term_run_Terminated: "fold term_step evs (Terminated l t r e) = Terminated l t r e"
proof (induction evs)
  case (Cons ev evs)
  have "term_step ev (Terminated l t r e) = Terminated l t r e"
    by (cases ev)
       (simp_all add: to_terminating_def to_hard_terminating_def to_terminated_def status_order_defs)
  with Cons show ?case by simp
qed simp

lemma last_live_term_run: "last_live_status (fold term_step evs s) = last_live_status s"
  by (induction evs arbitrary: s) (simp_all add: last_live_term_step)

section \<open>Properties\<close>

text \<open>
  The integer code stored in the database orders statuses exactly as the derived order of
  \<open>BackendStatus\<close> does, and the text form stored beside it decodes to the same status: the order
  comparison in SQL and the one in Rust agree.
\<close>

theorem status_codes_agree:
  "(as_int a \<le> as_int b \<longleftrightarrow> a \<le> b) \<and> (as_int a = as_int b \<longleftrightarrow> a = b)
   \<and> (status_try_from x = Some a \<longleftrightarrow> x = status_to_string a)"
  by (simp add: as_int_le status_try_from_Some_iff)

text \<open>
  Whatever sequence of termination operations hits a backend, its status never goes back,
  the status it had before termination is never overwritten, and a terminated state, with its
  exit code and reason, is final.
\<close>

theorem termination_monotone:
  assumes "wf_state s"
  shows "status s \<le> status (fold term_step evs s)
    \<and> wf_state (fold term_step evs s)
    \<and> last_live_status (fold term_step evs s) = last_live_status s
    \<and> (status s = StTerminated \<longrightarrow> fold term_step evs s = s)"
  using lifecycle.run_rank [OF assms] lifecycle.run_inv [OF assms]
  by (auto simp: last_live_term_run status_eq_iff term_run_Terminated)

theorem termination_monotone_witness:
  "wf_state (Ready (''10.0.0.1'', 80))
   \<and> last_live_status (fold term_step [EvTerminating Swept, EvHardTerminating KeyExpired,
        EvTerminated (Some 137)] (Ready (''10.0.0.1'', 80))) = StReady"
  using termination_monotone [of "Ready (''10.0.0.1'', 80)"
      "[EvTerminating Swept, EvHardTerminating KeyExpired, EvTerminated (Some 137)]"] by simp

end
