(* ===== verification/Names.thy ===== *)
theory Names
  imports Plane_Prelude
begin

text \<open>
  Names of the entities of the system, from \<open>common/src/names.rs\<close>, and the random strings they
  are made of, from \<open>common/src/util.rs\<close>. A name is a string; the macro \<open>entity_name\<close> becomes the
  function \<open>name_try_from\<close> of the prefix the macro is instantiated with. Randomness is a
  parameter: the list of indexes the generator draws.
\<close>

section \<open>Definitions\<close>

type_synonym ControllerName = string
type_synonym BackendName = string
type_synonym ProxyName = string
type_synonym DroneName = string
type_synonym AcmeDnsServerName = string
type_synonym BackendActionName = string

definition MAX_NAME_LENGTH :: nat where
  "MAX_NAME_LENGTH = 45"

datatype NameError =
    InvalidAnyPrefix string
  | InvalidPrefix string string
  | InvalidCharacter char nat
  | TooLong nat

datatype NodeKind = NodeProxy | NodeDrone | NodeAcmeDnsServer

definition name_char :: "char \<Rightarrow> bool" where
  "name_char c = ((is_ascii_lowercase c \<or> is_ascii_digit c) \<or> c = CHR ''-'')"

fun first_bad_char :: "nat \<Rightarrow> string \<Rightarrow> (char \<times> nat) option" where
  "first_bad_char i [] = None"
| "first_bad_char i (c # cs) = (if \<not> name_char c then Some (c, i) else first_bad_char (Suc i) cs)"

definition name_try_from :: "string option \<Rightarrow> string \<Rightarrow> NameError + string" where
  "name_try_from pre s =
     (if (case pre of Some p \<Rightarrow> \<not> starts_with s p | None \<Rightarrow> False)
        then Inl (InvalidPrefix s (the pre))
      else if str_len s > MAX_NAME_LENGTH then Inl (TooLong (str_len s))
      else case first_bad_char 0 s of
             Some (c, i) \<Rightarrow> Inl (InvalidCharacter c i)
           | None \<Rightarrow> Inr s)"

definition controller_prefix :: "string option" where "controller_prefix = Some ''co''"
definition backend_prefix :: "string option" where "backend_prefix = None"
definition proxy_prefix :: "string option" where "proxy_prefix = Some ''px''"
definition drone_prefix :: "string option" where "drone_prefix = Some ''dr''"
definition acme_dns_prefix :: "string option" where "acme_dns_prefix = Some ''ns''"
definition action_prefix :: "string option" where "action_prefix = Some ''ak''"

definition ALLOWED_CHARS :: string where
  "ALLOWED_CHARS = ''abcdefghijklmnopqrstuvwxyz0123456789''"

text \<open>The samples are drawn uniformly below \<open>ALLOWED_CHARS.len()\<close>; fourteen are taken.\<close>

definition random_string :: "nat list \<Rightarrow> string" where
  "random_string samples = map (\<lambda>i. ALLOWED_CHARS ! i) (take 14 samples)"

definition samples_ok :: "nat list \<Rightarrow> bool" where
  "samples_ok samples = (14 \<le> length samples \<and> list_all (\<lambda>i. i < length ALLOWED_CHARS) samples)"

definition random_prefixed_string :: "string \<Rightarrow> nat list \<Rightarrow> string" where
  "random_prefixed_string p samples = p @ ''-'' @ random_string samples"

definition name_new_random :: "string option \<Rightarrow> nat list \<Rightarrow> string" where
  "name_new_random pre samples = (case pre of
     Some p \<Rightarrow> random_prefixed_string p samples
   | None \<Rightarrow> random_string samples)"

definition or_random :: "string option \<Rightarrow> nat list \<Rightarrow> string option \<Rightarrow> string" where
  "or_random pre samples name =
     (case name of Some n \<Rightarrow> n | None \<Rightarrow> name_new_random pre samples)"

definition to_container_id :: "BackendName \<Rightarrow> string" where
  "to_container_id name = ''plane-'' @ name"

definition from_container_id :: "string \<Rightarrow> NameError + BackendName" where
  "from_container_id container_id =
     bind_result (ok_or (strip_prefix container_id ''plane-'')
                        (InvalidPrefix container_id ''plane-''))
       (name_try_from backend_prefix)"

datatype AnyNodeName =
    AnyProxy ProxyName
  | AnyDrone DroneName
  | AnyAcmeDnsServer AcmeDnsServerName

fun any_to_string :: "AnyNodeName \<Rightarrow> string" where
  "any_to_string (AnyProxy n) = n"
| "any_to_string (AnyDrone n) = n"
| "any_to_string (AnyAcmeDnsServer n) = n"

definition any_try_from :: "string \<Rightarrow> NameError + AnyNodeName" where
  "any_try_from s =
     (if starts_with s (the proxy_prefix) then map_sum id AnyProxy (name_try_from proxy_prefix s)
      else if starts_with s (the drone_prefix) then map_sum id AnyDrone (name_try_from drone_prefix s)
      else if starts_with s (the acme_dns_prefix)
        then map_sum id AnyAcmeDnsServer (name_try_from acme_dns_prefix s)
      else Inl (InvalidAnyPrefix s))"

fun any_kind :: "AnyNodeName \<Rightarrow> NodeKind" where
  "any_kind (AnyProxy _) = NodeProxy"
| "any_kind (AnyDrone _) = NodeDrone"
| "any_kind (AnyAcmeDnsServer _) = NodeAcmeDnsServer"

text \<open>The predicate the parsers decide.\<close>

definition valid_name :: "string option \<Rightarrow> string \<Rightarrow> bool" where
  "valid_name pre s = ((case pre of Some p \<Rightarrow> starts_with s p | None \<Rightarrow> True)
     \<and> length s \<le> MAX_NAME_LENGTH \<and> list_all name_char s)"

fun any_valid :: "AnyNodeName \<Rightarrow> bool" where
  "any_valid (AnyProxy n) = valid_name proxy_prefix n"
| "any_valid (AnyDrone n) = valid_name drone_prefix n"
| "any_valid (AnyAcmeDnsServer n) = valid_name acme_dns_prefix n"

section \<open>Lemmas\<close>

lemmas prefix_defs = controller_prefix_def backend_prefix_def proxy_prefix_def drone_prefix_def
  acme_dns_prefix_def action_prefix_def

lemma first_bad_char_None: "first_bad_char i s = None \<longleftrightarrow> list_all name_char s"
  by (induction s arbitrary: i) simp_all

lemma first_bad_char_Some:
  "first_bad_char i s = Some (c, j) \<Longrightarrow>
     i \<le> j \<and> j - i < length s \<and> s ! (j - i) = c \<and> \<not> name_char c
     \<and> list_all name_char (take (j - i) s)"
proof (induction s arbitrary: i)
  case (Cons x s)
  show ?case
  proof (cases "name_char x")
    case True
    with Cons.prems have "first_bad_char (Suc i) s = Some (c, j)" by simp
    from Cons.IH [OF this] True show ?thesis by (auto simp: take_Cons' nth_Cons')
  qed (use Cons.prems in simp)
qed simp

lemma str_len_name: "list_all name_char s \<Longrightarrow> str_len s = length s"
  by (rule str_len_ascii) (auto simp: list_all_iff name_char_def ascii_class_defs)

lemma name_try_from_Inr: "name_try_from pre s = Inr n \<longleftrightarrow> n = s \<and> valid_name pre s"
proof (cases "first_bad_char 0 s")
  case None
  then have l: "list_all name_char s" by (simp add: first_bad_char_None)
  with None show ?thesis
    by (auto simp: name_try_from_def valid_name_def str_len_name split: option.splits)
next
  case (Some p)
  then have "\<not> list_all name_char s" using first_bad_char_None [of 0 s] by simp
  with Some show ?thesis
    by (auto simp: name_try_from_def valid_name_def split: option.splits prod.splits)
qed

lemma ALLOWED_CHARS_ok: "list_all name_char ALLOWED_CHARS" "length ALLOWED_CHARS = 36"
  by (simp_all add: ALLOWED_CHARS_def name_char_def ascii_class_defs)

lemma random_string_chars: "samples_ok samples \<Longrightarrow> list_all name_char (random_string samples)"
  using ALLOWED_CHARS_ok
  by (auto simp: random_string_def samples_ok_def list_all_iff dest!: in_set_takeD)

lemma random_string_length: "samples_ok samples \<Longrightarrow> length (random_string samples) = 14"
  by (simp add: random_string_def samples_ok_def)

lemma map_sum_Inr_iff: "map_sum id f r = Inr y \<longleftrightarrow> (\<exists>x. r = Inr x \<and> y = f x)"
  by (cases r) auto

section \<open>Properties\<close>

text \<open>
  Parsing a name accepts exactly the strings that carry the prefix of the entity, have at
  most 45 characters and use only lower-case letters, digits and dashes, and returns them
  unchanged; a rejected character is reported at the first position that is wrong.
\<close>

theorem name_try_from_correct:
  "(name_try_from pre s = Inr n \<longleftrightarrow> n = s \<and> valid_name pre s)
   \<and> (name_try_from pre s = Inl (InvalidCharacter c i) \<longrightarrow>
        i < length s \<and> s ! i = c \<and> \<not> name_char c \<and> list_all name_char (take i s))"
proof (intro conjI impI)
  show "name_try_from pre s = Inr n \<longleftrightarrow> n = s \<and> valid_name pre s"
    by (rule name_try_from_Inr)
next
  assume "name_try_from pre s = Inl (InvalidCharacter c i)"
  then have "first_bad_char 0 s = Some (c, i)"
    by (auto simp: name_try_from_def split: if_splits option.splits)
  from first_bad_char_Some [OF this]
  show "i < length s" "s ! i = c" "\<not> name_char c" "list_all name_char (take i s)" by simp_all
qed

theorem name_try_from_correct_witness:
  "name_try_from controller_prefix ''co-*a'' = Inl (InvalidCharacter CHR ''*'' 3)
   \<and> ''co-*a'' ! 3 = CHR ''*''"
proof -
  have e: "name_try_from controller_prefix ''co-*a'' = Inl (InvalidCharacter CHR ''*'' 3)"
    by (simp add: name_try_from_def prefix_defs starts_with_def MAX_NAME_LENGTH_def name_char_def
        ascii_class_defs str_len_def)
  with name_try_from_correct [of controller_prefix "''co-*a''" undefined "CHR ''*''" 3]
  show ?thesis by blast
qed

text \<open>
  Names survive the encodings they are stored under: a generated name of any kind is valid
  for every outcome of the random generator, a backend name is recovered from its container id,
  and a node name is recovered, with its kind, from the text the database keeps.
\<close>

theorem name_roundtrips:
  assumes "samples_ok samples"
  shows "(\<forall>pre\<in>{controller_prefix, backend_prefix, proxy_prefix, drone_prefix, acme_dns_prefix,
                action_prefix}. name_try_from pre (name_new_random pre samples)
                                  = Inr (name_new_random pre samples))
    \<and> (from_container_id (to_container_id n) = Inr n \<longleftrightarrow> valid_name backend_prefix n)
    \<and> (any_try_from (any_to_string a) = Inr a \<longleftrightarrow> any_valid a)"
proof (intro conjI)
  show "\<forall>pre\<in>{controller_prefix, backend_prefix, proxy_prefix, drone_prefix, acme_dns_prefix,
                action_prefix}. name_try_from pre (name_new_random pre samples)
                                  = Inr (name_new_random pre samples)"
    using random_string_chars [OF assms] random_string_length [OF assms]
    by (simp add: name_try_from_Inr valid_name_def prefix_defs name_new_random_def
        random_prefixed_string_def starts_with_def MAX_NAME_LENGTH_def name_char_def ascii_class_defs)
  show "from_container_id (to_container_id n) = Inr n \<longleftrightarrow> valid_name backend_prefix n"
    by (simp add: from_container_id_def to_container_id_def bind_result_Inr_iff
        strip_prefix_Some_iff [THEN iffD2] name_try_from_Inr)
  show "any_try_from (any_to_string a) = Inr a \<longleftrightarrow> any_valid a"
    by (cases a)
       (auto simp: any_try_from_def map_sum_Inr_iff name_try_from_Inr prefix_defs valid_name_def
          starts_with_def)
qed

theorem name_roundtrips_witness:
  "samples_ok (replicate 14 0)
   \<and> name_try_from backend_prefix (name_new_random backend_prefix (replicate 14 0))
       = Inr (name_new_random backend_prefix (replicate 14 0))
   \<and> from_container_id (to_container_id ''abc'') = Inr ''abc''"
proof -
  have ok: "samples_ok (replicate 14 0)" by (simp add: samples_ok_def ALLOWED_CHARS_ok list_all_iff)
  moreover have "valid_name backend_prefix ''abc''"
    by (simp add: valid_name_def prefix_defs MAX_NAME_LENGTH_def name_char_def ascii_class_defs)
  ultimately show ?thesis using name_roundtrips [OF ok, of "''abc''"] by simp
qed

end
