(* ===== verification/Plane_Types.thy ===== *)
theory Plane_Types
  imports Backend_State Names
begin

text \<open>
  The data of the public API and of the sockets between controllers, drones, proxies and DNS
  servers, from \<open>common/src/types/mod.rs\<close>, \<open>common/src/protocol.rs\<close> and
  \<open>common/src/typed_socket/mod.rs\<close>: requests and responses, cluster names, subdomains, tokens and
  the messages of the three protocols. JSON values are the datatype \<open>json\<close>. The host parser of
  the \<open>url\<close> crate is the parameter \<open>host_parse\<close> of \<open>cluster_from_str\<close>, and the status URL of a backend
  is the parameter \<open>status_url\<close> of \<open>connect_response_new\<close>.
\<close>

section \<open>Definitions\<close>

datatype json =
    JNull | JBool bool | JNum int | JStr string | JArr "json list" | JObj "(string \<times> json) list"

type_synonym NodeId = int
type_synonym ClusterName = string
type_synonym DronePoolName = string
type_synonym BearerToken = string
type_synonym SecretToken = string
type_synonym Subdomain = string

subsection \<open>Cluster names, subdomains and tokens\<close>

definition is_https :: "ClusterName \<Rightarrow> bool" where
  "is_https c = (let port = map_option snd (split_once CHR '':'' c)
                 in port = None \<or> port = Some ''443'')"

fun decimal :: "string \<Rightarrow> nat \<Rightarrow> nat option" where
  "decimal [] acc = Some acc"
| "decimal (c # cs) acc =
     (if is_ascii_digit c then decimal cs (10 * acc + (of_char c - 48)) else None)"

text \<open>\<open>str::parse::<u16>\<close>: an optional plus sign, then decimal digits, at most 65535.\<close>

definition parse_u16 :: "string \<Rightarrow> nat option" where
  "parse_u16 s = (let d = (case s of c # cs \<Rightarrow> if c = CHR ''+'' then cs else s | [] \<Rightarrow> s)
     in if d = [] then None
        else case decimal d 0 of Some n \<Rightarrow> if n < 65536 then Some n else None | None \<Rightarrow> None)"

definition cluster_from_str :: "(string \<Rightarrow> bool) \<Rightarrow> string \<Rightarrow> string + ClusterName" where
  "cluster_from_str host_parse s =
     (let (host, port) = (case split_once CHR '':'' s of
                            Some (h, p) \<Rightarrow> (h, Some p) | None \<Rightarrow> (s, None))
      in if \<not> host_parse host then Inl ''invalid hostname or ip''
         else case port of
                Some p \<Rightarrow> if parse_u16 p = None then Inl ''invalid port'' else Inr s
              | None \<Rightarrow> Inr s)"

definition subdomain_from_str :: "string \<Rightarrow> string + Subdomain" where
  "subdomain_from_str s =
     (if list_all (\<lambda>c. is_alphanumeric c \<or> c = CHR ''-'') s
         \<and> \<not> starts_with s ''-'' \<and> \<not> ends_with s ''-''
      then Inr s else Inl s)"

definition STATIC_TOKEN_PREFIX :: string where
  "STATIC_TOKEN_PREFIX = ''s.''"

text \<open>The parameter is the encoded result of \<open>random_token\<close>.\<close>

definition new_random_static :: "string \<Rightarrow> BearerToken" where
  "new_random_static random_token = STATIC_TOKEN_PREFIX @ random_token"

definition is_static :: "BearerToken \<Rightarrow> bool" where
  "is_static t = starts_with t STATIC_TOKEN_PREFIX"

subsection \<open>Requests and responses\<close>

datatype PullPolicy = IfNotPresent | Always | Never

datatype Mount = MountBool bool | MountPath string

record KeyConfig =
  kc_name :: string
  kc_namespace :: string
  kc_tag :: string

definition key_config_new_random :: "nat list \<Rightarrow> KeyConfig" where
  "key_config_new_random samples =
     \<lparr> kc_name = random_prefixed_string ''lk'' samples, kc_namespace = [], kc_tag = [] \<rparr>"

record SpawnConfig =
  sc_id :: "BackendName option"
  sc_cluster :: "ClusterName option"
  sc_pool :: DronePoolName
  sc_executable :: json
  sc_lifetime_limit_seconds :: "int option"
  sc_max_idle_seconds :: "int option"
  sc_use_static_token :: bool
  sc_subdomain :: "Subdomain option"

record ConnectRequest =
  cr_key :: "KeyConfig option"
  cr_spawn_config :: "SpawnConfig option"
  cr_user :: "string option"
  cr_auth :: "(string \<times> json) list"

record RevokeRequest =
  rr_backend_id :: BackendName
  rr_user :: string

record ConnectResponse =
  rs_backend_id :: BackendName
  rs_spawned :: bool
  rs_status :: BackendStatus
  rs_token :: BearerToken
  rs_url :: string
  rs_subdomain :: "Subdomain option"
  rs_secret_token :: "SecretToken option"
  rs_status_url :: string
  rs_drone :: "DroneName option"

definition connect_url :: "ClusterName \<Rightarrow> Subdomain option \<Rightarrow> BearerToken \<Rightarrow> string" where
  "connect_url cluster subdomain token =
     (let protocol = (if is_https cluster then ''https'' else ''http'')
      in case subdomain of
           Some sd \<Rightarrow> protocol @ ''://'' @ sd @ ''.'' @ cluster @ ''/'' @ token @ ''/''
         | None \<Rightarrow> protocol @ ''://'' @ cluster @ ''/'' @ token @ ''/'')"

definition connect_response_new ::
  "(BackendName \<Rightarrow> string) \<Rightarrow> BackendName \<Rightarrow> ClusterName \<Rightarrow> bool \<Rightarrow> BackendStatus \<Rightarrow> BearerToken
     \<Rightarrow> SecretToken option \<Rightarrow> Subdomain option \<Rightarrow> DroneName option \<Rightarrow> ConnectResponse" where
  "connect_response_new status_url backend_id cluster spawned st token secret_token subdomain drone =
     \<lparr> rs_backend_id = backend_id, rs_spawned = spawned, rs_status = st, rs_token = token,
       rs_url = connect_url cluster subdomain token, rs_subdomain = subdomain,
       rs_secret_token = secret_token, rs_status_url = status_url backend_id, rs_drone = drone \<rparr>"

fun node_kind_to_string :: "NodeKind \<Rightarrow> string" where
  "node_kind_to_string NodeProxy = ''Proxy''"
| "node_kind_to_string NodeDrone = ''Drone''"
| "node_kind_to_string NodeAcmeDnsServer = ''AcmeDnsServer''"

definition node_kind_try_from :: "string \<Rightarrow> NodeKind option" where
  "node_kind_try_from s =
     find (\<lambda>k. node_kind_to_string k = s) [NodeProxy, NodeDrone, NodeAcmeDnsServer]"

subsection \<open>Errors of the API\<close>

datatype ApiErrorKind =
    AFailedToAcquireKey | AKeyUnheldNoSpawnConfig | AKeyHeldUnhealthy | AKeyHeld
  | ANoDroneAvailable | AFailedToRemoveKey | ADatabaseError | ANoClusterProvided
  | ANotFound | AInvalidClusterName | AOther

subsection \<open>Keys and actions\<close>

record KeyDeadlines =
  kd_renew_at :: time
  kd_soft_terminate_at :: time
  kd_hard_terminate_at :: time

record AcquiredKey =
  ak_key :: KeyConfig
  ak_deadlines :: KeyDeadlines
  ak_token :: int

datatype BackendAction =
    Spawn json AcquiredKey "BearerToken option"
  | Terminate TerminationKind TerminationReason

datatype action_log_value =
    ALKey AcquiredKey | ALToken "BearerToken option" | ALKind TerminationKind | ALReason string

fun visit_action :: "BackendAction \<Rightarrow> (string \<times> action_log_value) list" where
  "visit_action (Spawn _ key static_token) =
     [(''key'', ALKey key), (''static_token'', ALToken static_token)]"
| "visit_action (Terminate kind reason) =
     [(''kind'', ALKind kind), (''reason'', ALReason (reason_as_value reason))]"

fun action_size_hint :: "BackendAction \<Rightarrow> nat \<times> nat option" where
  "action_size_hint (Spawn _ _ _) = (2, Some 2)"
| "action_size_hint (Terminate _ _) = (2, Some 2)"

record BackendActionMessage =
  am_action_id :: BackendActionName
  am_backend_id :: BackendName
  am_drone_id :: NodeId
  am_action :: BackendAction

subsection \<open>Messages between drones and controllers\<close>

record BackendStateMessage =
  sm_event_id :: int
  sm_backend_id :: BackendName
  sm_state :: BackendState
  sm_timestamp :: time

record BackendMetricsMessage =
  mm_backend_id :: BackendName
  mm_mem_used :: "64 word"
  mm_mem_total :: "64 word"
  mm_mem_active :: "64 word"
  mm_mem_inactive :: "64 word"
  mm_mem_unevictable :: "64 word"
  mm_mem_limit :: "64 word"
  mm_cpu_used :: "64 word"
  mm_sys_cpu :: "64 word"

datatype MessageFromDrone =
    DroneHeartbeat time
  | BackendEvent BackendStateMessage
  | BackendMetrics BackendMetricsMessage
  | AckAction BackendActionName
  | RenewKey BackendName time

datatype MessageToDrone =
    Action BackendActionMessage
  | AckEvent int
  | RenewKeyResponse BackendName "KeyDeadlines option"

subsection \<open>Messages between proxies, DNS servers and controllers\<close>

record RouteInfo =
  ri_backend_id :: BackendName
  ri_address :: socket_addr
  ri_secret_token :: SecretToken
  ri_cluster :: ClusterName
  ri_user :: "string option"
  ri_user_data :: "json option"
  ri_subdomain :: "Subdomain option"

datatype CertManagerRequest = CertLeaseRequest | SetTxtRecord string | ReleaseCertLease

datatype CertManagerResponse = CertLeaseResponse bool | SetTxtRecordResponse bool

datatype MessageFromProxy =
    RouteInfoRequest BearerToken
  | KeepAlive BackendName
  | FromCertManager CertManagerRequest

datatype MessageToProxy =
    RouteInfoResponse BearerToken "RouteInfo option"
  | ToCertManager CertManagerResponse
  | BackendRemoved BackendName

datatype MessageFromDns = TxtRecordRequest ClusterName

datatype MessageToDns = TxtRecordResponse ClusterName "string option"

end
