(* ===== verification/Database.thy ===== *)
theory Database
  imports Plane_Types
begin

text \<open>
  The Postgres schema of \<open>plane/schema/migrations\<close> as a record of tables, the errors of SQL
  statements, and the event table with its notifications from \<open>plane/src/database/subscribe.rs\<close>
  (\<open>emit_impl\<close> and its callers). A statement is a function on the record; \<open>now()\<close> is an argument.
  A column that the code stores as JSON or as text of a value holds that value here, with a
  separate case for text that does not decode, so that every decoding error is a branch.

  \<open>db_ok\<close> collects what the schema enforces (primary keys, unique indexes, foreign keys) and what
  the code maintains on top of it.
\<close>

section \<open>Errors of statements\<close>

text \<open>\<open>Panic\<close> stands for a failing \<open>expect\<close>; the other constructors are errors of \<open>sqlx\<close>.\<close>

datatype sql_error =
    RowNotFound
  | Decode string
  | UniqueViolation
  | ForeignKeyViolation
  | Protocol string
  | Panic string

type_synonym 'a sql = "sql_error + 'a"

section \<open>Rows\<close>

record backend_row =
  b_id :: string
  b_cluster :: string
  b_last_status :: string
  b_last_status_time :: time
  b_last_status_number :: "int option"
  b_cluster_address :: "(string + socket_addr) option"
  b_state :: "BackendState option"
  b_drone_id :: NodeId
  b_expiration_time :: "time option"
  b_allowed_idle_seconds :: "int option"
  b_last_keepalive :: time
  b_static_token :: "string option"
  b_subdomain :: "string option"

record key_row =
  k_id :: string
  k_namespace :: string
  k_key_name :: string
  k_tag :: string
  k_expires_at :: time
  k_fencing_token :: int
  k_allow_renew :: bool

record token_row =
  t_token :: string
  t_backend_id :: string
  t_expiration_time :: time
  t_username :: "string option"
  t_auth :: "(string \<times> json) list"
  t_secret_token :: string

record action_row =
  a_id :: string
  a_backend_id :: string
  a_drone_id :: NodeId
  a_action :: "BackendActionMessage option"
  a_created_at :: time
  a_acked_at :: "time option"

record state_row =
  s_id :: int
  s_backend_id :: string
  s_state :: "BackendState option"
  s_created_at :: time

record node_row =
  n_id :: NodeId
  n_kind :: string
  n_name :: string
  n_cluster :: "string option"
  n_plane_version :: string
  n_plane_hash :: string
  n_controller :: "string option"
  n_ip :: string
  n_last_connection_start_time :: "time option"

record drone_row =
  d_id :: NodeId
  d_ready :: bool
  d_draining :: bool
  d_last_heartbeat :: "time option"
  d_last_local_time :: "time option"
  d_pool :: string

record controller_row =
  c_id :: string
  c_first_seen :: time
  c_last_heartbeat :: time
  c_is_online :: bool
  c_plane_version :: string
  c_plane_hash :: string

record acme_row =
  e_cluster :: string
  e_leased_at :: time
  e_leased_by :: NodeId
  e_txt_value :: "string option"

section \<open>Events\<close>

text \<open>The types that implement \<open>NotificationPayload\<close>.\<close>

datatype payload =
    PState BackendState
  | PAction BackendActionMessage
  | PNodeConnection NodeId bool
  | PMetrics BackendMetricsMessage

fun payload_kind :: "payload \<Rightarrow> string" where
  "payload_kind (PState _) = ''backend_state''"
| "payload_kind (PAction _) = ''backend_action''"
| "payload_kind (PNodeConnection _ _) = ''node_connection''"
| "payload_kind (PMetrics _) = ''backend_metrics''"

record Notification =
  nt_id :: "int option"
  nt_timestamp :: time
  nt_kind :: string
  nt_key :: "string option"
  nt_payload :: payload

record event_row =
  ev_id :: int
  ev_kind :: string
  ev_key :: "string option"
  ev_created_at :: time
  ev_data :: payload

definition EVENT_CHANNEL :: string where "EVENT_CHANNEL = ''plane_events''"
definition BACKEND_METRICS_EVENT_CHANNEL :: string where
  "BACKEND_METRICS_EVENT_CHANNEL = ''plane_backend_metrics''"

section \<open>The database\<close>

record db =
  backends :: "backend_row list"
  backend_keys :: "key_row list"
  tokens :: "token_row list"
  backend_actions :: "action_row list"
  backend_states :: "state_row list"
  nodes :: "node_row list"
  drones :: "drone_row list"
  controllers :: "controller_row list"
  acme_txt_entries :: "acme_row list"
  events :: "event_row list"
  notified :: "(string \<times> Notification) list"
  next_event_id :: int
  next_state_id :: int
  next_node_id :: int

definition empty_db :: db where
  "empty_db = \<lparr> backends = [], backend_keys = [], tokens = [], backend_actions = [],
     backend_states = [], nodes = [], drones = [], controllers = [], acme_txt_entries = [],
     events = [], notified = [], next_event_id = 1, next_state_id = 1, next_node_id = 1 \<rparr>"

subsection \<open>Emitting events\<close>

definition emit_impl :: "time \<Rightarrow> string option \<Rightarrow> payload \<Rightarrow> db \<Rightarrow> db" where
  "emit_impl now key payload d =
     (let i = next_event_id d in
      d\<lparr> events := events d @ [\<lparr> ev_id = i, ev_kind = payload_kind payload, ev_key = key,
                                   ev_created_at = now, ev_data = payload \<rparr>],
         next_event_id := i + 1,
         notified := notified d @ [(EVENT_CHANNEL,
            \<lparr> nt_id = Some i, nt_timestamp = now, nt_kind = payload_kind payload,
              nt_key = key, nt_payload = payload \<rparr>)] \<rparr>)"

definition emit :: "time \<Rightarrow> payload \<Rightarrow> db \<Rightarrow> db" where
  "emit now payload d = emit_impl now None payload d"

definition emit_with_key :: "time \<Rightarrow> string \<Rightarrow> payload \<Rightarrow> db \<Rightarrow> db" where
  "emit_with_key now key payload d = emit_impl now (Some key) payload d"

definition emit_backend_metrics :: "time \<Rightarrow> string \<Rightarrow> BackendMetricsMessage \<Rightarrow> db \<Rightarrow> db" where
  "emit_backend_metrics now key metrics d =
     d\<lparr> notified := notified d @ [(BACKEND_METRICS_EVENT_CHANNEL,
          \<lparr> nt_id = None, nt_timestamp = now, nt_kind = payload_kind (PMetrics metrics),
            nt_key = Some key, nt_payload = PMetrics metrics \<rparr>)] \<rparr>"

text \<open>\<open>insert into backend_state\<close>, then the event, as \<open>emit_state_change\<close> of
  \<open>plane/src/database/backend.rs\<close> does.\<close>

definition emit_state_change :: "time \<Rightarrow> BackendName \<Rightarrow> BackendState \<Rightarrow> db \<Rightarrow> db sql" where
  "emit_state_change now backend new_state d =
     (if \<not> exists_row (\<lambda>r. b_id r = backend) (backends d) then Inl ForeignKeyViolation
      else let i = next_state_id d in
        Inr (emit_with_key now backend (PState new_state)
          (d\<lparr> backend_states := backend_states d @
                [\<lparr> s_id = i, s_backend_id = backend, s_state = Some new_state, s_created_at = now \<rparr>],
              next_state_id := i + 1 \<rparr>)))"

section \<open>Invariants\<close>

text \<open>What the schema enforces by itself.\<close>

definition schema_ok :: "db \<Rightarrow> bool" where
  "schema_ok d \<longleftrightarrow>
     unique_on b_id (backends d)
   \<and> unique_on k_id (backend_keys d)
   \<and> unique_on (\<lambda>k. (k_namespace k, k_key_name k)) (backend_keys d)
   \<and> unique_on t_token (tokens d)
   \<and> unique_on a_id (backend_actions d)
   \<and> unique_on n_id (nodes d)
   \<and> unique_on d_id (drones d)
   \<and> unique_on c_id (controllers d)
   \<and> unique_on e_cluster (acme_txt_entries d)
   \<and> (\<forall>k\<in>set (backend_keys d). k_id k \<in> b_id ` set (backends d))
   \<and> (\<forall>t\<in>set (tokens d). t_backend_id t \<in> b_id ` set (backends d))
   \<and> (\<forall>a\<in>set (backend_actions d). a_backend_id a \<in> b_id ` set (backends d))
   \<and> (\<forall>s\<in>set (backend_states d). s_backend_id s \<in> b_id ` set (backends d))
   \<and> (\<forall>b\<in>set (backends d). b_drone_id b \<in> d_id ` set (drones d))
   \<and> (\<forall>r\<in>set (drones d). d_id r \<in> n_id ` set (nodes d))"

text \<open>The four columns of a backend that describe its state agree.\<close>

definition row_consistent :: "backend_row \<Rightarrow> bool" where
  "row_consistent b \<longleftrightarrow> (\<exists>st. b_state b = Some st
     \<and> b_last_status b = status_to_string (status st)
     \<and> b_last_status_number b = Some (status_int st)
     \<and> b_cluster_address b = map_option Inr (address st))"

text \<open>The history of a backend: its decoded states, in the order of their ids.\<close>

definition history :: "db \<Rightarrow> string \<Rightarrow> BackendState list" where
  "history d b = map (\<lambda>r. the (s_state r))
     (filter (\<lambda>r. s_backend_id r = b \<and> s_state r \<noteq> None) (backend_states d))"

text \<open>
  What the code maintains: consistent rows, no key for a terminated backend, a strictly
  increasing history that ends in the current state, and increasing ids.
\<close>

definition terminated_unkeyed :: "db \<Rightarrow> bool" where
  "terminated_unkeyed d \<longleftrightarrow>
     (\<forall>b\<in>set (backends d). b_last_status b = status_to_string StTerminated \<longrightarrow>
        (\<forall>k\<in>set (backend_keys d). k_id k \<noteq> b_id b))"

definition history_ok :: "db \<Rightarrow> bool" where
  "history_ok d \<longleftrightarrow>
     (\<forall>b\<in>set (backends d). sorted_wrt (<) (map status (history d (b_id b)))
        \<and> history d (b_id b) \<noteq> [] \<and> b_state b = Some (last (history d (b_id b))))"

definition ids_ok :: "db \<Rightarrow> bool" where
  "ids_ok d \<longleftrightarrow>
     sorted_wrt (<) (map ev_id (events d)) \<and> (\<forall>e\<in>set (events d). ev_id e < next_event_id d)
   \<and> sorted_wrt (<) (map s_id (backend_states d))
   \<and> (\<forall>s\<in>set (backend_states d). s_id s < next_state_id d)
   \<and> (\<forall>n\<in>set (nodes d). n_id n < next_node_id d)"

definition db_ok :: "db \<Rightarrow> bool" where
  "db_ok d \<longleftrightarrow> schema_ok d \<and> (\<forall>b\<in>set (backends d). row_consistent b)
     \<and> terminated_unkeyed d \<and> history_ok d \<and> ids_ok d"

section \<open>Lemmas\<close>

lemmas emit_defs = emit_def emit_with_key_def emit_impl_def

lemma emit_impl_tables [simp]:
  "backends (emit_impl now key p d) = backends d"
  "backend_keys (emit_impl now key p d) = backend_keys d"
  "tokens (emit_impl now key p d) = tokens d"
  "backend_actions (emit_impl now key p d) = backend_actions d"
  "backend_states (emit_impl now key p d) = backend_states d"
  "nodes (emit_impl now key p d) = nodes d"
  "drones (emit_impl now key p d) = drones d"
  "controllers (emit_impl now key p d) = controllers d"
  "acme_txt_entries (emit_impl now key p d) = acme_txt_entries d"
  "next_state_id (emit_impl now key p d) = next_state_id d"
  "next_node_id (emit_impl now key p d) = next_node_id d"
  by (simp_all add: emit_impl_def Let_def)

lemma schema_ok_emit [db_inv, simp]: "schema_ok (emit_impl now key p d) = schema_ok d"
  by (simp add: schema_ok_def)

lemma history_emit [simp]: "history (emit_impl now key p d) b = history d b"
  by (simp add: history_def)

lemma terminated_unkeyed_emit [simp]:
  "terminated_unkeyed (emit_impl now key p d) = terminated_unkeyed d"
  by (simp add: terminated_unkeyed_def)

lemma history_ok_emit [simp]: "history_ok (emit_impl now key p d) = history_ok d"
  by (simp add: history_ok_def)

lemma ids_ok_emit [db_inv, intro]: "ids_ok d \<Longrightarrow> ids_ok (emit_impl now key p d)"
  by (auto simp: ids_ok_def emit_impl_def Let_def sorted_wrt_append)

lemma db_ok_emit [db_inv, intro]: "db_ok d \<Longrightarrow> db_ok (emit_impl now key p d)"
  by (simp add: db_ok_def ids_ok_emit)

lemma db_ok_empty: "db_ok empty_db"
  by (simp add: db_ok_def schema_ok_def empty_db_def terminated_unkeyed_def history_ok_def ids_ok_def
      unique_on_def)

lemma row_consistent_status:
  "\<lbrakk> row_consistent b; b_state b = Some st \<rbrakk>
     \<Longrightarrow> (b_last_status b = status_to_string x \<longleftrightarrow> status st = x)"
  by (auto simp: row_consistent_def)

end
