(* ===== verification/Db_Keys.thy ===== *)
theory Db_Keys
  imports Database
begin

text \<open>
  Key leases, from \<open>plane/src/database/backend_key.rs\<close>: a row of \<open>backend_key\<close> says which backend
  holds a key of a namespace and until when. The statements renew a lease, forbid its renewal,
  remove it once it is expired, and look it up.

  Two locales state what a lease promises, for any store that grants leases: \<open>exclusive_lease\<close>
  (while a lease is live nobody else is granted it) and its extension \<open>renewable_lease\<close>. Both
  are interpreted where the code provides the operations: on the acme leases in \<open>Db_Nodes\<close> and
  on the key leases in \<open>Connect\<close>.
\<close>

section \<open>Definitions\<close>

definition KEY_LEASE_RENEW_AFTER :: time where "KEY_LEASE_RENEW_AFTER = secs 30"
definition KEY_LEASE_SOFT_TERMINATE_AFTER :: time where "KEY_LEASE_SOFT_TERMINATE_AFTER = secs 40"
definition KEY_LEASE_HARD_TERMINATE_AFTER :: time where "KEY_LEASE_HARD_TERMINATE_AFTER = secs 50"
definition KEY_LEASE_EXPIRATION :: time where "KEY_LEASE_EXPIRATION = secs 60"

definition prevent_renew :: "BackendName \<Rightarrow> db \<Rightarrow> bool \<times> db" where
  "prevent_renew backend d =
     (let P = (\<lambda>k. k_id k = backend \<and> k_allow_renew k)
      in (rows_affected P (backend_keys d) > 0,
          d\<lparr> backend_keys := update_where P (\<lambda>k. k\<lparr> k_allow_renew := False \<rparr>) (backend_keys d) \<rparr>))"

definition remove_key :: "time \<Rightarrow> BackendName \<Rightarrow> db \<Rightarrow> bool \<times> db" where
  "remove_key now backend d =
     (let P = (\<lambda>k. k_id k = backend \<and> k_expires_at k < now)
      in (rows_affected P (backend_keys d) > 0,
          d\<lparr> backend_keys := delete_where P (backend_keys d) \<rparr>))"

definition renew_key :: "time \<Rightarrow> BackendName \<Rightarrow> db \<Rightarrow> db sql" where
  "renew_key now i d =
     (let P = (\<lambda>k. k_id k = i \<and> k_allow_renew k)
      in if rows_affected P (backend_keys d) = 0 then Inl RowNotFound
         else Inr (d\<lparr> backend_keys :=
                update_where P (\<lambda>k. k\<lparr> k_expires_at := now + KEY_LEASE_EXPIRATION \<rparr>)
                  (backend_keys d) \<rparr>))"

record BackendKeyResult =
  bk_id :: BackendName
  bk_tag :: string
  bk_token :: int
  bk_key :: string
  bk_status :: BackendStatus
  bk_cluster :: ClusterName
  bk_subdomain :: "Subdomain option"
  bk_static_connection_token :: "BearerToken option"
  bk_expires_at :: time
  bk_as_of :: time

definition is_live :: "BackendKeyResult \<Rightarrow> bool" where
  "is_live r = (bk_as_of r < bk_expires_at r)"

definition decode_subdomain :: "string option \<Rightarrow> (Subdomain option) sql" where
  "decode_subdomain s = (case s of None \<Rightarrow> Inr None
     | Some x \<Rightarrow> (case subdomain_from_str x of Inl _ \<Rightarrow> Inl (Decode x) | Inr y \<Rightarrow> Inr (Some y)))"

text \<open>The inner columns of the left join are never null, as \<open>backend_key.id\<close> references \<open>backend.id\<close>;
  a missing backend row is the decoding error of its null columns.\<close>

definition check_key ::
  "(string \<Rightarrow> bool) \<Rightarrow> time \<Rightarrow> KeyConfig \<Rightarrow> db \<Rightarrow> (BackendKeyResult option) sql" where
  "check_key host_parse now key d =
     (case find_row (\<lambda>k. k_key_name k = kc_name key \<and> k_namespace k = kc_namespace key)
             (backend_keys d) of
        None \<Rightarrow> Inr None
      | Some k \<Rightarrow>
          (case find_row (\<lambda>b. b_id b = k_id k) (backends d) of
             None \<Rightarrow> Inl (Decode ''unexpected null'')
           | Some b \<Rightarrow>
               bind_result (map_err (\<lambda>_. Decode ''Invalid backend name.'')
                              (name_try_from backend_prefix (k_id k))) (\<lambda>bid.
               bind_result (ok_or (status_try_from (b_last_status b))
                              (Decode ''Invalid backend status.'')) (\<lambda>st.
               bind_result (map_err (\<lambda>_. Decode ''Invalid cluster name.'')
                              (cluster_from_str host_parse (b_cluster b))) (\<lambda>cl.
               bind_result (decode_subdomain (b_subdomain b)) (\<lambda>sd.
                 Inr (Some \<lparr> bk_id = bid, bk_tag = k_tag k, bk_token = k_fencing_token k,
                   bk_key = k_key_name k, bk_status = st, bk_cluster = cl, bk_subdomain = sd,
                   bk_static_connection_token = b_static_token b,
                   bk_expires_at = k_expires_at k, bk_as_of = now \<rparr>)))))))"

section \<open>What a lease promises\<close>

datatype ('k, 'h) lease_event = Acquire time 'k 'h | Release 'k 'h

text \<open>
  \<open>held s k\<close> is the holder of \<open>k\<close> with the time its lease expires. A lease is granted for
  \<open>duration\<close>, is refused while a lease is live, and only its holder releases it.
\<close>

locale exclusive_lease =
  fixes held :: "'s \<Rightarrow> 'k \<Rightarrow> ('h \<times> time) option"
    and acquire :: "time \<Rightarrow> 'k \<Rightarrow> 'h \<Rightarrow> 's \<Rightarrow> bool \<times> 's"
    and release :: "'k \<Rightarrow> 'h \<Rightarrow> 's \<Rightarrow> 's"
    and inv :: "'s \<Rightarrow> bool"
    and duration :: time
  assumes inv_acquire: "inv s \<Longrightarrow> inv (snd (acquire t k h s))"
    and inv_release: "inv s \<Longrightarrow> inv (release k h s)"
    and granted: "\<lbrakk> inv s; fst (acquire t k h s) \<rbrakk>
                    \<Longrightarrow> held (snd (acquire t k h s)) k = Some (h, t + duration)"
    and refused: "\<lbrakk> inv s; \<not> fst (acquire t k h s) \<rbrakk>
                    \<Longrightarrow> held (snd (acquire t k h s)) k = held s k
                      \<or> (\<exists>h' e. held s k = Some (h', e) \<and> e < t)"
    and live_excludes: "\<lbrakk> inv s; held s k = Some (h', e); t \<le> e \<rbrakk> \<Longrightarrow> \<not> fst (acquire t k h s)"
    and acquire_other: "\<lbrakk> inv s; k' \<noteq> k \<rbrakk> \<Longrightarrow> held (snd (acquire t k h s)) k' = held s k'"
    and release_other: "\<lbrakk> inv s; k' \<noteq> k \<or> (\<exists>h' e. held s k = Some (h', e) \<and> h' \<noteq> h) \<rbrakk>
                    \<Longrightarrow> held (release k h s) k' = held s k'"
begin

fun lease_step :: "('k, 'h) lease_event \<Rightarrow> 's \<Rightarrow> 's" where
  "lease_step (Acquire t k h) s = snd (acquire t k h s)"
| "lease_step (Release k h) s = release k h s"

fun quiet :: "'k \<Rightarrow> 'h \<Rightarrow> time \<Rightarrow> ('k, 'h) lease_event \<Rightarrow> bool" where
  "quiet k h e (Acquire t k' h') = (t \<le> e)"
| "quiet k h e (Release k' h') = (k' \<noteq> k \<or> h' \<noteq> h)"

lemma inv_step: "inv s \<Longrightarrow> inv (lease_step ev s)"
  by (cases ev) (simp_all add: inv_acquire inv_release)

lemma inv_run: "inv s \<Longrightarrow> inv (fold lease_step evs s)"
  by (induction evs arbitrary: s) (simp_all add: inv_step)

lemma step_keeps:
  assumes "inv s" and "held s k = Some (h, e)" and "quiet k h e ev"
  shows "held (lease_step ev s) k = Some (h, e)"
proof (cases ev)
  case (Acquire t k' h')
  show ?thesis
  proof (cases "k' = k")
    case True
    then have "\<not> fst (acquire t k h' s)" using assms(3) Acquire live_excludes [OF assms(1,2)] by simp
    from refused [OF assms(1) this] show ?thesis using assms Acquire True by auto
  next
    case False
    then show ?thesis using assms Acquire by (simp add: acquire_other)
  qed
next
  case (Release k' h')
  then show ?thesis using assms by (cases "k' = k") (auto simp: release_other)
qed

text \<open>A live lease survives everything the others try until it expires.\<close>

lemma run_keeps:
  assumes "inv s" and "held s k = Some (h, e)" and "list_all (quiet k h e) evs"
  shows "held (fold lease_step evs s) k = Some (h, e)"
  using assms
proof (induction evs arbitrary: s)
  case (Cons ev evs)
  then have "held (lease_step ev s) k = Some (h, e)" by (auto intro: step_keeps)
  with Cons show ?case by (simp add: inv_step)
qed simp

text \<open>Two grants of one lease are more than its duration apart, unless the first holder let go.\<close>

lemma grants_apart:
  assumes "inv s" and "fst (acquire t1 k h1 s)"
    and "list_all (quiet k h1 (t1 + duration)) evs"
    and "fst (acquire t2 k h2 (fold lease_step evs (snd (acquire t1 k h1 s))))"
  shows "t1 + duration < t2"
proof (rule ccontr)
  let ?s1 = "snd (acquire t1 k h1 s)"
  assume "\<not> t1 + duration < t2"
  moreover have "held (fold lease_step evs ?s1) k = Some (h1, t1 + duration)"
    using assms by (intro run_keeps) (simp_all add: inv_acquire granted)
  ultimately have "\<not> fst (acquire t2 k h2 (fold lease_step evs ?s1))"
    using assms(1) inv_acquire inv_run live_excludes by (metis not_le)
  with assms(4) show False by simp
qed

end

text \<open>A lease its holder can extend.\<close>

locale renewable_lease = exclusive_lease held acquire release inv duration
  for held :: "'s \<Rightarrow> 'k \<Rightarrow> ('h \<times> time) option"
    and acquire :: "time \<Rightarrow> 'k \<Rightarrow> 'h \<Rightarrow> 's \<Rightarrow> bool \<times> 's"
    and release :: "'k \<Rightarrow> 'h \<Rightarrow> 's \<Rightarrow> 's"
    and inv :: "'s \<Rightarrow> bool"
    and duration :: time +
  fixes renew :: "time \<Rightarrow> 'h \<Rightarrow> 's \<Rightarrow> 's option"
  assumes inv_renew: "\<lbrakk> inv s; renew t h s = Some s' \<rbrakk> \<Longrightarrow> inv s'"
    and renewed: "\<lbrakk> inv s; renew t h s = Some s'; held s k = Some (h, e) \<rbrakk>
                    \<Longrightarrow> held s' k = Some (h, t + duration)"
    and renew_other: "\<lbrakk> inv s; renew t h s = Some s'; held s k = Some (h', e); h' \<noteq> h \<rbrakk>
                    \<Longrightarrow> held s' k = held s k"
begin

text \<open>After a renewal at \<open>t\<close> nobody is granted the lease up to \<open>t + duration\<close>.\<close>

lemma renewed_excludes:
  assumes "inv s" and "held s k = Some (h, e)" and "renew t h s = Some s'"
    and "list_all (quiet k h (t + duration)) evs" and "t2 \<le> t + duration"
  shows "\<not> fst (acquire t2 k h2 (fold lease_step evs s'))"
proof -
  have i: "inv s'" using assms(1,3) by (rule inv_renew)
  have "held (fold lease_step evs s') k = Some (h, t + duration)"
    using i renewed [OF assms(1,3,2)] assms(4) by (rule run_keeps)
  then show ?thesis using assms(5) live_excludes [OF inv_run [OF i]] by blast
qed

end

section \<open>Lemmas\<close>

lemmas lease_consts = KEY_LEASE_RENEW_AFTER_def KEY_LEASE_SOFT_TERMINATE_AFTER_def
  KEY_LEASE_HARD_TERMINATE_AFTER_def KEY_LEASE_EXPIRATION_def

lemma schema_ok_keys_update:
  assumes "schema_ok d"
    and "\<And>k. k_id (f k) = k_id k" and "\<And>k. k_namespace (f k) = k_namespace k"
    and "\<And>k. k_key_name (f k) = k_key_name k"
  shows "schema_ok (d\<lparr> backend_keys := update_where P f (backend_keys d) \<rparr>)"
  using assms by (auto simp: schema_ok_def unique_on_update_where set_update_where)

lemma schema_ok_keys_delete:
  "schema_ok d \<Longrightarrow> schema_ok (d\<lparr> backend_keys := delete_where P (backend_keys d) \<rparr>)"
  by (auto simp: schema_ok_def)

lemma keys_frame [simp]:
  "history (d\<lparr> backend_keys := ks \<rparr>) = history d"
  "ids_ok (d\<lparr> backend_keys := ks \<rparr>) = ids_ok d"
  "history_ok (d\<lparr> backend_keys := ks \<rparr>) = history_ok d"
  by (simp_all add: history_def ids_ok_def history_ok_def fun_eq_iff)

lemma db_ok_keys_update:
  assumes "db_ok d"
    and "\<And>k. k_id (f k) = k_id k" and "\<And>k. k_namespace (f k) = k_namespace k"
    and "\<And>k. k_key_name (f k) = k_key_name k"
  shows "db_ok (d\<lparr> backend_keys := update_where P f (backend_keys d) \<rparr>)"
  using assms schema_ok_keys_update [of d f P]
  by (auto simp: db_ok_def terminated_unkeyed_def set_update_where)

lemma db_ok_keys_delete:
  "db_ok d \<Longrightarrow> db_ok (d\<lparr> backend_keys := delete_where P (backend_keys d) \<rparr>)"
  using schema_ok_keys_delete [of d P] by (auto simp: db_ok_def terminated_unkeyed_def)

lemma db_ok_prevent_renew: "db_ok d \<Longrightarrow> db_ok (snd (prevent_renew b d))"
  by (simp add: prevent_renew_def Let_def db_ok_keys_update)

lemma db_ok_remove_key: "db_ok d \<Longrightarrow> db_ok (snd (remove_key now b d))"
  by (simp add: remove_key_def Let_def db_ok_keys_delete)

lemma db_ok_renew_key: "\<lbrakk> db_ok d; renew_key now b d = Inr d' \<rbrakk> \<Longrightarrow> db_ok d'"
  by (auto simp: renew_key_def Let_def db_ok_keys_update split: if_splits)

text \<open>A lease that renewal was forbidden for is never extended again.\<close>

lemma prevent_then_renew:
  "renew_key now b (snd (prevent_renew b d)) = Inl RowNotFound"
  by (simp add: renew_key_def prevent_renew_def Let_def rows_affected_def update_where_def
      filter_empty_conv)

end
