(* ===== verification/Db_Nodes.thy ===== *)
theory Db_Nodes
  imports Db_Keys
begin

text \<open>
  Nodes, drones, controllers and acme leases: \<open>plane/src/database/node.rs\<close>, \<open>drone.rs\<close>,
  \<open>controller.rs\<close>, \<open>cluster.rs\<close>, \<open>acme.rs\<close> and the constants of \<open>plane/src/heartbeat_consts.rs\<close>.
  The random order in which Postgres returns the candidates of a spawn is the parameter \<open>shuffle\<close>
  of \<open>pick_drone_for_spawn\<close>; what the properties use of it is that it permutes its argument.
\<close>

section \<open>Heartbeat constants\<close>

definition HEARTBEAT_INTERVAL :: time where "HEARTBEAT_INTERVAL = secs 7"
definition UNHEALTHY_SECONDS :: int where "UNHEALTHY_SECONDS = 45"
definition SOFT_TERMINATE_DEADLINE_SECONDS :: int where "SOFT_TERMINATE_DEADLINE_SECONDS = 60"
definition KILL_AFTER_SOFT_TERMINATE_SECONDS :: int where "KILL_AFTER_SOFT_TERMINATE_SECONDS = 30"
definition HARD_TERMINATE_DEADLINE_SECONDS :: int where
  "HARD_TERMINATE_DEADLINE_SECONDS = SOFT_TERMINATE_DEADLINE_SECONDS + KILL_AFTER_SOFT_TERMINATE_SECONDS"
definition ASSUME_LOST_SECONDS :: int where "ASSUME_LOST_SECONDS = 120"

section \<open>Nodes\<close>

definition get_id :: "ClusterName \<Rightarrow> string \<Rightarrow> db \<Rightarrow> NodeId option" where
  "get_id cluster name d =
     map_option n_id (find_row (\<lambda>n. n_cluster n = Some cluster \<and> n_name n = name) (nodes d))"

record PlaneVersionInfo =
  pv_version :: string
  pv_git_hash :: string

text \<open>Two rows conflict on the index over \<open>(cluster, name)\<close> only when the cluster is not null. The
  sequence behind the serial id advances on every attempt to insert.\<close>

definition register ::
  "time \<Rightarrow> ClusterName option \<Rightarrow> AnyNodeName \<Rightarrow> NodeKind \<Rightarrow> ControllerName \<Rightarrow> PlaneVersionInfo
     \<Rightarrow> string \<Rightarrow> db \<Rightarrow> ((NodeId \<times> time) \<times> db) sql" where
  "register now cluster name kind controller version ip d =
     (if \<not> exists_row (\<lambda>c. c_id c = controller) (controllers d) then Inl ForeignKeyViolation
      else
        let conflict = (\<lambda>n. cluster \<noteq> None \<and> n_cluster n = cluster \<and> n_name n = any_to_string name);
            upd = (\<lambda>n. n\<lparr> n_controller := Some controller, n_plane_version := pv_version version,
                          n_plane_hash := pv_git_hash version, n_ip := ip,
                          n_last_connection_start_time := Some now \<rparr>);
            (nid, d1) =
              (case find_row conflict (nodes d) of
                 Some n \<Rightarrow> (n_id n, d\<lparr> nodes := update_where conflict upd (nodes d) \<rparr>)
               | None \<Rightarrow> (next_node_id d,
                   d\<lparr> nodes := nodes d @ [\<lparr> n_id = next_node_id d, n_kind = node_kind_to_string kind,
                        n_name = any_to_string name, n_cluster = cluster,
                        n_plane_version = pv_version version, n_plane_hash = pv_git_hash version,
                        n_controller = Some controller, n_ip = ip,
                        n_last_connection_start_time = Some now \<rparr>] \<rparr>));
            d2 = d1\<lparr> next_node_id := next_node_id d + 1 \<rparr>
        in Inr ((nid, now), emit now (PNodeConnection nid True) d2))"

definition mark_offline :: "time \<Rightarrow> NodeId \<Rightarrow> ControllerName \<Rightarrow> time \<Rightarrow> db \<Rightarrow> db" where
  "mark_offline now node_id controller connection_start_time d =
     (let d1 = emit now (PNodeConnection node_id False) d in
      d1\<lparr> nodes := update_where
             (\<lambda>n. n_id n = node_id \<and> n_controller n = Some controller
                \<and> n_last_connection_start_time n = Some connection_start_time)
             (\<lambda>n. n\<lparr> n_controller := None \<rparr>) (nodes d1) \<rparr>)"

record NodeRow =
  nr_id :: NodeId
  nr_cluster :: "ClusterName option"
  nr_kind :: NodeKind
  nr_controller :: "ControllerName option"
  nr_name :: AnyNodeName
  nr_plane_version :: string
  nr_plane_hash :: string

definition node_active :: "NodeRow \<Rightarrow> bool" where
  "node_active r = (nr_controller r \<noteq> None)"

text \<open>The \<open>case when controller.is_online and controller.last_heartbeat - now() < $1\<close> column.\<close>

definition online_controller :: "time \<Rightarrow> node_row \<Rightarrow> db \<Rightarrow> string option" where
  "online_controller now n d =
     (case n_controller n of None \<Rightarrow> None
      | Some cid \<Rightarrow> (case find_row (\<lambda>c. c_id c = cid) (controllers d) of None \<Rightarrow> None
          | Some c \<Rightarrow> if c_is_online c \<and> c_last_heartbeat c - now < secs UNHEALTHY_SECONDS
                      then Some (c_id c) else None))"

definition decode_option :: "('a \<Rightarrow> 'b sql) \<Rightarrow> 'a option \<Rightarrow> ('b option) sql" where
  "decode_option f x =
     (case x of None \<Rightarrow> Inr None | Some v \<Rightarrow> bind_result (f v) (\<lambda>y. Inr (Some y)))"

definition decode_node_row :: "(string \<Rightarrow> bool) \<Rightarrow> time \<Rightarrow> db \<Rightarrow> node_row \<Rightarrow> NodeRow sql" where
  "decode_node_row host_parse now d n =
     bind_result (decode_option (\<lambda>s. map_err (\<lambda>_. Decode ''Failed to decode cluster name.'')
                    (cluster_from_str host_parse s)) (n_cluster n)) (\<lambda>cl.
     bind_result (ok_or (node_kind_try_from (n_kind n)) (Decode ''kind'')) (\<lambda>kind.
     bind_result (decode_option (\<lambda>s. map_err (\<lambda>_. Decode ''Failed to decode controller name.'')
                    (name_try_from controller_prefix s)) (online_controller now n d)) (\<lambda>ctrl.
     bind_result (map_err (\<lambda>_. Decode ''Failed to decode node name.'') (any_try_from (n_name n))) (\<lambda>nm.
       Inr \<lparr> nr_id = n_id n, nr_cluster = cl, nr_kind = kind, nr_controller = ctrl, nr_name = nm,
             nr_plane_version = n_plane_version n, nr_plane_hash = n_plane_hash n \<rparr>))))"

definition get_by_id :: "(string \<Rightarrow> bool) \<Rightarrow> time \<Rightarrow> NodeId \<Rightarrow> db \<Rightarrow> (NodeRow option) sql" where
  "get_by_id host_parse now node_id d =
     (case find_row (\<lambda>n. n_id n = node_id) (nodes d) of
        None \<Rightarrow> Inr None
      | Some n \<Rightarrow> bind_result (decode_node_row host_parse now d n) (\<lambda>r. Inr (Some r)))"

text \<open>A loop that pushes decoded rows and stops at the first error.\<close>

fun decode_all :: "('a \<Rightarrow> 'e + 'b) \<Rightarrow> 'a list \<Rightarrow> 'e + 'b list" where
  "decode_all f [] = Inr []"
| "decode_all f (x # xs) = bind_result (f x) (\<lambda>y. bind_result (decode_all f xs) (\<lambda>ys. Inr (y # ys)))"

definition list_nodes :: "(string \<Rightarrow> bool) \<Rightarrow> time \<Rightarrow> db \<Rightarrow> (NodeRow list) sql" where
  "list_nodes host_parse now d = decode_all (decode_node_row host_parse now d) (nodes d)"

section \<open>Drones\<close>

definition register_drone :: "NodeId \<Rightarrow> bool \<Rightarrow> DronePoolName \<Rightarrow> db \<Rightarrow> db sql" where
  "register_drone i ready pool d =
     (if exists_row (\<lambda>r. d_id r = i) (drones d)
      then Inr (d\<lparr> drones := update_where (\<lambda>r. d_id r = i) (\<lambda>r. r\<lparr> d_ready := ready \<rparr>) (drones d) \<rparr>)
      else if \<not> exists_row (\<lambda>n. n_id n = i) (nodes d) then Inl ForeignKeyViolation
      else Inr (d\<lparr> drones := drones d @ [\<lparr> d_id = i, d_ready = ready, d_draining = False,
             d_last_heartbeat = None, d_last_local_time = None, d_pool = pool \<rparr>] \<rparr>))"

text \<open>The subselect of the \<open>returning\<close> clause reads the row as it was before the update.\<close>

definition drain :: "NodeId \<Rightarrow> db \<Rightarrow> (bool \<times> db) sql" where
  "drain i d =
     (case find_row (\<lambda>r. d_id r = i) (drones d) of
        None \<Rightarrow> Inl RowNotFound
      | Some r \<Rightarrow> Inr (\<not> d_draining r,
          d\<lparr> drones := update_where (\<lambda>r. d_id r = i) (\<lambda>r. r\<lparr> d_draining := True \<rparr>) (drones d) \<rparr>))"

definition drone_heartbeat :: "time \<Rightarrow> NodeId \<Rightarrow> time \<Rightarrow> db \<Rightarrow> db" where
  "drone_heartbeat now i local_time d =
     d\<lparr> drones := update_where (\<lambda>r. d_id r = i)
          (\<lambda>r. r\<lparr> d_last_heartbeat := Some now, d_last_local_time := Some local_time \<rparr>) (drones d) \<rparr>"

definition get_drone_pool :: "NodeId \<Rightarrow> db \<Rightarrow> DronePoolName sql" where
  "get_drone_pool i d =
     (case find_row (\<lambda>r. d_id r = i) (drones d) of None \<Rightarrow> Inl RowNotFound | Some r \<Rightarrow> Inr (d_pool r))"

text \<open>Durations of \<open>std::time\<close> in nanoseconds, rounded up to microseconds.\<close>

definition round_up_micros :: "nat \<Rightarrow> nat" where
  "round_up_micros seen_in_last =
     (let subsec_nanos = seen_in_last mod 1000000000 in
      if subsec_nanos mod 1000 = 0 then seen_in_last
      else seen_in_last div 1000000000 * 1000000000 + (subsec_nanos div 1000 + 1) * 1000)"

record DroneWithMetadata =
  dm_id :: NodeId
  dm_name :: DroneName
  dm_ready :: bool
  dm_draining :: bool
  dm_last_heartbeat :: time
  dm_last_local_time :: time
  dm_pool :: DronePoolName
  dm_cluster :: ClusterName
  dm_plane_version :: string
  dm_plane_hash :: string
  dm_controller :: "ControllerName option"
  dm_last_connection_start_time :: time

definition node_drone_join :: "db \<Rightarrow> (node_row \<times> drone_row) list" where
  "node_drone_join d = concat (map (\<lambda>n. map (Pair n) (filter (\<lambda>r. d_id r = n_id n) (drones d))) (nodes d))"

definition expect_name :: "string option \<Rightarrow> string \<Rightarrow> string \<Rightarrow> string sql" where
  "expect_name pre msg s = map_err (\<lambda>_. Panic msg) (name_try_from pre s)"

definition drone_metadata :: "(string \<Rightarrow> bool) \<Rightarrow> node_row \<times> drone_row \<Rightarrow> DroneWithMetadata sql" where
  "drone_metadata host_parse = (\<lambda>(n, r).
     bind_result (expect_name drone_prefix ''valid drone name'' (n_name n)) (\<lambda>name.
     bind_result (map_err (\<lambda>_. Panic ''valid cluster name'')
                    (cluster_from_str host_parse (the (n_cluster n)))) (\<lambda>cl.
     bind_result (decode_option (expect_name controller_prefix ''valid controller name'')
                    (n_controller n)) (\<lambda>ctrl.
       Inr \<lparr> dm_id = d_id r, dm_name = name, dm_ready = d_ready r, dm_draining = d_draining r,
             dm_last_heartbeat = the (d_last_heartbeat r),
             dm_last_local_time = the (d_last_local_time r), dm_pool = d_pool r, dm_cluster = cl,
             dm_plane_version = n_plane_version n, dm_plane_hash = n_plane_hash n,
             dm_controller = ctrl,
             dm_last_connection_start_time = the (n_last_connection_start_time n) \<rparr>))))"

definition seen_in_pool :: "time \<Rightarrow> ClusterName \<Rightarrow> DronePoolName \<Rightarrow> time \<Rightarrow> node_row \<times> drone_row \<Rightarrow> bool" where
  "seen_in_pool now cluster pool seen = (\<lambda>(n, r).
     n_cluster n = Some cluster
     \<and> (case d_last_heartbeat r of Some h \<Rightarrow> now - h < seen | None \<Rightarrow> False)
     \<and> d_pool r = pool \<and> d_last_local_time r \<noteq> None \<and> n_last_connection_start_time n \<noteq> None)"

definition get_drones_for_pool ::
  "(string \<Rightarrow> bool) \<Rightarrow> time \<Rightarrow> ClusterName \<Rightarrow> DronePoolName \<Rightarrow> nat \<Rightarrow> db
     \<Rightarrow> (DroneWithMetadata list) sql" where
  "get_drones_for_pool host_parse now cluster pool seen_in_last d =
     (let micros = round_up_micros seen_in_last div 1000 in
      if micros \<ge> 2 ^ 63 then Inl (Protocol ''invalid interval'')
      else decode_all (drone_metadata host_parse)
             (take 100 (sort_key (\<lambda>(n, r). - d_id r)
                (filter (seen_in_pool now cluster pool (int micros)) (node_drone_join d)))))"

record DroneForSpawn =
  ds_id :: NodeId
  ds_drone :: DroneName
  ds_last_local_time :: time

definition backend_count :: "NodeId \<Rightarrow> db \<Rightarrow> nat" where
  "backend_count drone d = rows_affected (\<lambda>b. b_drone_id b = drone
     \<and> b_last_status b \<noteq> status_to_string StTerminated) (backends d)"

definition spawn_eligible ::
  "time \<Rightarrow> ClusterName \<Rightarrow> DronePoolName \<Rightarrow> db \<Rightarrow> node_row \<times> drone_row \<Rightarrow> bool" where
  "spawn_eligible now cluster pool d = (\<lambda>(n, r).
     d_ready r
     \<and> (case n_controller n of None \<Rightarrow> False
        | Some cid \<Rightarrow> (case find_row (\<lambda>c. c_id c = cid) (controllers d) of None \<Rightarrow> False
            | Some c \<Rightarrow> now - c_last_heartbeat c < secs UNHEALTHY_SECONDS \<and> c_is_online c))
     \<and> n_cluster n = Some cluster
     \<and> (case d_last_heartbeat r of Some h \<Rightarrow> now - h < secs UNHEALTHY_SECONDS | None \<Rightarrow> False)
     \<and> \<not> d_draining r \<and> d_last_local_time r \<noteq> None \<and> d_pool r = pool)"

text \<open>\<open>Iterator::min_by_key\<close> returns the first of several minimal elements.\<close>

fun min_by_key :: "('a \<Rightarrow> 'k::linorder) \<Rightarrow> 'a list \<Rightarrow> 'a option" where
  "min_by_key f [] = None"
| "min_by_key f (x # xs) = (case min_by_key f xs of None \<Rightarrow> Some x
     | Some y \<Rightarrow> if f x \<le> f y then Some x else Some y)"

definition pick_drone_for_spawn ::
  "((node_row \<times> drone_row) list \<Rightarrow> (node_row \<times> drone_row) list) \<Rightarrow> time \<Rightarrow> ClusterName
     \<Rightarrow> DronePoolName \<Rightarrow> int \<Rightarrow> db \<Rightarrow> (DroneForSpawn option) sql" where
  "pick_drone_for_spawn shuffle now cluster pool best_of d =
     (if best_of < 0 then Inl (Protocol ''LIMIT must not be negative'')
      else
        let result = take (nat best_of)
              (shuffle (filter (spawn_eligible now cluster pool d) (node_drone_join d)))
        in case min_by_key (\<lambda>(n, r). backend_count (n_id n) d) result of
             None \<Rightarrow> Inr None
           | Some (n, r) \<Rightarrow>
               bind_result (expect_name drone_prefix ''valid drone name'' (n_name n)) (\<lambda>name.
                 Inr (Some \<lparr> ds_id = d_id r, ds_drone = name,
                             ds_last_local_time = the (d_last_local_time r) \<rparr>)))"

section \<open>Controllers\<close>

text \<open>The address of the controller, which only the database sees, is not modelled.\<close>

definition controller_heartbeat ::
  "time \<Rightarrow> string \<Rightarrow> string \<Rightarrow> ControllerName \<Rightarrow> bool \<Rightarrow> db \<Rightarrow> db" where
  "controller_heartbeat now version hash name is_online d =
     (if exists_row (\<lambda>c. c_id c = name) (controllers d)
      then d\<lparr> controllers := update_where (\<lambda>c. c_id c = name)
             (\<lambda>c. c\<lparr> c_is_online := is_online, c_plane_version := version, c_plane_hash := hash,
                     c_last_heartbeat := now \<rparr>) (controllers d) \<rparr>
      else d\<lparr> controllers := controllers d @ [\<lparr> c_id = name, c_first_seen = now,
             c_last_heartbeat = now, c_is_online = is_online, c_plane_version = version,
             c_plane_hash = hash \<rparr>] \<rparr>)"

record Controller =
  co_id :: ControllerName
  co_is_online :: bool
  co_plane_version :: string
  co_plane_hash :: string
  co_first_seen :: time
  co_last_heartbeat :: time
  co_as_of :: time

definition online_controllers :: "time \<Rightarrow> db \<Rightarrow> (Controller list) sql" where
  "online_controllers now d =
     decode_all (\<lambda>c. bind_result (map_err (\<lambda>_. Decode ''Failed to decode controller name.'')
          (name_try_from controller_prefix (c_id c))) (\<lambda>i.
          Inr \<lparr> co_id = i, co_is_online = c_is_online c, co_plane_version = c_plane_version c,
                co_plane_hash = c_plane_hash c, co_first_seen = c_first_seen c,
                co_last_heartbeat = c_last_heartbeat c, co_as_of = now \<rparr>))
       (filter c_is_online (controllers d))"

section \<open>The state of a cluster\<close>

record NodeState =
  ns_name :: AnyNodeName
  ns_plane_version :: string
  ns_plane_hash :: string
  ns_controller :: ControllerName
  ns_controller_heartbeat_age :: time

record DroneState =
  dn_ready :: bool
  dn_draining :: bool
  dn_last_heartbeat_age :: time
  dn_backend_count :: nat
  dn_node :: NodeState

record ClusterState =
  cs_drones :: "DroneState list"
  cs_proxies :: "NodeState list"

definition node_state :: "time \<Rightarrow> controller_row \<Rightarrow> node_row \<Rightarrow> NodeState sql" where
  "node_state now c n =
     bind_result (map_err (\<lambda>_. Decode ''Failed to decode node name.'') (any_try_from (n_name n))) (\<lambda>nm.
     bind_result (map_err (\<lambda>_. Decode ''Failed to decode controller name.'')
                    (name_try_from controller_prefix (the (n_controller n)))) (\<lambda>ctrl.
       Inr \<lparr> ns_name = nm, ns_plane_version = n_plane_version n, ns_plane_hash = n_plane_hash n,
             ns_controller = ctrl, ns_controller_heartbeat_age = now - c_last_heartbeat c \<rparr>))"

definition drone_state :: "time \<Rightarrow> db \<Rightarrow> node_row \<Rightarrow> NodeState \<Rightarrow> DroneState sql" where
  "drone_state now d n ns =
     (case find_row (\<lambda>r. d_id r = n_id n) (drones d) of
        None \<Rightarrow> Inl (Decode ''Drone should have ready column.'')
      | Some r \<Rightarrow>
          bind_result (ok_or (d_last_heartbeat r) (Decode ''Drone should have last_heartbeat column.'')) (\<lambda>h.
            Inr \<lparr> dn_ready = d_ready r, dn_draining = d_draining r, dn_last_heartbeat_age = now - h,
                  dn_backend_count = backend_count (d_id r) d, dn_node = ns \<rparr>))"

fun push_nodes :: "time \<Rightarrow> db \<Rightarrow> node_row list \<Rightarrow> ClusterState \<Rightarrow> ClusterState sql" where
  "push_nodes now d [] cs = Inr cs"
| "push_nodes now d (n # rest) cs =
     (case find_row (\<lambda>c. n_controller n = Some (c_id c)) (controllers d) of
        None \<Rightarrow> Inl (Decode ''unexpected null'')
      | Some c \<Rightarrow>
          bind_result (node_state now c n) (\<lambda>ns.
          if n_kind n = ''Drone'' then
            bind_result (drone_state now d n ns) (\<lambda>ds.
              push_nodes now d rest (cs\<lparr> cs_drones := cs_drones cs @ [ds] \<rparr>))
          else if n_kind n = ''Proxy'' then
            push_nodes now d rest (cs\<lparr> cs_proxies := cs_proxies cs @ [ns] \<rparr>)
          else push_nodes now d rest cs))"

definition cluster_state :: "time \<Rightarrow> ClusterName \<Rightarrow> db \<Rightarrow> ClusterState sql" where
  "cluster_state now cluster d =
     push_nodes now d
       (sort_key n_id (filter (\<lambda>n. n_cluster n = Some cluster \<and> n_controller n \<noteq> None) (nodes d)))
       \<lparr> cs_drones = [], cs_proxies = [] \<rparr>"

section \<open>Acme leases\<close>

definition ACME_LEASE :: time where "ACME_LEASE = secs 60"

definition lease_cluster_dns :: "time \<Rightarrow> ClusterName \<Rightarrow> NodeId \<Rightarrow> db \<Rightarrow> (bool \<times> db) sql" where
  "lease_cluster_dns now cluster proxy d =
     (if \<not> exists_row (\<lambda>n. n_id n = proxy) (nodes d) then Inl ForeignKeyViolation
      else if exists_row (\<lambda>e. e_cluster e = cluster) (acme_txt_entries d)
      then let P = (\<lambda>e. e_cluster e = cluster \<and> e_leased_at e + ACME_LEASE < now)
           in Inr (rows_affected P (acme_txt_entries d) = 1,
                   d\<lparr> acme_txt_entries := update_where P
                        (\<lambda>e. e\<lparr> e_leased_at := now, e_leased_by := proxy \<rparr>) (acme_txt_entries d) \<rparr>)
      else Inr (True, d\<lparr> acme_txt_entries := acme_txt_entries d @
             [\<lparr> e_cluster = cluster, e_leased_at = now, e_leased_by = proxy, e_txt_value = None \<rparr>] \<rparr>))"

definition set_cluster_dns :: "ClusterName \<Rightarrow> NodeId \<Rightarrow> string \<Rightarrow> db \<Rightarrow> bool \<times> db" where
  "set_cluster_dns cluster proxy txt_value d =
     (let P = (\<lambda>e. e_cluster e = cluster \<and> e_leased_by e = proxy)
      in (rows_affected P (acme_txt_entries d) = 1,
          d\<lparr> acme_txt_entries := update_where P (\<lambda>e. e\<lparr> e_txt_value := Some txt_value \<rparr>)
               (acme_txt_entries d) \<rparr>))"

definition txt_record_for_cluster :: "ClusterName \<Rightarrow> db \<Rightarrow> string option" where
  "txt_record_for_cluster cluster d =
     Option.bind (find_row (\<lambda>e. e_cluster e = cluster) (acme_txt_entries d)) e_txt_value"

definition release_cluster_lease :: "ClusterName \<Rightarrow> NodeId \<Rightarrow> db \<Rightarrow> db" where
  "release_cluster_lease cluster proxy d =
     d\<lparr> acme_txt_entries := delete_where (\<lambda>e. e_cluster e = cluster \<and> e_leased_by e = proxy)
          (acme_txt_entries d) \<rparr>"

text \<open>The acme lease as the store of a lease: its holder and its end.\<close>

definition acme_held :: "db \<Rightarrow> ClusterName \<Rightarrow> (NodeId \<times> time) option" where
  "acme_held d cluster = map_option (\<lambda>e. (e_leased_by e, e_leased_at e + ACME_LEASE))
     (find_row (\<lambda>e. e_cluster e = cluster) (acme_txt_entries d))"

definition acme_acquire :: "time \<Rightarrow> ClusterName \<Rightarrow> NodeId \<Rightarrow> db \<Rightarrow> bool \<times> db" where
  "acme_acquire now cluster proxy d =
     (case lease_cluster_dns now cluster proxy d of Inl _ \<Rightarrow> (False, d) | Inr r \<Rightarrow> r)"

definition acme_ok :: "db \<Rightarrow> bool" where
  "acme_ok d = unique_on e_cluster (acme_txt_entries d)"

section \<open>Lemmas on selections\<close>

lemma min_by_key_None_iff: "min_by_key f xs = None \<longleftrightarrow> xs = []"
  by (cases xs) (auto split: option.splits)

lemma min_by_key_SomeD:
  "min_by_key f xs = Some x \<Longrightarrow> x \<in> set xs \<and> (\<forall>y\<in>set xs. f x \<le> f y)"
proof (induction xs arbitrary: x)
  case (Cons a xs)
  show ?case
  proof (cases "min_by_key f xs")
    case None
    then show ?thesis using Cons.prems by (simp add: min_by_key_None_iff)
  next
    case (Some y)
    with Cons.IH [of y] Cons.prems show ?thesis by (auto split: if_splits)
  qed
qed simp

lemma ceil_thousand: "(r + 999) div 1000 = (if r mod 1000 = 0 then r div 1000 else r div 1000 + 1)"
  for r :: nat
proof -
  define a b where "a = r div 1000" and "b = r mod 1000"
  have r: "r = 1000 * a + b" "b < 1000" by (simp_all add: a_def b_def)
  have "(r + 999) div 1000 = a + (b + 999) div 1000" using r by simp
  moreover have "(b + 999) div 1000 = (if b = 0 then 0 else 1)" using r(2) by auto
  ultimately show ?thesis by (simp add: a_def b_def)
qed

lemma round_up_micros_correct: "round_up_micros n = (n + 999) div 1000 * 1000"
proof -
  define q r where "q = n div 1000000000" and "r = n mod 1000000000"
  have n: "n = q * 1000000000 + r" by (simp add: q_def r_def)
  have m: "(n + 999) div 1000 = q * 1000000 + (r + 999) div 1000" 
  proof -
    have "n + 999 = (q * 1000000) * 1000 + (r + 999)" using n by linarith
    then show ?thesis by (simp only: div_mult_self3)
  qed
  have "round_up_micros n = (if r mod 1000 = 0 then n else q * 1000000000 + (r div 1000 + 1) * 1000)"
    by (simp add: round_up_micros_def q_def r_def Let_def)
  moreover have "r mod 1000 = 0 \<Longrightarrow> r div 1000 * 1000 = r" using div_mult_mod_eq [of r 1000] by linarith
  ultimately show ?thesis unfolding m ceil_thousand [of r] using n by (cases "r mod 1000 = 0") (simp_all add: add_mult_distrib)
qed

lemma set_node_drone_join:
  "(n, r) \<in> set (node_drone_join d) \<longleftrightarrow> n \<in> set (nodes d) \<and> r \<in> set (drones d) \<and> d_id r = n_id n"
  by (auto simp: node_drone_join_def)

lemma decode_all_Inr:
  "decode_all f xs = Inr ys \<longleftrightarrow> length ys = length xs \<and> (\<forall>i<length xs. f (xs ! i) = Inr (ys ! i))"
proof (induction xs arbitrary: ys)
  case Nil
  then show ?case by auto
next
  case (Cons x xs)
  show ?case
  proof (cases ys)
    case Nil
    then show ?thesis by (auto simp: bind_result_Inr_iff)
  next
    case (Cons y ys')
    then show ?thesis using Cons.IH [of ys']
      by (auto simp: bind_result_Inr_iff less_Suc_eq_0_disj)
  qed
qed

section \<open>Lemmas on acme leases\<close>

lemma acme_acquire_cases:
  "acme_acquire now c p d =
     (if \<not> exists_row (\<lambda>n. n_id n = p) (nodes d) then (False, d)
      else if find_row (\<lambda>e. e_cluster e = c) (acme_txt_entries d) = None
      then (True, d\<lparr> acme_txt_entries := acme_txt_entries d @
             [\<lparr> e_cluster = c, e_leased_at = now, e_leased_by = p, e_txt_value = None \<rparr>] \<rparr>)
      else (rows_affected (\<lambda>e. e_cluster e = c \<and> e_leased_at e + ACME_LEASE < now)
              (acme_txt_entries d) = 1,
            d\<lparr> acme_txt_entries := update_where (\<lambda>e. e_cluster e = c \<and> e_leased_at e + ACME_LEASE < now)
                 (\<lambda>e. e\<lparr> e_leased_at := now, e_leased_by := p \<rparr>) (acme_txt_entries d) \<rparr>))"
  by (auto simp: acme_acquire_def lease_cluster_dns_def Let_def exists_row_iff find_row_None_iff)

lemma acme_held_append:
  "acme_held (d\<lparr> acme_txt_entries := acme_txt_entries d @ [e] \<rparr>) c =
     (if find_row (\<lambda>e. e_cluster e = c) (acme_txt_entries d) = None \<and> e_cluster e = c
      then Some (e_leased_by e, e_leased_at e + ACME_LEASE) else acme_held d c)"
  by (auto simp: acme_held_def find_row_append split: option.splits)

lemma acme_held_update:
  "acme_held (d\<lparr> acme_txt_entries := update_where (\<lambda>e. e_cluster e = c \<and> Q e)
       (\<lambda>e. e\<lparr> e_leased_at := t, e_leased_by := p \<rparr>) (acme_txt_entries d) \<rparr>) c'
   = (if c' = c \<and> (\<exists>e. find_row (\<lambda>e. e_cluster e = c) (acme_txt_entries d) = Some e \<and> Q e)
      then Some (p, t + ACME_LEASE) else acme_held d c')"
  by (cases "c' = c"; cases "find_row (\<lambda>e. e_cluster e = c) (acme_txt_entries d)")
     (auto simp: acme_held_def find_row_update_cond find_row_update_cond_other)

lemma acme_held_release:
  assumes "acme_ok d"
  shows "acme_held (release_cluster_lease c p d) c' =
    (if c' = c \<and> (\<exists>e. acme_held d c = Some (p, e)) then None else acme_held d c')"
  using assms
  by (cases "c' = c"; cases "find_row (\<lambda>e. e_cluster e = c) (acme_txt_entries d)")
     (auto simp: acme_held_def release_cluster_lease_def acme_ok_def find_row_delete_cond
        find_row_delete_cond_other)

lemma acme_ok_acquire: "acme_ok d \<Longrightarrow> acme_ok (snd (acme_acquire t c p d))"
  by (auto simp: acme_ok_def acme_acquire_cases unique_on_update_where unique_on_append1
      exists_row_iff find_row_None_iff)

lemma acme_ok_release: "acme_ok d \<Longrightarrow> acme_ok (release_cluster_lease c p d)"
  by (auto simp: acme_ok_def release_cluster_lease_def)

lemma acme_acquire_granted:
  assumes "acme_ok d"
  shows "fst (acme_acquire t c p d) \<longleftrightarrow> exists_row (\<lambda>n. n_id n = p) (nodes d)
     \<and> (\<forall>h e. acme_held d c = Some (h, e) \<longrightarrow> e < t)"
  using rows_affected_unique_iff [of e_cluster "acme_txt_entries d" c
      "\<lambda>e. e_leased_at e + ACME_LEASE < t"] assms
  by (cases "find_row (\<lambda>e. e_cluster e = c) (acme_txt_entries d)")
     (auto simp: acme_acquire_cases acme_held_def acme_ok_def)

lemma acme_held_acquire:
  assumes "acme_ok d"
  shows "acme_held (snd (acme_acquire t c p d)) c' =
    (if c' = c \<and> fst (acme_acquire t c p d) then Some (p, t + ACME_LEASE) else acme_held d c')"
  using rows_affected_unique_iff [of e_cluster "acme_txt_entries d" c
      "\<lambda>e. e_leased_at e + ACME_LEASE < t"] assms
  by (auto simp: acme_acquire_cases acme_held_update acme_held_append acme_ok_def)

interpretation acme: exclusive_lease acme_held acme_acquire release_cluster_lease acme_ok ACME_LEASE
  by unfold_locales
     (auto simp: acme_ok_acquire acme_ok_release acme_held_acquire acme_acquire_granted acme_held_release)

section \<open>Traces of drone and acme statements\<close>

fun acme_step :: "(ClusterName, NodeId) lease_event \<Rightarrow> db \<Rightarrow> db" where
  "acme_step (Acquire t c p) d = snd (acme_acquire t c p d)"
| "acme_step (Release c p) d = release_cluster_lease c p d"

fun acme_quiet :: "ClusterName \<Rightarrow> NodeId \<Rightarrow> time \<Rightarrow> (ClusterName, NodeId) lease_event \<Rightarrow> bool" where
  "acme_quiet c p e (Acquire t c' p') = (t \<le> e)"
| "acme_quiet c p e (Release c' p') = (c' \<noteq> c \<or> p' \<noteq> p)"

datatype drone_event = DRegister NodeId bool DronePoolName | DHeartbeat time NodeId time | DDrain NodeId

fun drone_step :: "drone_event \<Rightarrow> db \<Rightarrow> db" where
  "drone_step (DRegister i ready pool) d =
     (case register_drone i ready pool d of Inl _ \<Rightarrow> d | Inr d' \<Rightarrow> d')"
| "drone_step (DHeartbeat now i t) d = drone_heartbeat now i t d"
| "drone_step (DDrain i) d = (case drain i d of Inl _ \<Rightarrow> d | Inr (_, d') \<Rightarrow> d')"

definition draining :: "NodeId \<Rightarrow> db \<Rightarrow> bool" where
  "draining i d = (case find_row (\<lambda>r. d_id r = i) (drones d) of Some r \<Rightarrow> d_draining r | None \<Rightarrow> False)"

lemma acme_step_eq: "acme.lease_step = acme_step"
proof (intro ext)
  fix ev d show "acme.lease_step ev d = acme_step ev d" by (cases ev) simp_all
qed

lemma acme_quiet_eq: "acme.quiet = acme_quiet"
proof (intro ext)
  fix c p e ev show "acme.quiet c p e ev = acme_quiet c p e ev" by (cases ev) simp_all
qed

lemma find_row_update_key:
  assumes "\<And>r. d_id (f r) = d_id r"
  shows "find_row (\<lambda>r. d_id r = i) (update_where (\<lambda>r. d_id r = j) f rows) =
    map_option (\<lambda>r. if j = i then f r else r) (find_row (\<lambda>r. d_id r = i) rows)"
  using assms by (induction rows) (auto simp: find_row_def update_where_def)

lemma unique_drones_step: "unique_on d_id (drones d) \<Longrightarrow> unique_on d_id (drones (drone_step ev d))"
  by (cases ev)
     (auto simp: register_drone_def drone_heartbeat_def drain_def unique_on_update_where
        unique_on_append1 split: option.splits)

lemma draining_step: "draining i d \<Longrightarrow> draining i (drone_step ev d)"
  by (cases ev)
     (auto simp: draining_def register_drone_def drone_heartbeat_def drain_def find_row_update_key
        find_row_append split: option.splits)

interpretation drones: monotone_machine drone_step "draining i" "\<lambda>d. unique_on d_id (drones d)" for i
  by unfold_locales (auto simp: unique_drones_step draining_step)

lemma draining_not_eligible:
  assumes "unique_on d_id (drones d)" and "draining i d"
    and "(n, r) \<in> set (node_drone_join d)" and "spawn_eligible now cluster pool d (n, r)"
  shows "d_id r \<noteq> i"
proof
  assume "d_id r = i"
  moreover have "r \<in> set (drones d)" using assms(3) by (simp add: set_node_drone_join)
  ultimately have "find_row (\<lambda>x. d_id x = i) (drones d) = Some r"
    using find_row_key [OF assms(1), of r] by simp
  with assms(2,4) show False by (simp add: draining_def spawn_eligible_def)
qed

lemma pick_drone_SomeD:
  assumes "\<And>xs. mset (shuffle xs) = mset xs"
    and "pick_drone_for_spawn shuffle now cluster pool best_of d = Inr (Some ds)"
  obtains n r sample where
    "mset sample \<subseteq># mset (filter (spawn_eligible now cluster pool d) (node_drone_join d))"
    "length sample = min (nat best_of)
       (length (filter (spawn_eligible now cluster pool d) (node_drone_join d)))"
    "(n, r) \<in> set sample"
    "\<forall>(n', r')\<in>set sample. backend_count (n_id n) d \<le> backend_count (n_id n') d"
    "ds = \<lparr> ds_id = d_id r, ds_drone = n_name n, ds_last_local_time = the (d_last_local_time r) \<rparr>"
    "(n, r) \<in> set (filter (spawn_eligible now cluster pool d) (node_drone_join d))"
proof -
  let ?E = "filter (spawn_eligible now cluster pool d) (node_drone_join d)"
  let ?S = "take (nat best_of) (shuffle ?E)"
  from assms(2) obtain n r where
    m: "min_by_key (\<lambda>(n, r). backend_count (n_id n) d) ?S = Some (n, r)" and
    e: "bind_result (expect_name drone_prefix ''valid drone name'' (n_name n)) (\<lambda>name.
          Inr (Some \<lparr> ds_id = d_id r, ds_drone = name,
                      ds_last_local_time = the (d_last_local_time r) \<rparr>)) = Inr (Some ds)"
    by (auto simp: pick_drone_for_spawn_def Let_def split: if_splits option.splits)
  have len: "length (shuffle ?E) = length ?E" using assms(1) by (metis size_mset)
  have sub: "mset ?S \<subseteq># mset ?E"
    using assms(1) [of ?E] by (metis append_take_drop_id mset_append mset_subset_eq_add_left)
  have nr: "(n, r) \<in> set ?S" "\<forall>(n', r')\<in>set ?S. backend_count (n_id n) d \<le> backend_count (n_id n') d"
    using min_by_key_SomeD [OF m] by auto
  from mset_subset_eqD [OF sub, of "(n, r)"] nr(1) have nE: "(n, r) \<in> set ?E"
    by (simp only: set_mset_mset)
  from e obtain name where "name_try_from drone_prefix (n_name n) = Inr name"
    "ds = \<lparr> ds_id = d_id r, ds_drone = name, ds_last_local_time = the (d_last_local_time r) \<rparr>"
    by (cases "name_try_from drone_prefix (n_name n)") (auto simp: expect_name_def)
  then have ds: "ds = \<lparr> ds_id = d_id r, ds_drone = n_name n,
                  ds_last_local_time = the (d_last_local_time r) \<rparr>"
    by (simp add: name_try_from_Inr)
  have "length ?S = min (nat best_of) (length ?E)" using len by (simp add: min.commute)
  from that [OF sub this nr ds nE] show ?thesis .
qed

lemma pick_drone_eligible:
  assumes "\<And>xs. mset (shuffle xs) = mset xs"
    and "pick_drone_for_spawn shuffle now cluster pool best_of d = Inr (Some ds)"
  obtains n r where "(n, r) \<in> set (node_drone_join d)" "spawn_eligible now cluster pool d (n, r)"
    "ds_id ds = d_id r"
proof (rule pick_drone_SomeD [OF assms])
  fix n r sample
  assume "ds = \<lparr> ds_id = d_id r, ds_drone = n_name n, ds_last_local_time = the (d_last_local_time r) \<rparr>"
    and "(n, r) \<in> set (filter (spawn_eligible now cluster pool d) (node_drone_join d))"
  then show thesis using that [of n r] by simp
qed

section \<open>A small cluster\<close>

text \<open>One controller, two drones and one proxy, used to instantiate the properties.\<close>

definition example_controller :: controller_row where
  "example_controller = \<lparr> c_id = ''co-a'', c_first_seen = 0, c_last_heartbeat = 0, c_is_online = True,
     c_plane_version = ''1'', c_plane_hash = ''h'' \<rparr>"

definition example_node :: node_row where
  "example_node = \<lparr> n_id = 1, n_kind = ''Drone'', n_name = ''dr-a'', n_cluster = Some ''c'',
     n_plane_version = ''1'', n_plane_hash = ''h'', n_controller = Some ''co-a'', n_ip = ''ip'',
     n_last_connection_start_time = Some 0 \<rparr>"

definition example_node_b :: node_row where
  "example_node_b = example_node\<lparr> n_id := 3, n_name := ''dr-b'' \<rparr>"

definition example_proxy :: node_row where
  "example_proxy = \<lparr> n_id = 2, n_kind = ''Proxy'', n_name = ''px-a'', n_cluster = Some ''c'',
     n_plane_version = ''1'', n_plane_hash = ''h'', n_controller = Some ''co-a'', n_ip = ''ip'',
     n_last_connection_start_time = Some 0 \<rparr>"

definition example_drone :: drone_row where
  "example_drone = \<lparr> d_id = 1, d_ready = True, d_draining = False, d_last_heartbeat = Some 0,
     d_last_local_time = Some 0, d_pool = [] \<rparr>"

definition example_drone_b :: drone_row where
  "example_drone_b = example_drone\<lparr> d_id := 3 \<rparr>"

definition example_db :: db where
  "example_db = empty_db\<lparr> controllers := [example_controller], nodes := [example_node, example_proxy, example_node_b],
     drones := [example_drone, example_drone_b], next_node_id := 4 \<rparr>"

definition example_reregistered :: "((NodeId \<times> time) \<times> db)" where
  "example_reregistered = projr (register 9 (Some ''c'') (AnyDrone ''dr-a'') NodeDrone ''co-a''
     \<lparr> pv_version = ''2'', pv_git_hash = ''h'' \<rparr> ''ip'' example_db)"

definition example_leased :: db where
  "example_leased = snd (projr (lease_cluster_dns 0 ''c'' 2 example_db))"

lemmas example_defs = example_db_def example_controller_def example_node_def example_proxy_def
  example_drone_def example_node_b_def example_drone_b_def empty_db_def

lemma example_pick:
  "pick_drone_for_spawn (\<lambda>xs. xs) 1 ''c'' [] 2 example_db =
     Inr (Some \<lparr> ds_id = 1, ds_drone = ''dr-a'', ds_last_local_time = 0 \<rparr>)"
  by (simp add: pick_drone_for_spawn_def node_drone_join_def spawn_eligible_def example_defs
      find_row_def backend_count_def rows_affected_def UNHEALTHY_SECONDS_def secs_def expect_name_def name_try_from_def prefix_defs
      starts_with_def str_len_def MAX_NAME_LENGTH_def name_char_def ascii_class_defs)

lemma example_pick_drained:
  "pick_drone_for_spawn (\<lambda>xs. xs) 1 ''c'' [] 2
     (fold drone_step [DRegister 1 True [], DHeartbeat 1 1 1]
        (snd (projr (drain 1 example_db)))) =
     Inr (Some \<lparr> ds_id = 3, ds_drone = ''dr-b'', ds_last_local_time = 0 \<rparr>)"
  by (simp add: pick_drone_for_spawn_def node_drone_join_def spawn_eligible_def example_defs
      find_row_def backend_count_def rows_affected_def UNHEALTHY_SECONDS_def secs_def expect_name_def name_try_from_def prefix_defs
      starts_with_def str_len_def MAX_NAME_LENGTH_def name_char_def ascii_class_defs
      drain_def update_where_def register_drone_def exists_row_def drone_heartbeat_def)

lemma example_db_ok: "db_ok example_db"
  by (simp add: db_ok_def schema_ok_def example_defs terminated_unkeyed_def history_ok_def ids_ok_def
      unique_on_def)

lemma register_row:
  assumes "db_ok d" and "register now cl name kind ctrl v ip d = Inr ((nid, st), d')"
  shows "st = now \<and> unique_on n_id (nodes d')
    \<and> (\<exists>n. find_row (\<lambda>n. n_id n = nid) (nodes d') = Some n \<and> n_controller n = Some ctrl
         \<and> n_last_connection_start_time n = Some now)"
proof -
  have u: "unique_on n_id (nodes d)" and fresh: "\<forall>n\<in>set (nodes d). n_id n < next_node_id d"
    using assms(1) by (auto simp: db_ok_def schema_ok_def ids_ok_def)
  let ?C = "\<lambda>n. cl \<noteq> None \<and> n_cluster n = cl \<and> n_name n = any_to_string name"
  show ?thesis
  proof (cases "find_row ?C (nodes d)")
    case None
    have "find_row (\<lambda>n. n_id n = next_node_id d) (nodes d) = None"
      using fresh by (force simp: find_row_None_iff)
    moreover have "\<not> exists_row (\<lambda>n. n_id n = next_node_id d) (nodes d)"
      using fresh by (force simp: exists_row_iff)
    ultimately show ?thesis using assms(2) None u
      by (auto simp: register_def Let_def emit_def unique_on_append1 find_row_append
          split: if_splits)
  next
    case (Some n)
    then have n: "n \<in> set (nodes d)" "?C n" by (auto dest: find_row_SomeD)
    have nodes': "nodes d' = update_where ?C (\<lambda>n. n\<lparr> n_controller := Some ctrl,
        n_plane_version := pv_version v, n_plane_hash := pv_git_hash v, n_ip := ip,
        n_last_connection_start_time := Some now \<rparr>) (nodes d)" (is "_ = update_where _ ?f _")
      and nid: "nid = n_id n" and st: "st = now"
      using assms(2) Some by (auto simp: register_def Let_def emit_def split: if_splits)
    have u': "unique_on n_id (nodes d')" unfolding nodes' using u by (simp add: unique_on_update_where)
    have "?f n \<in> set (nodes d')" unfolding nodes' set_update_where using n by force
    from find_row_key [OF u' this] nid st u' show ?thesis by auto
  qed
qed

section \<open>Properties\<close>



text \<open>
  A drain is final. Once a drone is drained, no sequence of registrations, heartbeats and
  further drains, of this or of other drones, makes it a candidate for a spawn again.
\<close>

theorem drain_sticky:
  assumes "unique_on d_id (drones d)" and "drain i d = Inr (updated, d')"
    and "\<And>xs. mset (shuffle xs) = mset xs"
    and "pick_drone_for_spawn shuffle now cluster pool best_of (fold drone_step evs d') = Inr (Some ds)"
  shows "ds_id ds \<noteq> i"
proof -
  let ?d = "fold drone_step evs d'"
  have d': "d' = drone_step (DDrain i) d" using assms(2) by simp
  then have u: "unique_on d_id (drones d')" using assms(1) by (simp only: unique_drones_step)
  have "draining i d'"
    using assms(2)
    by (auto simp: draining_def drain_def find_row_update_key split: option.splits)
  then have "draining i ?d" "unique_on d_id (drones ?d)"
    using drones.run_rank [OF u, of i evs] drones.run_inv [OF u] by auto
  moreover from pick_drone_eligible [OF assms(3,4)] obtain n r where
    "(n, r) \<in> set (node_drone_join ?d)" "spawn_eligible now cluster pool ?d (n, r)"
    "ds_id ds = d_id r" by blast
  ultimately show ?thesis using draining_not_eligible [of ?d i n r] by auto
qed

theorem drain_sticky_witness:
  "ds_id \<lparr> ds_id = 3, ds_drone = ''dr-b'', ds_last_local_time = 0 \<rparr> \<noteq> 1
   \<and> drain 1 example_db = Inr (True, snd (projr (drain 1 example_db)))"
proof
  show d: "drain 1 example_db = Inr (True, snd (projr (drain 1 example_db)))"
    by (simp add: drain_def example_defs find_row_def)
  have "unique_on d_id (drones example_db)" by (simp add: example_defs unique_on_def)
  from drain_sticky [OF this d _ example_pick_drained]
  show "ds_id \<lparr> ds_id = 3, ds_drone = ''dr-b'', ds_last_local_time = 0 \<rparr> \<noteq> 1" by simp
qed

text \<open>
  A late disconnect does not take a node offline. After a node has registered again, marking
  it offline on behalf of an earlier connection, of another controller or of an earlier start
  time, leaves every node row as it is; on behalf of the current connection it clears exactly the
  controller of that node.
\<close>

theorem mark_offline_current_only:
  assumes "db_ok d" and "register now cl name kind ctrl v ip d = Inr ((nid, st), d')"
  shows "((ctrl', st') \<noteq> (ctrl, st) \<longrightarrow> nodes (mark_offline t nid ctrl' st' d') = nodes d')
    \<and> nodes (mark_offline t nid ctrl st d') =
        update_where (\<lambda>n. n_id n = nid) (\<lambda>n. n\<lparr> n_controller := None \<rparr>) (nodes d')"
    (is "?stale \<and> ?own")
proof -
  from register_row [OF assms] obtain n where
    st: "st = now" and u: "unique_on n_id (nodes d')" and
    f: "find_row (\<lambda>n. n_id n = nid) (nodes d') = Some n" "n_controller n = Some ctrl"
       "n_last_connection_start_time n = Some now" by blast
  have only: "x = n" if "x \<in> set (nodes d')" "n_id x = nid" for x
    using that find_row_key [OF u that(1)] f(1) by simp
  have ?stale using only f(2,3) st
    by (auto simp: mark_offline_def emit_def update_where_def Let_def intro!: map_idI)
  moreover have ?own using only f(2,3) st
    by (auto simp: mark_offline_def emit_def update_where_def Let_def)
  ultimately show ?thesis ..
qed

theorem mark_offline_current_only_witness:
  "nodes (mark_offline 10 1 ''co-a'' 0 (snd example_reregistered)) = nodes (snd example_reregistered)
   \<and> fst example_reregistered = (1, 9)"
proof -
  have r: "register 9 (Some ''c'') (AnyDrone ''dr-a'') NodeDrone ''co-a''
     \<lparr> pv_version = ''2'', pv_git_hash = ''h'' \<rparr> ''ip'' example_db
     = Inr ((1, 9), snd example_reregistered)"
    by (simp add: example_reregistered_def register_def example_defs exists_row_def find_row_def)
  then have "fst (projr (register 9 (Some ''c'') (AnyDrone ''dr-a'') NodeDrone ''co-a''
     \<lparr> pv_version = ''2'', pv_git_hash = ''h'' \<rparr> ''ip'' example_db)) = (1, 9)"
    by (simp only: sum.sel fst_conv)
  then have "fst example_reregistered = (1, 9)" by (simp only: example_reregistered_def)
  with mark_offline_current_only [OF example_db_ok r, of "''co-a''" 0 10] show ?thesis by simp
qed

text \<open>
  Mutual exclusion of certificate issuance. Two grants of the acme lease of a cluster are
  more than a minute apart, whatever leases, of this and other clusters, are requested and
  released in between, as long as the first holder does not release its own.
\<close>

theorem acme_lease_exclusive:
  assumes "acme_ok d" and "lease_cluster_dns t1 c p1 d = Inr (True, d1)"
    and "list_all (acme_quiet c p1 (t1 + ACME_LEASE)) evs"
    and "lease_cluster_dns t2 c p2 (fold acme_step evs d1) = Inr (True, d2)"
  shows "t1 + secs 60 < t2"
proof -
  have a1: "acme_acquire t1 c p1 d = (True, d1)" and
    a2: "acme_acquire t2 c p2 (fold acme_step evs d1) = (True, d2)"
    using assms(2,4) by (simp_all add: acme_acquire_def)
  have "t1 + ACME_LEASE < t2"
    by (rule acme.grants_apart [of d t1 c p1 evs t2 p2])
       (simp_all add: a1 a2 assms(1,3) acme_step_eq acme_quiet_eq)
  then show ?thesis by (simp add: ACME_LEASE_def)
qed

theorem acme_lease_exclusive_witness:
  "lease_cluster_dns (secs 61) ''c'' 1 (fold acme_step [Acquire 5 ''c'' 1, Release ''c'' 1] example_leased)
     = Inr (True, snd (projr (lease_cluster_dns (secs 61) ''c'' 1
          (fold acme_step [Acquire 5 ''c'' 1, Release ''c'' 1] example_leased))))
   \<and> 0 + secs 60 < secs 61"
proof -
  let ?evs = "[Acquire 5 ''c'' 1, Release ''c'' 1]"
  have ok: "acme_ok example_db" by (simp add: acme_ok_def example_defs)
  have l1: "lease_cluster_dns 0 ''c'' 2 example_db = Inr (True, example_leased)"
    by (simp add: lease_cluster_dns_def example_leased_def example_defs exists_row_def)
  have q: "list_all (acme_quiet ''c'' 2 (0 + ACME_LEASE)) ?evs"
    by (simp add: ACME_LEASE_def secs_def)
  have l2: "lease_cluster_dns (secs 61) ''c'' 1 (fold acme_step ?evs example_leased)
     = Inr (True, snd (projr (lease_cluster_dns (secs 61) ''c'' 1 (fold acme_step ?evs example_leased))))"
    by (simp add: lease_cluster_dns_def example_leased_def example_defs exists_row_def
        acme_acquire_def release_cluster_lease_def delete_where_def update_where_def
        rows_affected_def ACME_LEASE_def secs_def)
  from acme_lease_exclusive [OF ok l1 q l2] l2 show ?thesis by simp
qed

text \<open>
  The health column of a node ignores how old the heartbeat of its controller is: as long as
  the controller row says online, the node counts as active however long ago the controller was
  last heard of.
\<close>

theorem stale_controller_counts_active:
  assumes "n_controller n = Some cid"
    and "find_row (\<lambda>c. c_id c = cid) (controllers d) = Some c" and "c_is_online c"
    and "c_last_heartbeat c \<le> now"
  shows "online_controller now n d = Some cid"
  using assms find_row_SomeD [OF assms(2)]
  by (simp add: online_controller_def UNHEALTHY_SECONDS_def secs_def)

theorem stale_controller_counts_active_witness:
  "online_controller (secs 1000000) example_node example_db = Some ''co-a''"
  by (rule stale_controller_counts_active [where c = example_controller])
     (simp_all add: example_defs find_row_def secs_def)

end
