(* ===== verification/Db_Backend.thy ===== *)
theory Db_Backend
  imports Db_Nodes
begin

text \<open>
  Backends, tokens and pending actions in the database: \<open>plane/src/database/backend.rs\<close> and
  \<open>plane/src/database/backend_actions.rs\<close>. A method that opens a transaction is one function; an
  error aborts it and leaves the database as it was. The stream of \<open>status_stream\<close> is the list of
  entries it yields for the rows it read and the notifications it then received. The random part
  of an action id is the parameter \<open>samples\<close>.
\<close>

section \<open>Rows and candidates\<close>

record BackendRow =
  br_id :: BackendName
  br_cluster :: string
  br_last_status_time :: time
  br_state :: BackendState
  br_last_keepalive :: time
  br_drone_id :: NodeId
  br_expiration_time :: "time option"
  br_allowed_idle_seconds :: "int option"
  br_as_of :: time

definition status_age :: "BackendRow \<Rightarrow> time" where
  "status_age r = br_as_of r - br_last_status_time r"

record TerminationCandidate =
  tc_backend_id :: BackendName
  tc_expiration_time :: "time option"
  tc_last_keepalive :: time
  tc_allowed_idle_seconds :: "int option"
  tc_as_of :: time

definition decode_backend_name :: "string \<Rightarrow> BackendName sql" where
  "decode_backend_name s =
     map_err (\<lambda>_. Decode ''Failed to decode backend name.'') (name_try_from backend_prefix s)"

definition decode_backend_row :: "time \<Rightarrow> backend_row \<Rightarrow> BackendRow sql" where
  "decode_backend_row now b =
     bind_result (decode_backend_name (b_id b)) (\<lambda>i.
     bind_result (ok_or (b_state b) (Decode ''Failed to decode backend state.'')) (\<lambda>st.
       Inr \<lparr> br_id = i, br_cluster = b_cluster b, br_last_status_time = b_last_status_time b,
             br_state = st, br_last_keepalive = b_last_keepalive b, br_drone_id = b_drone_id b,
             br_expiration_time = b_expiration_time b,
             br_allowed_idle_seconds = b_allowed_idle_seconds b, br_as_of = now \<rparr>))"

section \<open>Queries\<close>

definition get_backend :: "time \<Rightarrow> BackendName \<Rightarrow> db \<Rightarrow> (BackendRow option) sql" where
  "get_backend now backend_id d =
     (case find_row (\<lambda>b. b_id b = backend_id) (backends d) of
        None \<Rightarrow> Inr None
      | Some b \<Rightarrow> bind_result (decode_backend_row now b) (\<lambda>r. Inr (Some r)))"

definition list_backends :: "time \<Rightarrow> db \<Rightarrow> (BackendRow list) sql" where
  "list_backends now d = decode_all (decode_backend_row now) (backends d)"

definition list_alive_backends_for_drone ::
  "time \<Rightarrow> ClusterName \<Rightarrow> DroneName \<Rightarrow> db \<Rightarrow> (BackendRow list) sql" where
  "list_alive_backends_for_drone now cluster drone d =
     decode_all (decode_backend_row now)
       (filter (\<lambda>b. get_id cluster drone d = Some (b_drone_id b)
                  \<and> b_last_status b \<noteq> ''terminated'') (backends d))"

definition idle_expired :: "time \<Rightarrow> backend_row \<Rightarrow> bool" where
  "idle_expired now b = (case b_allowed_idle_seconds b of
     Some s \<Rightarrow> now - b_last_keepalive b > secs s | None \<Rightarrow> False)"

definition lifetime_expired :: "time \<Rightarrow> backend_row \<Rightarrow> bool" where
  "lifetime_expired now b = (case b_expiration_time b of Some t \<Rightarrow> now > t | None \<Rightarrow> False)"

definition termination_candidates :: "time \<Rightarrow> NodeId \<Rightarrow> db \<Rightarrow> (TerminationCandidate list) sql" where
  "termination_candidates now drone_id d =
     decode_all (\<lambda>b. bind_result (decode_backend_name (b_id b)) (\<lambda>i.
         Inr \<lparr> tc_backend_id = i, tc_expiration_time = b_expiration_time b,
               tc_last_keepalive = b_last_keepalive b,
               tc_allowed_idle_seconds = b_allowed_idle_seconds b, tc_as_of = now \<rparr>))
       (filter (\<lambda>b. b_drone_id b = drone_id
            \<and> b_last_status b \<notin> {status_to_string StScheduled, status_to_string StTerminated}
            \<and> (idle_expired now b \<or> lifetime_expired now b)) (backends d))"

section \<open>State changes\<close>

text \<open>The \<open>set\<close> and \<open>where\<close> clauses of the update of \<open>update_state\<close>.\<close>

definition set_row_state :: "time \<Rightarrow> BackendState \<Rightarrow> backend_row \<Rightarrow> backend_row" where
  "set_row_state now new_state b =
     b\<lparr> b_last_status := status_to_string (status new_state), b_last_status_time := now,
        b_last_status_number := Some (as_int (status new_state)),
        b_cluster_address := map_option Inr (address new_state), b_state := Some new_state \<rparr>"

definition may_advance :: "BackendState \<Rightarrow> backend_row \<Rightarrow> bool" where
  "may_advance new_state b = (case b_last_status_number b of
     Some n \<Rightarrow> n < as_int (status new_state) | None \<Rightarrow> True)"

fun is_terminated :: "BackendState \<Rightarrow> bool" where
  "is_terminated (Terminated _ _ _ _) = True"
| "is_terminated _ = False"

definition update_state :: "time \<Rightarrow> BackendName \<Rightarrow> BackendState \<Rightarrow> db \<Rightarrow> (bool \<times> db) sql" where
  "update_state now backend new_state d =
     (let P = (\<lambda>b. b_id b = backend \<and> may_advance new_state b);
          d1 = d\<lparr> backends := update_where P (set_row_state now new_state) (backends d) \<rparr>
      in if rows_affected P (backends d) = 0 then Inr (False, d)
         else
           let d2 = (if is_terminated new_state
                     then d1\<lparr> backend_keys := delete_where (\<lambda>k. k_id k = backend) (backend_keys d1) \<rparr>
                     else d1)
           in bind_result (emit_state_change now backend new_state d2) (\<lambda>d3. Inr (True, d3)))"

definition update_keepalive :: "time \<Rightarrow> BackendName \<Rightarrow> db \<Rightarrow> bool \<times> db" where
  "update_keepalive now backend_id d =
     (let P = (\<lambda>b. b_id b = backend_id \<and> b_last_status b \<noteq> ''terminated'')
      in (rows_affected P (backends d) \<noteq> 0,
          d\<lparr> backends := update_where P (\<lambda>b. b\<lparr> b_last_keepalive := now \<rparr>) (backends d) \<rparr>))"

definition publish_metrics :: "time \<Rightarrow> BackendMetricsMessage \<Rightarrow> db \<Rightarrow> db" where
  "publish_metrics now metrics d = emit_backend_metrics now (mm_backend_id metrics) metrics d"

text \<open>\<open>cleanup\<close>: rows that still reference a deleted backend abort the transaction. The order in
  which Postgres returns the rows of the temporary table is the order of the table.\<close>

definition cleanup :: "time \<Rightarrow> int \<Rightarrow> nat \<Rightarrow> db \<Rightarrow> db sql" where
  "cleanup now min_age_days batch_size d =
     (let del = map b_id (take batch_size (filter
                  (\<lambda>b. b_last_status b = status_to_string StTerminated
                     \<and> now - b_last_status_time b > secs (min_age_days * 86400)) (backends d)));
          d1 = d\<lparr> tokens := delete_where (\<lambda>t. t_backend_id t \<in> set del) (tokens d),
                  backend_actions := delete_where (\<lambda>a. a_backend_id a \<in> set del) (backend_actions d),
                  backend_keys := delete_where (\<lambda>k. k_id k \<in> set del \<and> k_expires_at k < now)
                                    (backend_keys d),
                  backend_states := delete_where (\<lambda>s. s_backend_id s \<in> set del) (backend_states d) \<rparr>
      in if exists_row (\<lambda>k. k_id k \<in> set del) (backend_keys d1) then Inl ForeignKeyViolation
         else Inr (d1\<lparr> backends := delete_where (\<lambda>b. b_id b \<in> set del) (backends d1) \<rparr>))"

section \<open>Status streams\<close>

fun stream_rows :: "state_row list \<Rightarrow> BackendStatus option \<Rightarrow>
    BackendStatusStreamEntry list \<times> BackendStatus option" where
  "stream_rows [] last_status = ([], last_status)"
| "stream_rows (row # rows) last_status = (case s_state row of
     Some st \<Rightarrow> (let (es, l) = stream_rows rows (Some (status st))
                 in (from_state st (s_created_at row) # es, l))
   | None \<Rightarrow> stream_rows rows last_status)"

fun stream_updates :: "(BackendState \<times> time) list \<Rightarrow> BackendStatus option \<Rightarrow>
    BackendStatusStreamEntry list" where
  "stream_updates [] last_status = []"
| "stream_updates ((st, t) # items) last_status =
     (if (case last_status of Some l \<Rightarrow> status st \<le> l | None \<Rightarrow> False)
      then stream_updates items last_status
      else from_state st t # stream_updates items (Some (status st)))"

definition status_stream ::
  "BackendName \<Rightarrow> db \<Rightarrow> (BackendState \<times> time) list \<Rightarrow> BackendStatusStreamEntry list" where
  "status_stream backend d received =
     (let (es, l) = stream_rows (sort_key s_id (filter (\<lambda>r. s_backend_id r = backend)
                      (backend_states d))) None
      in es @ stream_updates received l)"

section \<open>Routing information\<close>

record PartialRouteInfo =
  pr_backend_id :: BackendName
  pr_secret_token :: SecretToken
  pr_cluster :: ClusterName
  pr_user :: "string option"
  pr_user_data :: "json option"
  pr_subdomain :: "Subdomain option"

datatype RouteInfoResult = NotFound | Pending PartialRouteInfo | Available RouteInfo

definition set_address :: "PartialRouteInfo \<Rightarrow> socket_addr \<Rightarrow> RouteInfo" where
  "set_address p a = \<lparr> ri_backend_id = pr_backend_id p, ri_address = a,
     ri_secret_token = pr_secret_token p, ri_cluster = pr_cluster p, ri_user = pr_user p,
     ri_user_data = pr_user_data p, ri_subdomain = pr_subdomain p \<rparr>"

definition finish_route :: "PartialRouteInfo \<Rightarrow> (string + socket_addr) option \<Rightarrow> RouteInfoResult" where
  "finish_route p addr = (case addr of
     None \<Rightarrow> NotFound
   | Some (Inl _) \<Rightarrow> NotFound
   | Some (Inr a) \<Rightarrow> Available (set_address p a))"

definition route_of_row ::
  "(string \<Rightarrow> bool) \<Rightarrow> backend_row \<Rightarrow> SecretToken \<Rightarrow> string option \<Rightarrow> json option \<Rightarrow> RouteInfoResult sql" where
  "route_of_row host_parse b secret user user_data =
     (if b_last_status b \<in> {''terminated'', ''terminating'', ''hard-terminating''} then Inr NotFound
      else
        let ready = (b_last_status b = ''ready'') in
        bind_result (decode_backend_name (b_id b)) (\<lambda>bid.
        bind_result (map_err (\<lambda>_. Decode ''Failed to decode cluster name.'')
                       (cluster_from_str host_parse (b_cluster b))) (\<lambda>cl.
        bind_result (decode_subdomain (b_subdomain b)) (\<lambda>sd.
          let partial = \<lparr> pr_backend_id = bid, pr_secret_token = secret, pr_cluster = cl,
                          pr_user = user, pr_user_data = user_data, pr_subdomain = sd \<rparr>
          in Inr (if \<not> ready then Pending partial
                  else finish_route partial (b_cluster_address b))))))"

definition route_info_for_static_token ::
  "(string \<Rightarrow> bool) \<Rightarrow> BearerToken \<Rightarrow> db \<Rightarrow> RouteInfoResult sql" where
  "route_info_for_static_token host_parse token d =
     (case find_row (\<lambda>b. b_static_token b = Some token) (backends d) of
        None \<Rightarrow> Inr NotFound
      | Some b \<Rightarrow> route_of_row host_parse b [] None None)"

definition route_info_for_token ::
  "(string \<Rightarrow> bool) \<Rightarrow> BearerToken \<Rightarrow> db \<Rightarrow> RouteInfoResult sql" where
  "route_info_for_token host_parse token d =
     (if is_static token then route_info_for_static_token host_parse token d
      else case find_row (\<lambda>t. t_token t = token) (tokens d) of
        None \<Rightarrow> Inr NotFound
      | Some t \<Rightarrow> (case find_row (\<lambda>b. b_id b = t_backend_id t) (backends d) of
          None \<Rightarrow> Inr NotFound
        | Some b \<Rightarrow> route_of_row host_parse b (t_secret_token t) (t_username t)
                       (Some (JObj (t_auth t)))))"

section \<open>Pending actions\<close>

definition ack_pending_action :: "time \<Rightarrow> BackendActionName \<Rightarrow> NodeId \<Rightarrow> db \<Rightarrow> db" where
  "ack_pending_action now i drone_id d =
     d\<lparr> backend_actions := update_where (\<lambda>a. a_id a = i \<and> a_drone_id a = drone_id)
          (\<lambda>a. a\<lparr> a_acked_at := Some now \<rparr>) (backend_actions d) \<rparr>"

definition pending_actions :: "NodeId \<Rightarrow> nat \<Rightarrow> db \<Rightarrow> string + BackendActionMessage list" where
  "pending_actions drone limit d =
     decode_all (\<lambda>a. ok_or (a_action a) ''invalid action'')
       (take limit (sort_key a_created_at
          (filter (\<lambda>a. a_drone_id a = drone \<and> a_acked_at a = None) (backend_actions d))))"

text \<open>The key of the event is the decimal id of the drone, which \<open>show_id\<close> prints.\<close>

definition create_pending_action ::
  "(NodeId \<Rightarrow> string) \<Rightarrow> nat list \<Rightarrow> time \<Rightarrow> BackendName \<Rightarrow> NodeId \<Rightarrow> BackendAction \<Rightarrow> db \<Rightarrow> db sql" where
  "create_pending_action show_id samples now backend_id drone_id action d =
     (let action_id = name_new_random action_prefix samples;
          backend_action = \<lparr> am_action_id = action_id, am_backend_id = backend_id,
                             am_drone_id = drone_id, am_action = action \<rparr>;
          d1 = emit_with_key now (show_id drone_id) (PAction backend_action) d
      in if exists_row (\<lambda>a. a_id a = action_id) (backend_actions d1) then Inl UniqueViolation
         else if \<not> exists_row (\<lambda>b. b_id b = backend_id) (backends d1)
              \<or> \<not> exists_row (\<lambda>r. d_id r = drone_id) (drones d1) then Inl ForeignKeyViolation
         else Inr (d1\<lparr> backend_actions := backend_actions d1 @
                [\<lparr> a_id = action_id, a_backend_id = backend_id, a_drone_id = drone_id,
                   a_action = Some backend_action, a_created_at = now, a_acked_at = None \<rparr>] \<rparr>))"

section \<open>Lemmas on state changes\<close>

definition drop_key_if_terminated :: "BackendName \<Rightarrow> BackendState \<Rightarrow> key_row list \<Rightarrow> key_row list" where
  "drop_key_if_terminated i st ks = (if is_terminated st then delete_where (\<lambda>k. k_id k = i) ks else ks)"

lemma set_row_state_simps [simp]:
  "b_id (set_row_state now st b) = b_id b" "b_drone_id (set_row_state now st b) = b_drone_id b"
  "b_state (set_row_state now st b) = Some st"
  "b_last_status (set_row_state now st b) = status_to_string (status st)"
  "b_last_status_number (set_row_state now st b) = Some (as_int (status st))"
  "row_consistent (set_row_state now st b)"
  by (simp_all add: set_row_state_def row_consistent_def status_int_def)

lemma unique_backends: "db_ok d \<Longrightarrow> unique_on b_id (backends d)"
  by (simp add: db_ok_def schema_ok_def)

lemma update_state_eq:
  "update_state now i st d =
     (if exists_row (\<lambda>b. b_id b = i \<and> may_advance st b) (backends d)
      then Inr (True, emit_impl now (Some i) (PState st)
        (d\<lparr> backends := update_where (\<lambda>b. b_id b = i \<and> may_advance st b) (set_row_state now st) (backends d),
            backend_keys := drop_key_if_terminated i st (backend_keys d),
            backend_states := backend_states d @ [\<lparr> s_id = next_state_id d, s_backend_id = i,
              s_state = Some st, s_created_at = now \<rparr>],
            next_state_id := next_state_id d + 1 \<rparr>))
      else Inr (False, d))"
proof -
  let ?P = "\<lambda>b. b_id b = i \<and> may_advance st b"
  have aff: "rows_affected ?P (backends d) = 0 \<longleftrightarrow> \<not> exists_row ?P (backends d)"
    by (rule rows_affected_zero)
  have "exists_row (\<lambda>b. b_id b = i) (update_where ?P (set_row_state now st) (backends d))"
    if "exists_row ?P (backends d)"
    using that by (subst exists_row_update_key) (auto simp: exists_row_iff)
  then show ?thesis
    unfolding update_state_def Let_def aff
    by (cases "exists_row ?P (backends d)")
       (simp_all add: emit_state_change_def emit_with_key_def drop_key_if_terminated_def Let_def)
qed

lemma history_append:
  "history (d\<lparr> backend_states := backend_states d @ [r] \<rparr>) i =
     history d i @ (if s_backend_id r = i \<and> s_state r \<noteq> None then [the (s_state r)] else [])"
  by (simp add: history_def)

lemma history_cong: "backend_states d' = backend_states d \<Longrightarrow> history d' i = history d i"
  by (simp add: history_def)

lemma may_advance_consistent:
  assumes "db_ok d" and "b \<in> set (backends d)" and "may_advance st b"
  shows "sorted_wrt (<) (map status (history d (b_id b) @ [st])) \<and> b_last_status b \<noteq> status_to_string StTerminated"
proof -
  from assms(1,2) obtain st0 where st0: "b_state b = Some st0"
    "b_last_status b = status_to_string (status st0)" "b_last_status_number b = Some (status_int st0)"
    by (auto simp: db_ok_def row_consistent_def)
  with assms(3) have lt: "status st0 < status st"
    by (simp add: may_advance_def status_int_def as_int_less)
  from assms(1,2) have h: "sorted_wrt (<) (map status (history d (b_id b)))"
    "history d (b_id b) \<noteq> []" "b_state b = Some (last (history d (b_id b)))"
    by (auto simp: db_ok_def history_ok_def)
  have last: "last (history d (b_id b)) = st0" using h(3) st0(1) by simp
  have "sorted_wrt (<) (map status (history d (b_id b) @ [st]))"
    unfolding sorted_wrt_snoc_iff using h(1) lt last by simp
  moreover have "status st0 \<noteq> StTerminated" using lt by (metis not_le status_le_Terminated)
  ultimately show ?thesis using st0(2) by simp
qed

lemma schema_ok_backends_update:
  assumes "schema_ok d"
    and "\<And>b. b_id (f b) = b_id b" and "\<And>b. b_drone_id (f b) = b_drone_id b"
  shows "schema_ok (d\<lparr> backends := update_where P f (backends d) \<rparr>)"
proof -
  have "b_id ` set (update_where P f (backends d)) = b_id ` set (backends d)"
    using assms(2) by (rule image_key_update_where)
  moreover have "\<forall>b\<in>set (update_where P f (backends d)). b_drone_id b \<in> d_id ` set (drones d)"
    using assms(1,3) by (auto simp: schema_ok_def set_update_where)
  ultimately show ?thesis
    using assms(1,2) by (simp add: schema_ok_def unique_on_update_where)
qed

lemma schema_ok_states_append:
  assumes "schema_ok d" and "s_backend_id r \<in> b_id ` set (backends d)"
  shows "schema_ok (d\<lparr> backend_states := backend_states d @ [r] \<rparr>)"
  using assms by (simp add: schema_ok_def)

lemma schema_ok_counters [simp]:
  "schema_ok (d\<lparr> next_state_id := i \<rparr>) = schema_ok d"
  "schema_ok (d\<lparr> next_node_id := i \<rparr>) = schema_ok d"
  by (simp_all add: schema_ok_def)

lemma update_state_total: "\<exists>r d'. update_state now i st d = Inr (r, d')"
  by (cases "exists_row (\<lambda>b. b_id b = i \<and> may_advance st b) (backends d)") (simp_all add: update_state_eq ex_bool_eq)

lemma is_terminated_status: "is_terminated st \<longleftrightarrow> status st = StTerminated"
  by (cases st) simp_all

lemma db_ok_update_state:
  assumes "db_ok d" and "update_state now i st d = Inr (r, d')"
  shows "db_ok d'"
proof (cases "exists_row (\<lambda>b. b_id b = i \<and> may_advance st b) (backends d)")
  case False
  with assms show ?thesis by (simp add: update_state_eq)
next
  case True
  let ?P = "\<lambda>b. b_id b = i \<and> may_advance st b"
  let ?row = "\<lparr> s_id = next_state_id d, s_backend_id = i, s_state = Some st, s_created_at = now \<rparr>"
  let ?e = "d\<lparr> backends := update_where ?P (set_row_state now st) (backends d),
               backend_keys := drop_key_if_terminated i st (backend_keys d),
               backend_states := backend_states d @ [?row], next_state_id := next_state_id d + 1 \<rparr>"
  have d': "d' = emit_impl now (Some i) (PState st) ?e"
    using True assms(2) by (simp add: update_state_eq)
  obtain b0 where b0: "b0 \<in> set (backends d)" "b_id b0 = i" "may_advance st b0"
    using True by (auto simp: exists_row_iff)
  have uniq: "b = b0" if "b \<in> set (backends d)" "b_id b = i" for b
    using unique_onD [OF unique_backends [OF assms(1)] that(1) b0(1)] that(2) b0(2) by simp
  have hist: "history ?e j = history d j @ (if j = i then [st] else [])" for j
    by (simp add: history_def)
  have sch: "schema_ok ?e"
  proof -
    let ?d1 = "d\<lparr> backends := update_where ?P (set_row_state now st) (backends d) \<rparr>"
    have 1: "schema_ok ?d1" using assms(1) by (intro schema_ok_backends_update) (auto simp: db_ok_def)
    let ?d2 = "?d1\<lparr> backend_keys := drop_key_if_terminated i st (backend_keys ?d1) \<rparr>"
    have 2: "schema_ok ?d2"
      using 1 schema_ok_keys_delete [OF 1, of "\<lambda>k. k_id k = i"]
      by (simp add: drop_key_if_terminated_def)
    have "i \<in> b_id ` set (backends ?d2)"
      using b0 by (auto simp: image_key_update_where)
    then have "schema_ok (?d2\<lparr> backend_states := backend_states ?d2 @ [?row] \<rparr>)"
      using 2 by (intro schema_ok_states_append) simp_all
    then show ?thesis by simp
  qed
  have rows: "\<forall>b\<in>set (backends ?e). row_consistent b"
    using assms(1) by (auto simp: db_ok_def set_update_where)
  have unk: "terminated_unkeyed ?e"
    using assms(1)
    by (auto simp: db_ok_def terminated_unkeyed_def set_update_where drop_key_if_terminated_def
        is_terminated_status)
  have hok: "history_ok ?e"
    unfolding history_ok_def hist
  proof
    fix b' assume "b' \<in> set (backends ?e)"
    then obtain b where b: "b \<in> set (backends d)" "b' = (if ?P b then set_row_state now st b else b)"
      by (auto simp: set_update_where)
    have old: "sorted_wrt (<) (map status (history d (b_id b))) \<and> history d (b_id b) \<noteq> []
        \<and> b_state b = Some (last (history d (b_id b)))"
      using assms(1) b(1) by (simp add: db_ok_def history_ok_def)
    show "sorted_wrt (<) (map status (history d (b_id b') @ (if b_id b' = i then [st] else [])))
        \<and> history d (b_id b') @ (if b_id b' = i then [st] else []) \<noteq> []
        \<and> b_state b' = Some (last (history d (b_id b') @ (if b_id b' = i then [st] else [])))"
    proof (cases "b_id b = i")
      case True
      then have "b = b0" using uniq b(1) by simp
      with b b0 may_advance_consistent [OF assms(1) b0(1,3)] show ?thesis by simp
    next
      case False
      with b old show ?thesis by simp
    qed
  qed
  have ids: "ids_ok ?e" using assms(1) by (auto simp: db_ok_def ids_ok_def sorted_wrt_append)
  show ?thesis unfolding d' using sch rows unk hok ids by (intro db_ok_emit) (simp add: db_ok_def)
qed

section \<open>Lemmas on the other statements\<close>

lemma schema_ok_actions_update:
  "\<lbrakk> schema_ok d; \<And>a. a_id (f a) = a_id a; \<And>a. a_backend_id (f a) = a_backend_id a \<rbrakk>
     \<Longrightarrow> schema_ok (d\<lparr> backend_actions := update_where P f (backend_actions d) \<rparr>)"
  by (auto simp: schema_ok_def unique_on_update_where set_update_where)

lemma actions_frame [simp]:
  "history (d\<lparr> backend_actions := as \<rparr>) = history d"
  "ids_ok (d\<lparr> backend_actions := as \<rparr>) = ids_ok d"
  "history_ok (d\<lparr> backend_actions := as \<rparr>) = history_ok d"
  "terminated_unkeyed (d\<lparr> backend_actions := as \<rparr>) = terminated_unkeyed d"
  by (simp_all add: history_def ids_ok_def history_ok_def terminated_unkeyed_def fun_eq_iff)

lemma tokens_frame [simp]:
  "history (d\<lparr> tokens := as \<rparr>) = history d"
  "ids_ok (d\<lparr> tokens := as \<rparr>) = ids_ok d"
  "history_ok (d\<lparr> tokens := as \<rparr>) = history_ok d"
  "terminated_unkeyed (d\<lparr> tokens := as \<rparr>) = terminated_unkeyed d"
  by (simp_all add: history_def ids_ok_def history_ok_def terminated_unkeyed_def fun_eq_iff)

lemma db_ok_ack: "db_ok d \<Longrightarrow> db_ok (ack_pending_action now i drone d)"
  by (simp add: ack_pending_action_def db_ok_def schema_ok_actions_update)

lemma db_ok_create_pending_action:
  assumes "db_ok d" and "create_pending_action show_id samples now i drone act d = Inr d'"
  shows "db_ok d'"
proof -
  let ?m = "\<lparr> am_action_id = name_new_random action_prefix samples, am_backend_id = i,
              am_drone_id = drone, am_action = act \<rparr>"
  let ?d1 = "emit_with_key now (show_id drone) (PAction ?m) d"
  have ok1: "db_ok ?d1" using assms(1) by (simp add: emit_with_key_def db_ok_emit)
  from assms(2) have d': "d' = ?d1\<lparr> backend_actions := backend_actions ?d1 @
        [\<lparr> a_id = name_new_random action_prefix samples, a_backend_id = i, a_drone_id = drone,
           a_action = Some ?m, a_created_at = now, a_acked_at = None \<rparr>] \<rparr>"
    and "\<not> exists_row (\<lambda>a. a_id a = name_new_random action_prefix samples) (backend_actions ?d1)"
    and "exists_row (\<lambda>b. b_id b = i) (backends ?d1)"
    by (auto simp: create_pending_action_def Let_def split: if_splits)
  then have "schema_ok d'"
    using ok1 by (auto simp: db_ok_def schema_ok_def unique_on_append1 exists_row_iff)
  with ok1 show ?thesis by (simp add: db_ok_def d')
qed

lemma row_consistent_keepalive [simp]:
  "row_consistent (b\<lparr> b_last_keepalive := t \<rparr>) = row_consistent b"
  by (simp add: row_consistent_def)

lemma db_ok_backends_update:
  assumes "db_ok d"
    and f: "\<And>b. b_id (f b) = b_id b" "\<And>b. b_drone_id (f b) = b_drone_id b"
      "\<And>b. b_state (f b) = b_state b" "\<And>b. b_last_status (f b) = b_last_status b"
      "\<And>b. row_consistent (f b) = row_consistent b"
  shows "db_ok (d\<lparr> backends := update_where P f (backends d) \<rparr>)"
proof -
  have "history (d\<lparr> backends := update_where P f (backends d) \<rparr>) = history d"
    by (simp add: history_def fun_eq_iff)
  moreover have "ids_ok (d\<lparr> backends := update_where P f (backends d) \<rparr>) = ids_ok d"
    by (simp add: ids_ok_def)
  ultimately show ?thesis
    using assms(1) schema_ok_backends_update [of d f P] f
    by (auto simp: db_ok_def terminated_unkeyed_def history_ok_def set_update_where)
qed

lemma db_ok_keepalive: "db_ok d \<Longrightarrow> db_ok (snd (update_keepalive now i d))"
  by (simp add: update_keepalive_def Let_def db_ok_backends_update)

lemma notified_frame [simp]: "db_ok (d\<lparr> notified := ns \<rparr>) = db_ok d"
  by (simp add: db_ok_def schema_ok_def terminated_unkeyed_def history_ok_def ids_ok_def history_def)

lemma db_ok_metrics: "db_ok d \<Longrightarrow> db_ok (publish_metrics now m d)"
  by (simp add: publish_metrics_def emit_backend_metrics_def)

text \<open>The ids a cleanup deletes.\<close>

definition cleanup_ids :: "time \<Rightarrow> int \<Rightarrow> nat \<Rightarrow> db \<Rightarrow> string list" where
  "cleanup_ids now min_age_days batch_size d = map b_id (take batch_size (filter
     (\<lambda>b. b_last_status b = status_to_string StTerminated
        \<and> now - b_last_status_time b > secs (min_age_days * 86400)) (backends d)))"

definition cleaned :: "time \<Rightarrow> string set \<Rightarrow> db \<Rightarrow> db" where
  "cleaned now I d = d\<lparr> tokens := delete_where (\<lambda>t. t_backend_id t \<in> I) (tokens d),
     backend_actions := delete_where (\<lambda>a. a_backend_id a \<in> I) (backend_actions d),
     backend_keys := delete_where (\<lambda>k. k_id k \<in> I \<and> k_expires_at k < now) (backend_keys d),
     backend_states := delete_where (\<lambda>s. s_backend_id s \<in> I) (backend_states d),
     backends := delete_where (\<lambda>b. b_id b \<in> I) (backends d) \<rparr>"

lemma cleanup_ids_terminated:
  "i \<in> set (cleanup_ids now days n d) \<Longrightarrow> \<exists>b\<in>set (backends d). b_id b = i
     \<and> b_last_status b = status_to_string StTerminated \<and> now - b_last_status_time b > secs (days * 86400)"
  unfolding cleanup_ids_def by (force dest: in_set_takeD)

lemma cleanup_ids_unkeyed:
  assumes "db_ok d" and "k \<in> set (backend_keys d)"
  shows "k_id k \<notin> set (cleanup_ids now days n d)"
proof
  assume "k_id k \<in> set (cleanup_ids now days n d)"
  then obtain b where "b \<in> set (backends d)" "b_id b = k_id k"
    "b_last_status b = status_to_string StTerminated" by (blast dest: cleanup_ids_terminated)
  with assms show False by (fastforce simp: db_ok_def terminated_unkeyed_def)
qed

lemma cleanup_eq:
  assumes "db_ok d"
  shows "cleanup now days n d = Inr (cleaned now (set (cleanup_ids now days n d)) d)"
proof -
  have "\<not> exists_row (\<lambda>k. k_id k \<in> set (cleanup_ids now days n d)) (backend_keys d)"
    using cleanup_ids_unkeyed [OF assms] by (simp add: exists_row_iff)
  then show ?thesis
    by (auto simp: cleanup_def cleaned_def cleanup_ids_def Let_def exists_row_iff)
qed

lemma history_cleaned: "i \<notin> I \<Longrightarrow> history (cleaned now I d) i = history d i"
  by (auto simp: history_def cleaned_def delete_where_def intro!: arg_cong [where f = "map _"] filter_cong)

lemma sorted_map_delete: "sorted_wrt (<) (map f xs) \<Longrightarrow> sorted_wrt (<) (map f (delete_where P xs))"
  for f :: "'a \<Rightarrow> 'b::linorder"
  by (simp add: sorted_wrt_map delete_where_def sorted_wrt_filter)

lemma db_ok_cleaned:
  assumes "db_ok d" and "\<forall>k\<in>set (backend_keys d). k_id k \<notin> I"
  shows "db_ok (cleaned now I d)"
proof -
  have "schema_ok (cleaned now I d)"
    using assms unfolding db_ok_def schema_ok_def cleaned_def
    by (auto simp: image_iff) (metis (no_types, lifting))+
  moreover have "history_ok (cleaned now I d)"
    using assms(1) history_cleaned by (auto simp: db_ok_def history_ok_def cleaned_def)
  ultimately show ?thesis
    using assms(1) by (auto simp: db_ok_def cleaned_def terminated_unkeyed_def ids_ok_def sorted_map_delete)
qed

section \<open>Lemmas on status streams\<close>

lemma stream_rows_eq:
  "stream_rows rows l =
     (let known = filter (\<lambda>r. s_state r \<noteq> None) rows in
      (map (\<lambda>r. from_state (the (s_state r)) (s_created_at r)) known,
       if known = [] then l else Some (status (the (s_state (last known))))))"
  by (induction rows arbitrary: l) (auto simp: Let_def split: option.splits)

lemma se_status_from_state [simp]: "se_status (from_state st t) = status st"
  by (simp add: from_state_def)

lemma stream_updates_above:
  "\<forall>e\<in>set (stream_updates items (Some l)). l < se_status e"
  by (induction items "Some l" arbitrary: l rule: stream_updates.induct)
     (auto intro: less_trans simp: not_le)

lemma stream_updates_sorted: "sorted_wrt (<) (map se_status (stream_updates items l))"
proof (induction items l rule: stream_updates.induct)
  case (2 st t items l)
  then show ?case using stream_updates_above [of items "status st"] by auto
qed simp

lemma stream_updates_skip:
  "\<forall>x\<in>set xs. status (fst x) \<le> l \<Longrightarrow>
     stream_updates (xs @ ys) (Some l) = stream_updates ys (Some l)"
  by (induction xs) auto

lemma stream_updates_keep:
  "\<lbrakk> sorted_wrt (<) (map (status \<circ> fst) ys); \<forall>y\<in>set ys. l < status (fst y) \<rbrakk> \<Longrightarrow>
     stream_updates ys (Some l) = map (\<lambda>(st, t). from_state st t) ys"
  by (induction ys arbitrary: l) (auto simp: not_le)

lemma status_stream_eq:
  assumes "ids_ok d"
  shows "status_stream i d received =
    map (\<lambda>r. from_state (the (s_state r)) (s_created_at r))
      (filter (\<lambda>r. s_backend_id r = i \<and> s_state r \<noteq> None) (backend_states d))
    @ stream_updates received (if history d i = [] then None else Some (status (last (history d i))))"
proof -
  let ?rows = "filter (\<lambda>r. s_backend_id r = i) (backend_states d)"
  have "sorted_wrt (<) (map s_id (backend_states d))" using assms by (simp add: ids_ok_def)
  then have "sorted_wrt (<) (map s_id ?rows)" by (simp add: sorted_wrt_map sorted_wrt_filter)
  then have "sort_key s_id ?rows = ?rows"
    by (intro sort_key_id_if_sorted) (rule strict_sorted_imp_sorted)
  moreover have "filter (\<lambda>r. s_state r \<noteq> None) ?rows
      = filter (\<lambda>r. s_backend_id r = i \<and> s_state r \<noteq> None) (backend_states d)"
    by (simp add: conj_commute)
  ultimately show ?thesis
    by (simp add: status_stream_def stream_rows_eq Let_def history_def last_map del: filter_filter)
qed

lemma status_stream_statuses:
  assumes "db_ok d" and "exists_row (\<lambda>b. b_id b = i) (backends d)"
  shows "sorted_wrt (<) (map status (history d i))" "history d i \<noteq> []"
    "\<And>x. x \<in> set (history d i) \<Longrightarrow> status x \<le> status (last (history d i))"
    "map se_status (status_stream i d received) = map status (history d i)
       @ map se_status (stream_updates received (Some (status (last (history d i)))))"
    "sorted_wrt (<) (map se_status (status_stream i d received))"
proof -
  have ids: "ids_ok d" using assms(1) by (simp add: db_ok_def)
  obtain b where b: "b \<in> set (backends d)" "b_id b = i" using assms(2) by (auto simp: exists_row_iff)
  show h: "sorted_wrt (<) (map status (history d i))" "history d i \<noteq> []"
    using assms(1) b by (auto simp: db_ok_def history_ok_def)
  let ?l = "status (last (history d i))"
  show eq: "map se_status (status_stream i d received)
      = map status (history d i) @ map se_status (stream_updates received (Some ?l))"
    using h(2) by (simp add: status_stream_eq [OF ids] history_def comp_def)
  show below: "status x \<le> ?l" if "x \<in> set (history d i)" for x
    using sorted_wrt_less_last [OF h(1) that] .
  show "sorted_wrt (<) (map se_status (status_stream i d received))"
    unfolding eq using h(1) stream_updates_sorted [of received "Some ?l"]
      stream_updates_above [of received ?l] below
    by (auto simp: sorted_wrt_append intro: le_less_trans)
qed

section \<open>Traces of state changes\<close>

fun state_step :: "time \<times> BackendName \<times> BackendState \<Rightarrow> db \<Rightarrow> db" where
  "state_step (now, i, st) d = (case update_state now i st d of Inr (_, d') \<Rightarrow> d' | Inl _ \<Rightarrow> d)"

definition row_rank :: "BackendName \<Rightarrow> db \<Rightarrow> int" where
  "row_rank i d = (case find_row (\<lambda>b. b_id b = i) (backends d) of
     Some b \<Rightarrow> (case b_last_status_number b of Some n \<Rightarrow> n | None \<Rightarrow> 0) | None \<Rightarrow> -1)"

lemma backends_state_step:
  "backends (state_step (now, i, st) d) =
     update_where (\<lambda>b. b_id b = i \<and> may_advance st b) (set_row_state now st) (backends d)"
proof (cases "exists_row (\<lambda>b. b_id b = i \<and> may_advance st b) (backends d)")
  case True
  then show ?thesis by (simp add: update_state_eq)
next
  case False
  then have "update_where (\<lambda>b. b_id b = i \<and> may_advance st b) (set_row_state now st) (backends d) = backends d"
    by (auto simp: update_where_def exists_row_iff intro!: map_idI)
  with False show ?thesis by (simp add: update_state_eq)
qed

lemma find_row_state_step:
  "find_row (\<lambda>b. b_id b = i) (backends (state_step (now, j, st) d)) =
     map_option (\<lambda>b. if j = i \<and> may_advance st b then set_row_state now st b else b)
       (find_row (\<lambda>b. b_id b = i) (backends d))"
  unfolding backends_state_step
  by (cases "i = j") (simp_all add: find_row_update_cond find_row_update_cond_other option.map_ident)

lemma db_ok_state_step: "db_ok d \<Longrightarrow> db_ok (state_step ev d)"
  by (cases ev) (auto split: sum.splits intro: db_ok_update_state)

lemma row_rank_step: "row_rank i d \<le> row_rank i (state_step ev d)"
proof -
  obtain now j st where ev: "ev = (now, j, st)" by (cases ev)
  show ?thesis
  proof (cases "find_row (\<lambda>b. b_id b = i) (backends d)")
    case None
    then show ?thesis by (simp add: ev row_rank_def find_row_state_step del: state_step.simps)
  next
    case (Some b)
    have "(case b_last_status_number b of Some n \<Rightarrow> n | None \<Rightarrow> 0) \<le> as_int (status st)"
      if "may_advance st b"
      using that as_int_bounds(1) [of "status st"] by (simp add: may_advance_def split: option.splits)
    with Some show ?thesis by (simp add: ev row_rank_def find_row_state_step del: state_step.simps)
  qed
qed

interpretation backend_rows: monotone_machine state_step "row_rank i" db_ok for i
  by unfold_locales (rule db_ok_state_step, assumption, rule row_rank_step)

lemma find_row_state_run:
  "(find_row (\<lambda>b. b_id b = i) (backends (fold state_step evs d)) = None) \<longleftrightarrow>
   (find_row (\<lambda>b. b_id b = i) (backends d) = None)"
proof (induction evs arbitrary: d)
  case (Cons ev evs)
  obtain now j st where "ev = (now, j, st)" by (cases ev)
  with Cons show ?case by (simp add: find_row_state_step del: state_step.simps)
qed simp

lemma row_rank_consistent:
  assumes "db_ok d" and "find_row (\<lambda>b. b_id b = i) (backends d) = Some b"
  shows "\<exists>st. b_state b = Some st \<and> row_rank i d = as_int (status st)
    \<and> b_last_status b = status_to_string (status st)"
proof -
  have "row_consistent b" using assms(1) find_row_SomeD [OF assms(2)] by (simp add: db_ok_def)
  with assms(2) show ?thesis unfolding row_consistent_def row_rank_def status_int_def by force
qed

lemma terminated_final:
  assumes "find_row (\<lambda>b. b_id b = i) (backends d) = Some b" and "b_last_status_number b = Some 70"
  shows "find_row (\<lambda>b. b_id b = i) (backends (fold state_step evs d)) = Some b"
  using assms
proof (induction evs arbitrary: d)
  case (Cons ev evs)
  obtain now j st where ev: "ev = (now, j, st)" by (cases ev)
  have "\<not> may_advance st b" using Cons.prems(2) as_int_bounds(2) [of "status st"] by (simp add: may_advance_def)
  then have "find_row (\<lambda>b. b_id b = i) (backends (state_step ev d)) = Some b"
    using Cons.prems(1) by (simp add: ev find_row_state_step del: state_step.simps)
  with Cons show ?case by simp
qed simp

section \<open>Lemmas on pending actions\<close>

definition unacked :: "NodeId \<Rightarrow> db \<Rightarrow> BackendActionMessage set" where
  "unacked drone d = {m. \<exists>a\<in>set (backend_actions d).
     a_drone_id a = drone \<and> a_acked_at a = None \<and> a_action a = Some m}"

lemma pending_actions_all:
  assumes "pending_actions drone limit d = Inr ms" and "length (backend_actions d) \<le> limit"
  shows "set ms = unacked drone d"
proof -
  define A where "A = sort_key a_created_at
    (filter (\<lambda>a. a_drone_id a = drone \<and> a_acked_at a = None) (backend_actions d))"
  have "length A \<le> limit"
    unfolding A_def using assms(2)
      length_filter_le [of "\<lambda>a. a_drone_id a = drone \<and> a_acked_at a = None" "backend_actions d"]
    by (simp only: length_sort)
  then have dec: "decode_all (\<lambda>a. ok_or (a_action a) ''invalid action'') A = Inr ms"
    using assms(1) by (simp add: pending_actions_def A_def [symmetric])
  then have ms: "map a_action A = map Some ms"
    by (auto simp: decode_all_Inr ok_or_def list_eq_iff_nth_eq split: option.splits)
  have im: "Some ` set ms = a_action ` set A"
    using arg_cong [OF ms, of set] by simp
  have mem: "m \<in> set ms \<longleftrightarrow> (\<exists>a\<in>set A. a_action a = Some m)" for m
  proof -
    have "m \<in> set ms \<longleftrightarrow> Some m \<in> Some ` set ms" by auto
    also have "\<dots> \<longleftrightarrow> (\<exists>a\<in>set A. a_action a = Some m)" unfolding im image_iff by (simp add: eq_commute)
    finally show ?thesis .
  qed
  have "set A = {a \<in> set (backend_actions d). a_drone_id a = drone \<and> a_acked_at a = None}"
    by (simp add: A_def)
  then show ?thesis unfolding unacked_def by (auto simp: mem)
qed

lemma unacked_append:
  assumes "backend_actions d' = backend_actions d @ [a]"
  shows "unacked dr d' = unacked dr d \<union>
    (if a_drone_id a = dr \<and> a_acked_at a = None then set_option (a_action a) else {})"
  unfolding unacked_def assms by (cases "a_action a") auto

lemma unacked_create:
  assumes "create_pending_action show_id samples now i drone act d = Inr d'"
  shows "unacked dr d' = unacked dr d \<union> (if dr = drone then
    {\<lparr> am_action_id = name_new_random action_prefix samples, am_backend_id = i,
       am_drone_id = drone, am_action = act \<rparr>} else {})"
proof -
  have "backend_actions d' = backend_actions d @ [\<lparr> a_id = name_new_random action_prefix samples,
      a_backend_id = i, a_drone_id = drone,
      a_action = Some \<lparr> am_action_id = name_new_random action_prefix samples, am_backend_id = i,
                        am_drone_id = drone, am_action = act \<rparr>,
      a_created_at = now, a_acked_at = None \<rparr>]"
    using assms by (auto simp: create_pending_action_def emit_with_key_def Let_def split: if_splits)
  from unacked_append [OF this] show ?thesis by simp
qed

lemma unacked_ack:
  "unacked dr (ack_pending_action now i drone d) =
     {m. \<exists>a\<in>set (backend_actions d). a_drone_id a = dr \<and> a_acked_at a = None \<and> a_action a = Some m
        \<and> (a_id a = i \<longrightarrow> dr \<noteq> drone)}"
  by (auto simp: unacked_def ack_pending_action_def set_update_where)

lemma route_of_row_eq:
  assumes "row_consistent b" and "b_state b = Some st" and "valid_name backend_prefix (b_id b)"
    and "cluster_from_str hp (b_cluster b) = Inr cl" and "decode_subdomain (b_subdomain b) = Inr sd"
  shows "route_of_row hp b secret user data =
    (let partial = \<lparr> pr_backend_id = b_id b, pr_secret_token = secret, pr_cluster = cl,
                     pr_user = user, pr_user_data = data, pr_subdomain = sd \<rparr>
     in Inr (case st of Ready a \<Rightarrow> Available (set_address partial a)
             | _ \<Rightarrow> if StTerminating \<le> status st then NotFound else Pending partial))"
proof -
  have n: "decode_backend_name (b_id b) = Inr (b_id b)"
    using assms(3) by (simp add: decode_backend_name_def name_try_from_Inr [THEN iffD2])
  show ?thesis
    using assms(1,2,4,5) n
    by (cases st)
       (auto simp: route_of_row_def row_consistent_def status_to_string_def finish_route_def Let_def
          status_order_defs)
qed

lemma route_expiry_find:
  "find_row (\<lambda>t. t_token t = tok) (map (\<lambda>t. t\<lparr> t_expiration_time := f t \<rparr>) ts) =
     map_option (\<lambda>t. t\<lparr> t_expiration_time := f t \<rparr>) (find_row (\<lambda>t. t_token t = tok) ts)"
  by (induction ts) (simp_all add: find_row_def)

section \<open>A small cluster with one backend\<close>

definition example_backend :: backend_row where
  "example_backend = \<lparr> b_id = ''b1'', b_cluster = ''c'', b_last_status = ''ready'', b_last_status_time = 0,
     b_last_status_number = Some 50, b_cluster_address = Some (Inr (''a'', 80)),
     b_state = Some (Ready (''a'', 80)), b_drone_id = 1, b_expiration_time = None,
     b_allowed_idle_seconds = None, b_last_keepalive = 0, b_static_token = None, b_subdomain = None \<rparr>"

definition example_key :: key_row where
  "example_key = \<lparr> k_id = ''b1'', k_namespace = [], k_key_name = ''k'', k_tag = [],
     k_expires_at = secs 60, k_fencing_token = 0, k_allow_renew = True \<rparr>"

definition example_token :: token_row where
  "example_token = \<lparr> t_token = ''tok'', t_backend_id = ''b1'', t_expiration_time = 5,
     t_username = Some ''u'', t_auth = [], t_secret_token = ''sec'' \<rparr>"

definition example_history :: "state_row list" where
  "example_history = [\<lparr> s_id = 1, s_backend_id = ''b1'', s_state = Some Scheduled, s_created_at = 0 \<rparr>,
     \<lparr> s_id = 2, s_backend_id = ''b1'', s_state = Some (Ready (''a'', 80)), s_created_at = 0 \<rparr>]"

definition example_backend_db :: db where
  "example_backend_db = example_db\<lparr> backends := [example_backend], backend_keys := [example_key],
     tokens := [example_token], backend_states := example_history, next_state_id := 3 \<rparr>"

definition example_action_db :: db where
  "example_action_db = projr (create_pending_action (\<lambda>_. ''1'') (replicate 14 0) 3 ''b1'' 1
     (Terminate Soft Swept) example_backend_db)"

lemmas example_backend_defs = example_backend_db_def example_backend_def example_key_def
  example_token_def example_history_def example_defs

lemma example_backend_db_ok: "db_ok example_backend_db"
  by (simp add: db_ok_def schema_ok_def terminated_unkeyed_def history_ok_def ids_ok_def history_def
      row_consistent_def status_int_def status_to_string_def unique_on_def example_backend_defs
      status_order_defs)

lemma example_backend_row:
  "find_row (\<lambda>b. b_id b = ''b1'') (backends example_backend_db) = Some example_backend"
  by (simp add: example_backend_db_def find_row_def example_backend_def)

section \<open>Properties\<close>



text \<open>
  C23: Cleaning up terminated backends always succeeds: no row that references a deleted backend
  is left, so the transaction is never aborted by a foreign key, every invariant is kept, only
  backends terminated for longer than the minimum age are deleted, and every other backend keeps
  its row and its key.
\<close>

theorem cleanup_safe:
  assumes "db_ok d"
  shows "\<exists>d'. cleanup now days n d = Inr d' \<and> db_ok d'
    \<and> backend_keys d' = backend_keys d
    \<and> (\<forall>b\<in>set (backends d). b \<notin> set (backends d') \<longrightarrow>
         b_last_status b = status_to_string StTerminated \<and> secs (days * 86400) < now - b_last_status_time b)
    \<and> set (backends d') \<subseteq> set (backends d)"
proof -
  let ?I = "set (cleanup_ids now days n d)"
  have un: "\<forall>k\<in>set (backend_keys d). k_id k \<notin> ?I" using cleanup_ids_unkeyed [OF assms] by blast
  have keys: "backend_keys (cleaned now ?I d) = backend_keys d"
    using un by (auto simp: cleaned_def delete_where_def filter_id_conv)
  have del: "b_last_status b = status_to_string StTerminated \<and> secs (days * 86400) < now - b_last_status_time b"
    if "b \<in> set (backends d)" "b \<notin> set (backends (cleaned now ?I d))" for b
  proof -
    from that have "b_id b \<in> ?I" by (simp add: cleaned_def)
    then obtain b2 where b2: "b2 \<in> set (backends d)" "b_id b2 = b_id b"
      "b_last_status b2 = status_to_string StTerminated" "secs (days * 86400) < now - b_last_status_time b2"
      by (blast dest: cleanup_ids_terminated)
    then have "b2 = b" using unique_onD [OF unique_backends [OF assms] b2(1) that(1)] by simp
    with b2 show ?thesis by simp
  qed
  have "set (backends (cleaned now ?I d)) \<subseteq> set (backends d)" by (auto simp: cleaned_def)
  with keys del cleanup_eq [OF assms, of now days n] db_ok_cleaned [OF assms un, of now]
  show ?thesis by blast
qed

theorem cleanup_safe_witness:
  "\<exists>d'. cleanup (secs 100) 0 10 example_backend_db = Inr d' \<and> db_ok d'"
  using cleanup_safe [OF example_backend_db_ok] by blast





text \<open>
  The lookup of a token does not look at its expiration time: changing the expiration times
  of all tokens, to the past or to the future, changes no answer. A token stops working when it
  is deleted, not when it expires.
\<close>

theorem token_expiry_not_checked:
  "route_info_for_token hp tok (d\<lparr> tokens := map (\<lambda>t. t\<lparr> t_expiration_time := f t \<rparr>) (tokens d) \<rparr>)
     = route_info_for_token hp tok d"
  by (cases "find_row (\<lambda>t. t_token t = tok) (tokens d)")
     (simp_all add: route_info_for_token_def route_info_for_static_token_def route_expiry_find
       split: option.split)



end
