(* ===== verification/Connect.thy ===== *)
theory Connect
  imports Db_Backend
begin

text \<open>
  Connecting a client to a backend, from \<open>plane/src/database/connect.rs\<close>: looking up the key,
  spawning a backend that holds it, creating tokens, and the loop that retries lost races.

  \<open>attempt_connect\<close> runs several statements on the connection pool, and other requests run between
  them. Its argument \<open>env\<close> is that interference: \<open>env i\<close> is what happens to the database right before
  the statement of number \<open>i\<close>, and \<open>clock i\<close> is \<open>now()\<close> of that statement. The random choices of an
  attempt are the record \<open>connect_random\<close>. A failing \<open>expect\<close> is \<open>DatabaseError (Panic _)\<close>.

  The key leases are an instance of \<open>renewable_lease\<close>.
\<close>

section \<open>Definitions\<close>

definition TOKEN_LIFETIME_SECONDS :: int where "TOKEN_LIFETIME_SECONDS = 3600"

definition violates_uniqueness :: "sql_error \<Rightarrow> bool" where
  "violates_uniqueness err = (err = UniqueViolation)"

datatype ConnectError =
    NoDroneAvailable
  | KeyHeld string string
  | KeyHeldUnhealthy
  | KeyUnheldNoSpawnConfig
  | FailedToRemoveKey
  | FailedToAcquireKey
  | DatabaseError sql_error
  | Serialization
  | NoClusterProvided
  | Other sql_error

definition retryable :: "ConnectError \<Rightarrow> bool" where
  "retryable e = (e \<in> {FailedToRemoveKey, FailedToAcquireKey})"

text \<open>\<open>PgInterval::try_from(Duration::from_secs(limit as u64)).expect("valid interval")\<close>: the limit
  is cast to 64 bits without sign, and the interval has 63 bits of microseconds.\<close>

definition lifetime_interval :: "int option \<Rightarrow> (time option) sql" where
  "lifetime_interval limit = (case limit of None \<Rightarrow> Inr None
     | Some l \<Rightarrow> (let n = uint (word_of_int l :: 64 word)
                  in if n * 1000000 < 2 ^ 63 then Inr (Some (secs n)) else Inl (Panic ''valid interval'')))"

text \<open>\<open>extract(epoch from now()) * 1000\<close>, rounded to a \<open>bigint\<close>.\<close>

definition epoch_millis :: "time \<Rightarrow> int" where
  "epoch_millis now = (now + 500) div 1000"

text \<open>The statement that inserts the backend and its key.\<close>

definition new_backend_row ::
  "time \<Rightarrow> BackendName \<Rightarrow> SpawnConfig \<Rightarrow> ClusterName \<Rightarrow> NodeId \<Rightarrow> BearerToken option \<Rightarrow> time option
     \<Rightarrow> backend_row" where
  "new_backend_row now backend_id spawn_config cluster drone static_token lifetime =
     \<lparr> b_id = backend_id, b_cluster = cluster, b_last_status = status_to_string StScheduled,
       b_last_status_time = now, b_last_status_number = Some (as_int StScheduled),
       b_cluster_address = None, b_state = Some Scheduled, b_drone_id = drone,
       b_expiration_time = map_option (\<lambda>l. now + l) lifetime,
       b_allowed_idle_seconds = sc_max_idle_seconds spawn_config, b_last_keepalive = now,
       b_static_token = static_token, b_subdomain = sc_subdomain spawn_config \<rparr>"

definition new_key_row :: "time \<Rightarrow> BackendName \<Rightarrow> KeyConfig \<Rightarrow> key_row" where
  "new_key_row now backend_id key =
     \<lparr> k_id = backend_id, k_namespace = kc_namespace key, k_key_name = kc_name key,
       k_tag = kc_tag key, k_expires_at = now + KEY_LEASE_EXPIRATION,
       k_fencing_token = epoch_millis now, k_allow_renew = True \<rparr>"

definition insert_backend ::
  "time \<Rightarrow> BackendName \<Rightarrow> KeyConfig \<Rightarrow> SpawnConfig \<Rightarrow> ClusterName \<Rightarrow> NodeId \<Rightarrow> BearerToken option
     \<Rightarrow> time option \<Rightarrow> db \<Rightarrow> (int \<times> db) sql" where
  "insert_backend now backend_id key spawn_config cluster drone static_token lifetime d =
     (if exists_row (\<lambda>b. b_id b = backend_id) (backends d)
         \<or> exists_row (\<lambda>k. k_id k = backend_id) (backend_keys d)
         \<or> exists_row (\<lambda>k. (k_namespace k, k_key_name k) = (kc_namespace key, kc_name key))
              (backend_keys d)
      then Inl UniqueViolation
      else if \<not> exists_row (\<lambda>r. d_id r = drone) (drones d) then Inl ForeignKeyViolation
      else let key_row = new_key_row now backend_id key in
        Inr (k_fencing_token key_row,
          d\<lparr> backends := backends d @ [new_backend_row now backend_id spawn_config cluster drone
                                        static_token lifetime],
              backend_keys := backend_keys d @ [key_row] \<rparr>))"

definition acquired_key :: "KeyConfig \<Rightarrow> DroneForSpawn \<Rightarrow> int \<Rightarrow> AcquiredKey" where
  "acquired_key key drone fencing_token =
     \<lparr> ak_key = key,
       ak_deadlines =
         \<lparr> kd_renew_at = ds_last_local_time drone + KEY_LEASE_RENEW_AFTER,
           kd_soft_terminate_at = ds_last_local_time drone + KEY_LEASE_SOFT_TERMINATE_AFTER,
           kd_hard_terminate_at = ds_last_local_time drone + KEY_LEASE_SOFT_TERMINATE_AFTER \<rparr>,
       ak_token = fencing_token \<rparr>"

record connect_random =
  rn_key :: "nat list"
  rn_backend :: "nat list"
  rn_action :: "nat list"
  rn_static_token :: string
  rn_token :: string
  rn_secret_token :: string

definition create_backend_with_key ::
  "(NodeId \<Rightarrow> string) \<Rightarrow> connect_random \<Rightarrow> time \<Rightarrow> KeyConfig \<Rightarrow> SpawnConfig \<Rightarrow> ClusterName \<Rightarrow> DroneForSpawn
     \<Rightarrow> BearerToken option \<Rightarrow> db \<Rightarrow> ConnectError + BackendName \<times> db" where
  "create_backend_with_key show_id rn now key spawn_config cluster drone_for_spawn static_token d =
     (let backend_id = or_random backend_prefix (rn_backend rn) (sc_id spawn_config) in
      bind_result (map_err DatabaseError
          (lifetime_interval (sc_lifetime_limit_seconds spawn_config))) (\<lambda>lifetime.
      bind_result (map_err (\<lambda>err. if violates_uniqueness err then FailedToAcquireKey
                                  else DatabaseError err)
          (insert_backend now backend_id key spawn_config cluster (ds_id drone_for_spawn)
             static_token lifetime d)) (\<lambda>(fencing_token, d1).
      bind_result (map_err DatabaseError (emit_state_change now backend_id Scheduled d1)) (\<lambda>d2.
      let pending_action = Spawn (sc_executable spawn_config)
            (acquired_key key drone_for_spawn fencing_token) static_token in
      bind_result (map_err Other (create_pending_action show_id (rn_action rn) now backend_id
          (ds_id drone_for_spawn) pending_action d2)) (\<lambda>d3.
        Inr (backend_id, d3))))))"

definition create_token ::
  "connect_random \<Rightarrow> time \<Rightarrow> BackendName \<Rightarrow> string option \<Rightarrow> (string \<times> json) list \<Rightarrow> db
     \<Rightarrow> ConnectError + (BearerToken \<times> SecretToken) \<times> db" where
  "create_token rn now backend user auth d =
     (if exists_row (\<lambda>t. t_token t = rn_token rn) (tokens d) then Inl (DatabaseError UniqueViolation)
      else if \<not> exists_row (\<lambda>b. b_id b = backend) (backends d) then Inl (DatabaseError ForeignKeyViolation)
      else Inr ((rn_token rn, rn_secret_token rn),
        d\<lparr> tokens := tokens d @ [\<lparr> t_token = rn_token rn, t_backend_id = backend,
             t_expiration_time = now + secs TOKEN_LIFETIME_SECONDS, t_username = user, t_auth = auth,
             t_secret_token = rn_secret_token rn \<rparr>] \<rparr>))"

definition revoke :: "RevokeRequest \<Rightarrow> db \<Rightarrow> db" where
  "revoke request d = d\<lparr> tokens := delete_where (\<lambda>t. t_backend_id t = rr_backend_id request
     \<and> t_username t = Some (rr_user request)) (tokens d) \<rparr>"

text \<open>The tail of \<open>attempt_connect\<close>: the token of the response, unless it is static.\<close>

definition connection_token ::
  "connect_random \<Rightarrow> time \<Rightarrow> BearerToken option \<Rightarrow> BackendName \<Rightarrow> ConnectRequest \<Rightarrow> db
     \<Rightarrow> ConnectError + (BearerToken \<times> SecretToken option) \<times> db" where
  "connection_token rn now static backend_id request d = (case static of
     Some token \<Rightarrow> Inr ((token, None), d)
   | None \<Rightarrow> bind_result (create_token rn now backend_id (cr_user request) (cr_auth request) d)
       (\<lambda>((token, secret_token), d'). Inr ((token, Some secret_token), d')))"

text \<open>What an attempt takes from its surroundings: the parsers and printers, the random order of the
  drones, and the client's URL of a backend's status.\<close>

record connect_ctx =
  cx_host_parse :: "string \<Rightarrow> bool"
  cx_status_url :: "BackendName \<Rightarrow> string"
  cx_show_id :: "NodeId \<Rightarrow> string"
  cx_shuffle :: "(node_row \<times> drone_row) list \<Rightarrow> (node_row \<times> drone_row) list"
  cx_default_cluster :: "ClusterName option"
  cx_best_of :: int

text \<open>The second half of \<open>attempt_connect\<close>, once the key is known to be free.\<close>

definition spawn_and_connect ::
  "connect_ctx \<Rightarrow> connect_random \<Rightarrow> (nat \<Rightarrow> db \<Rightarrow> db) \<Rightarrow> (nat \<Rightarrow> time) \<Rightarrow> ConnectRequest \<Rightarrow> KeyConfig \<Rightarrow> db
     \<Rightarrow> (ConnectError + ConnectResponse) \<times> db" where
  "spawn_and_connect cx rn env clock request key d =
     (case cr_spawn_config request of
        None \<Rightarrow> (Inl KeyUnheldNoSpawnConfig, d)
      | Some spawn_config \<Rightarrow>
     (case (case sc_cluster spawn_config of Some c \<Rightarrow> Some c | None \<Rightarrow> cx_default_cluster cx) of
        None \<Rightarrow> (Inl NoClusterProvided, d)
      | Some cluster \<Rightarrow>
     (let d2 = env 2 d in
      case pick_drone_for_spawn (cx_shuffle cx) (clock 2) cluster (sc_pool spawn_config)
             (cx_best_of cx) d2 of
        Inl e \<Rightarrow> (Inl (DatabaseError e), d2)
      | Inr None \<Rightarrow> (Inl NoDroneAvailable, d2)
      | Inr (Some drone) \<Rightarrow>
     (let bearer_token = (if sc_use_static_token spawn_config
                          then Some (new_random_static (rn_static_token rn)) else None);
          d3 = env 3 d2 in
      case create_backend_with_key (cx_show_id cx) rn (clock 3) key spawn_config cluster drone
             bearer_token d3 of
        Inl e \<Rightarrow> (Inl e, d3)
      | Inr (backend_id, d4) \<Rightarrow>
     (let d5 = env 4 d4 in
      case connection_token rn (clock 4) bearer_token backend_id request d5 of
        Inl e \<Rightarrow> (Inl e, d5)
      | Inr ((token, secret_token), d6) \<Rightarrow>
          (Inr (connect_response_new (cx_status_url cx) backend_id cluster True StScheduled token
                  secret_token (sc_subdomain spawn_config) (Some (ds_drone drone))), d6))))))"

definition attempt_connect ::
  "connect_ctx \<Rightarrow> connect_random \<Rightarrow> (nat \<Rightarrow> db \<Rightarrow> db) \<Rightarrow> (nat \<Rightarrow> time) \<Rightarrow> ConnectRequest \<Rightarrow> db
     \<Rightarrow> (ConnectError + ConnectResponse) \<times> db" where
  "attempt_connect cx rn env clock request d =
     (case cr_key request of
        None \<Rightarrow> spawn_and_connect cx rn env clock request (key_config_new_random (rn_key rn)) d
      | Some key \<Rightarrow>
     (let d0 = env 0 d in
      case check_key (cx_host_parse cx) (clock 0) key d0 of
        Inl e \<Rightarrow> (Inl (DatabaseError e), d0)
      | Inr None \<Rightarrow> spawn_and_connect cx rn env clock request key d0
      | Inr (Some key_result) \<Rightarrow>
          (let d1 = env 1 d0 in
           if is_live key_result then
             if bk_tag key_result \<noteq> kc_tag key
             then (Inl (KeyHeld (kc_tag key) (bk_tag key_result)), d0)
             else (case connection_token rn (clock 1) (bk_static_connection_token key_result)
                          (bk_id key_result) request d1 of
                     Inl e \<Rightarrow> (Inl e, d1)
                   | Inr ((token, secret_token), d2) \<Rightarrow>
                       (Inr (connect_response_new (cx_status_url cx) (bk_id key_result)
                          (bk_cluster key_result) False (bk_status key_result) token secret_token
                          (bk_subdomain key_result) None), d2))
           else case remove_key (clock 1) (bk_id key_result) d1 of
                  (removed, d2) \<Rightarrow>
                    if \<not> removed then (Inl FailedToRemoveKey, d2)
                    else spawn_and_connect cx rn env clock request key d2)))"

text \<open>Every attempt has its own randomness, interference and clock.\<close>

type_synonym attempts = "nat \<Rightarrow> connect_random \<times> (nat \<Rightarrow> db \<Rightarrow> db) \<times> (nat \<Rightarrow> time)"

function connect_loop ::
  "connect_ctx \<Rightarrow> attempts \<Rightarrow> ConnectRequest \<Rightarrow> nat \<Rightarrow> db \<Rightarrow> (ConnectError + ConnectResponse) \<times> db" where
  "connect_loop cx runs request attempt d =
     (case runs attempt of (rn, env, clock) \<Rightarrow>
        case attempt_connect cx rn env clock request d of
          (Inr response, d') \<Rightarrow> (Inr response, d')
        | (Inl error, d') \<Rightarrow>
            if \<not> retryable error \<or> attempt \<ge> 3 then (Inl error, d')
            else connect_loop cx runs request (attempt + 1) d')"
  by pat_completeness auto
termination by (relation "measure (\<lambda>(cx, runs, request, attempt, d). 3 - attempt)") auto

definition connect ::
  "connect_ctx \<Rightarrow> attempts \<Rightarrow> ConnectRequest \<Rightarrow> db \<Rightarrow> (ConnectError + ConnectResponse) \<times> db" where
  "connect cx runs request d = connect_loop cx runs request 1 d"

definition clean_up_tokens :: "time \<Rightarrow> db \<Rightarrow> db" where
  "clean_up_tokens now d = d\<lparr> tokens := delete_where (\<lambda>t. t_expiration_time t < now) (tokens d) \<rparr>"

text \<open>The key leases as the store of a lease.\<close>

definition key_held :: "db \<Rightarrow> string \<times> string \<Rightarrow> (BackendName \<times> time) option" where
  "key_held d key = map_option (\<lambda>k. (k_id k, k_expires_at k))
     (find_row (\<lambda>k. (k_namespace k, k_key_name k) = key) (backend_keys d))"

definition expire_key :: "time \<Rightarrow> string \<times> string \<Rightarrow> db \<Rightarrow> db" where
  "expire_key now key d =
     (case key_held d key of Some (h, _) \<Rightarrow> snd (remove_key now h d) | None \<Rightarrow> d)"

definition key_acquire ::
  "(NodeId \<Rightarrow> string) \<Rightarrow> connect_random \<Rightarrow> string \<Rightarrow> SpawnConfig \<Rightarrow> ClusterName \<Rightarrow> DroneForSpawn
     \<Rightarrow> BearerToken option \<Rightarrow> time \<Rightarrow> string \<times> string \<Rightarrow> BackendName \<Rightarrow> db \<Rightarrow> bool \<times> db" where
  "key_acquire show_id rn tag spawn_config cluster drone static_token now key backend d =
     (let d1 = expire_key now key d
      in case create_backend_with_key show_id rn now
                \<lparr> kc_name = snd key, kc_namespace = fst key, kc_tag = tag \<rparr>
                (spawn_config\<lparr> sc_id := Some backend \<rparr>) cluster drone static_token d1 of
           Inl _ \<Rightarrow> (False, d1) | Inr (_, d2) \<Rightarrow> (True, d2))"

definition key_renew :: "time \<Rightarrow> BackendName \<Rightarrow> db \<Rightarrow> db option" where
  "key_renew now backend d = (case renew_key now backend d of Inl _ \<Rightarrow> None | Inr d' \<Rightarrow> Some d')"

text \<open>A key is let go when its backend is reported terminated.\<close>

definition key_release ::
  "time \<Rightarrow> BackendState \<Rightarrow> string \<times> string \<Rightarrow> BackendName \<Rightarrow> db \<Rightarrow> db" where
  "key_release now st key backend d =
     (if map_option fst (key_held d key) = Some backend
      then case update_state now backend st d of Inl _ \<Rightarrow> d | Inr (_, d') \<Rightarrow> d'
      else d)"

declare connect_loop.simps [simp del]

section \<open>Lemmas on spawning\<close>

lemma lifetime_interval_u31:
  assumes "0 \<le> l" and "l < 2 ^ 31"
  shows "lifetime_interval (Some l) = Inr (Some (secs l))"
proof -
  have "uint (word_of_int l :: 64 word) = l" using assms by (simp add: uint_word_of_int)
  then show ?thesis using assms by (simp add: lifetime_interval_def)
qed

lemma lifetime_interval_negative:
  assumes "- (2 ^ 31) \<le> l" and "l < 0"
  shows "lifetime_interval (Some l) = Inl (Panic ''valid interval'')"
proof -
  have "uint (word_of_int l :: 64 word) = (l + 2 ^ 64) mod 2 ^ 64" by (simp add: uint_word_of_int)
  also have "\<dots> = l + 2 ^ 64" using assms by (intro mod_pos_pos_trivial) simp_all
  finally show ?thesis using assms by (simp add: lifetime_interval_def)
qed

lemma new_backend_row_simps [simp]:
  "b_id (new_backend_row now i sc cl dr tok lt) = i"
  "b_state (new_backend_row now i sc cl dr tok lt) = Some Scheduled"
  "b_last_status (new_backend_row now i sc cl dr tok lt) = status_to_string StScheduled"
  "b_cluster (new_backend_row now i sc cl dr tok lt) = cl"
  "b_subdomain (new_backend_row now i sc cl dr tok lt) = sc_subdomain sc"
  "b_static_token (new_backend_row now i sc cl dr tok lt) = tok"
  "b_drone_id (new_backend_row now i sc cl dr tok lt) = dr"
  "row_consistent (new_backend_row now i sc cl dr tok lt)"
  by (simp_all add: new_backend_row_def row_consistent_def status_int_def)

lemma new_key_row_simps [simp]:
  "k_id (new_key_row now i key) = i"
  "k_namespace (new_key_row now i key) = kc_namespace key"
  "k_key_name (new_key_row now i key) = kc_name key"
  "k_tag (new_key_row now i key) = kc_tag key"
  "k_expires_at (new_key_row now i key) = now + KEY_LEASE_EXPIRATION"
  "k_fencing_token (new_key_row now i key) = epoch_millis now"
  "k_allow_renew (new_key_row now i key)"
  by (simp_all add: new_key_row_def)

lemma status_string_inj [simp]: "status_to_string a = status_to_string b \<longleftrightarrow> a = b"
  by (cases a; cases b) (simp_all add: status_to_string_def)

text \<open>A successful spawn: the key and the id were free, and exactly these rows are new.\<close>

definition scheduled :: "time \<Rightarrow> BackendName \<Rightarrow> backend_row \<Rightarrow> key_row \<Rightarrow> db \<Rightarrow> db" where
  "scheduled now i row krow d = emit_impl now (Some i) (PState Scheduled)
     (d\<lparr> backends := backends d @ [row], backend_keys := backend_keys d @ [krow],
         backend_states := backend_states d @ [\<lparr> s_id = next_state_id d, s_backend_id = i,
           s_state = Some Scheduled, s_created_at = now \<rparr>],
         next_state_id := next_state_id d + 1 \<rparr>)"

lemma create_backend_cases:
  assumes "create_backend_with_key show_id rn now key sc cl dr tok d = Inr (i, d')"
  obtains lt where
    "create_pending_action show_id (rn_action rn) now i (ds_id dr)
       (Spawn (sc_executable sc) (acquired_key key dr (epoch_millis now)) tok)
       (scheduled now i (new_backend_row now i sc cl (ds_id dr) tok lt) (new_key_row now i key) d) = Inr d'"
    and "i = or_random backend_prefix (rn_backend rn) (sc_id sc)"
    and "\<forall>b\<in>set (backends d). b_id b \<noteq> i" and "\<forall>k\<in>set (backend_keys d). k_id k \<noteq> i"
    and "\<forall>k\<in>set (backend_keys d). (k_namespace k, k_key_name k) \<noteq> (kc_namespace key, kc_name key)"
    and "ds_id dr \<in> d_id ` set (drones d)"
    and "lifetime_interval (sc_lifetime_limit_seconds sc) = Inr lt"
proof -
  let ?i = "or_random backend_prefix (rn_backend rn) (sc_id sc)"
  from assms obtain lt f d1 d2 where *: "lifetime_interval (sc_lifetime_limit_seconds sc) = Inr lt"
    "insert_backend now ?i key sc cl (ds_id dr) tok lt d = Inr (f, d1)"
    "emit_state_change now ?i Scheduled d1 = Inr d2"
    "create_pending_action show_id (rn_action rn) now ?i (ds_id dr)
       (Spawn (sc_executable sc) (acquired_key key dr f) tok) d2 = Inr d'" "i = ?i"
    unfolding create_backend_with_key_def Let_def
    by (auto simp: bind_result_Inr_iff)
  from *(2) have f: "f = epoch_millis now"
    and d1: "d1 = d\<lparr> backends := backends d @ [new_backend_row now ?i sc cl (ds_id dr) tok lt],
              backend_keys := backend_keys d @ [new_key_row now ?i key] \<rparr>"
    and free: "\<forall>b\<in>set (backends d). b_id b \<noteq> ?i" "\<forall>k\<in>set (backend_keys d). k_id k \<noteq> ?i"
      "\<forall>k\<in>set (backend_keys d). (k_namespace k, k_key_name k) \<noteq> (kc_namespace key, kc_name key)"
      "ds_id dr \<in> d_id ` set (drones d)"
    by (auto simp: insert_backend_def Let_def exists_row_iff split: if_splits intro: rev_image_eqI)
  have "d2 = scheduled now ?i (new_backend_row now ?i sc cl (ds_id dr) tok lt) (new_key_row now ?i key) d"
    using *(3) by (simp add: d1 scheduled_def emit_state_change_def emit_with_key_def Let_def
        exists_row_iff split: if_splits)
  with * f free show thesis by (intro that [of lt]) simp_all
qed

lemma scheduled_tables [simp]:
  "backends (scheduled now i row krow d) = backends d @ [row]"
  "backend_keys (scheduled now i row krow d) = backend_keys d @ [krow]"
  "tokens (scheduled now i row krow d) = tokens d"
  "backend_actions (scheduled now i row krow d) = backend_actions d"
  "nodes (scheduled now i row krow d) = nodes d"
  "drones (scheduled now i row krow d) = drones d"
  "controllers (scheduled now i row krow d) = controllers d"
  "acme_txt_entries (scheduled now i row krow d) = acme_txt_entries d"
  by (simp_all add: scheduled_def)

lemma db_ok_scheduled:
  assumes "db_ok d" and "b_id row = i" and "b_state row = Some Scheduled" and "row_consistent row"
    and "k_id krow = i" and "b_drone_id row \<in> d_id ` set (drones d)"
    and "\<forall>b\<in>set (backends d). b_id b \<noteq> i" and "\<forall>k\<in>set (backend_keys d). k_id k \<noteq> i"
    and "\<forall>k\<in>set (backend_keys d). (k_namespace k, k_key_name k) \<noteq> (k_namespace krow, k_key_name krow)"
  shows "db_ok (scheduled now i row krow d)"
proof -
  let ?s = "\<lparr> s_id = next_state_id d, s_backend_id = i, s_state = Some Scheduled, s_created_at = now \<rparr>"
  let ?e = "d\<lparr> backends := backends d @ [row], backend_keys := backend_keys d @ [krow],
         backend_states := backend_states d @ [?s], next_state_id := next_state_id d + 1 \<rparr>"
  have last: "b_last_status row \<noteq> status_to_string StTerminated"
    using assms(3,4) by (auto simp: row_consistent_def)
  have none: "history d i = []"
    using assms(1,7) by (fastforce simp: history_def db_ok_def schema_ok_def filter_empty_conv)
  have hist: "history ?e j = history d j @ (if j = i then [Scheduled] else [])" for j
    by (simp add: history_def)
  have "schema_ok ?e"
    using assms by (auto simp: db_ok_def schema_ok_def unique_on_append1 exists_row_iff)
  moreover have "\<forall>b\<in>set (backends ?e). row_consistent b" using assms(1,4) by (simp add: db_ok_def)
  moreover have "terminated_unkeyed ?e"
    using assms(1,5,7,8) last assms(2) by (auto simp: db_ok_def terminated_unkeyed_def)
  moreover have "history_ok ?e"
    unfolding history_ok_def hist using assms(1,2,3,7) none by (auto simp: db_ok_def history_ok_def)
  moreover have "ids_ok ?e" using assms(1) by (auto simp: db_ok_def ids_ok_def sorted_wrt_append)
  ultimately show ?thesis unfolding scheduled_def by (intro db_ok_emit) (simp add: db_ok_def)
qed

lemma create_pending_action_tables:
  assumes "create_pending_action show_id samples now i drone act d = Inr d'"
  shows "backends d' = backends d" "backend_keys d' = backend_keys d" "tokens d' = tokens d"
    "backend_states d' = backend_states d" "nodes d' = nodes d" "drones d' = drones d"
    "controllers d' = controllers d" "acme_txt_entries d' = acme_txt_entries d"
  using assms by (auto simp: create_pending_action_def emit_with_key_def Let_def split: if_splits)

lemma create_backend_tables:
  assumes "create_backend_with_key show_id rn now key sc cl dr tok d = Inr (i, d')"
  obtains lt where "backends d' = backends d @ [new_backend_row now i sc cl (ds_id dr) tok lt]"
    "backend_keys d' = backend_keys d @ [new_key_row now i key]"
    "tokens d' = tokens d" "nodes d' = nodes d" "drones d' = drones d"
    "controllers d' = controllers d" "acme_txt_entries d' = acme_txt_entries d"
    "\<forall>k\<in>set (backend_keys d). (k_namespace k, k_key_name k) \<noteq> (kc_namespace key, kc_name key)"
  using create_backend_cases [OF assms]
  by (metis create_pending_action_tables(1-3,5-8) scheduled_tables(1-3,5-8))

lemma db_ok_create_backend:
  assumes "db_ok d" and "create_backend_with_key show_id rn now key sc cl dr tok d = Inr (i, d')"
  shows "db_ok d'"
proof -
  from create_backend_cases [OF assms(2)] obtain lt where *:
    "create_pending_action show_id (rn_action rn) now i (ds_id dr)
       (Spawn (sc_executable sc) (acquired_key key dr (epoch_millis now)) tok)
       (scheduled now i (new_backend_row now i sc cl (ds_id dr) tok lt) (new_key_row now i key) d) = Inr d'"
    "\<forall>b\<in>set (backends d). b_id b \<noteq> i" "\<forall>k\<in>set (backend_keys d). k_id k \<noteq> i"
    "\<forall>k\<in>set (backend_keys d). (k_namespace k, k_key_name k) \<noteq> (kc_namespace key, kc_name key)"
    "ds_id dr \<in> d_id ` set (drones d)" by metis
  have "db_ok (scheduled now i (new_backend_row now i sc cl (ds_id dr) tok lt) (new_key_row now i key) d)"
    using assms(1) * by (intro db_ok_scheduled) simp_all
  from db_ok_create_pending_action [OF this *(1)] show ?thesis .
qed

section \<open>Lemmas on tokens\<close>

lemma create_token_InrD:
  assumes "create_token rn now i user auth d = Inr ((tok, sec), d')"
  shows "tok = rn_token rn" "sec = rn_secret_token rn"
    "d' = d\<lparr> tokens := tokens d @ [\<lparr> t_token = tok, t_backend_id = i,
             t_expiration_time = now + secs TOKEN_LIFETIME_SECONDS, t_username = user, t_auth = auth,
             t_secret_token = sec \<rparr>] \<rparr>"
    "i \<in> b_id ` set (backends d)" "tok \<notin> t_token ` set (tokens d)"
  using assms by (auto simp: create_token_def exists_row_iff split: if_splits intro: rev_image_eqI)

lemma db_ok_create_token:
  assumes "db_ok d" and "create_token rn now i user auth d = Inr ((tok, sec), d')"
  shows "db_ok d'"
proof -
  note * = create_token_InrD [OF assms(2)]
  have "schema_ok d'" using assms(1) *(4,5)
    by (auto simp: *(3) db_ok_def schema_ok_def unique_on_append1 exists_row_iff)
  then show ?thesis using assms(1) by (simp add: db_ok_def *(3))
qed

lemma db_ok_tokens_delete: "db_ok d \<Longrightarrow> db_ok (d\<lparr> tokens := delete_where P (tokens d) \<rparr>)"
  by (auto simp: db_ok_def schema_ok_def)

lemma db_ok_revoke: "db_ok d \<Longrightarrow> db_ok (revoke r d)"
  by (simp add: revoke_def db_ok_tokens_delete)

lemma db_ok_clean_up_tokens: "db_ok d \<Longrightarrow> db_ok (clean_up_tokens now d)"
  by (simp add: clean_up_tokens_def db_ok_tokens_delete)

lemma connection_token_cases:
  assumes "connection_token rn now static i request d = Inr ((tok, sec), d')"
  shows "static = Some tok \<and> sec = None \<and> d' = d
    \<or> static = None \<and> (\<exists>s. sec = Some s
         \<and> create_token rn now i (cr_user request) (cr_auth request) d = Inr ((tok, s), d'))"
  using assms by (auto simp: connection_token_def bind_result_Inr_iff split: option.splits)

section \<open>Key leases\<close>

lemma unique_keys:
  "db_ok d \<Longrightarrow> unique_on k_id (backend_keys d)"
  "db_ok d \<Longrightarrow> unique_on (\<lambda>k. (k_namespace k, k_key_name k)) (backend_keys d)"
  by (simp_all add: db_ok_def schema_ok_def)

lemma key_held_Some:
  assumes "db_ok d"
  shows "key_held d key = Some (h, e) \<longleftrightarrow>
    (\<exists>k\<in>set (backend_keys d). (k_namespace k, k_key_name k) = key \<and> k_id k = h \<and> k_expires_at k = e)"
proof
  assume "key_held d key = Some (h, e)"
  then show "\<exists>k\<in>set (backend_keys d). (k_namespace k, k_key_name k) = key \<and> k_id k = h \<and> k_expires_at k = e"
    by (auto simp: key_held_def dest!: find_row_SomeD)
next
  assume "\<exists>k\<in>set (backend_keys d). (k_namespace k, k_key_name k) = key \<and> k_id k = h \<and> k_expires_at k = e"
  then show "key_held d key = Some (h, e)"
    using find_row_key [OF unique_keys(2) [OF assms]] by (auto simp: key_held_def)
qed

lemma key_held_None: "key_held d key = None \<longleftrightarrow> (\<forall>k\<in>set (backend_keys d). (k_namespace k, k_key_name k) \<noteq> key)"
  by (simp add: key_held_def find_row_None_iff)

text \<open>Two databases with the same rows for a key agree on its lease.\<close>

lemma key_held_cong:
  assumes "db_ok d" and "db_ok d'"
    and "\<And>k. (k_namespace k, k_key_name k) = key \<Longrightarrow> k \<in> set (backend_keys d') \<longleftrightarrow> k \<in> set (backend_keys d)"
  shows "key_held d' key = key_held d key"
proof (cases "key_held d' key")
  case None
  then have "key_held d key = None" unfolding key_held_None using assms(3) by blast
  with None show ?thesis by simp
next
  case (Some he)
  obtain h e where he: "he = (h, e)" by fastforce
  have "key_held d key = Some (h, e)"
    using Some assms(3) unfolding he key_held_Some [OF assms(1)] key_held_Some [OF assms(2)] by blast
  with Some he show ?thesis by simp
qed

lemma key_held_delete:
  assumes "db_ok d"
  shows "key_held (d\<lparr> backend_keys := delete_where P (backend_keys d) \<rparr>) key =
    (case find_row (\<lambda>k. (k_namespace k, k_key_name k) = key) (backend_keys d) of
       Some k \<Rightarrow> if P k then None else key_held d key | None \<Rightarrow> None)"
proof (cases "find_row (\<lambda>k. (k_namespace k, k_key_name k) = key) (backend_keys d)")
  case None
  then have "key_held (d\<lparr> backend_keys := delete_where P (backend_keys d) \<rparr>) key = None"
    by (simp add: key_held_None find_row_None_iff)
  with None show ?thesis by simp
next
  case (Some k)
  then have k: "k \<in> set (backend_keys d)" "(k_namespace k, k_key_name k) = key" by (auto dest: find_row_SomeD)
  have ok: "db_ok (d\<lparr> backend_keys := delete_where P (backend_keys d) \<rparr>)"
    using assms by (rule db_ok_keys_delete)
  have uniq: "k' = k" if "k' \<in> set (backend_keys d)" "(k_namespace k', k_key_name k') = key" for k'
    using unique_onD [OF unique_keys(2) [OF assms] that(1) k(1)] that(2) k(2) by simp
  show ?thesis
  proof (cases "P k")
    case True
    then show ?thesis using Some uniq by (auto simp: key_held_None)
  next
    case False
    have "key_held (d\<lparr> backend_keys := delete_where P (backend_keys d) \<rparr>) key = key_held d key"
      using False uniq by (intro key_held_cong [OF assms ok]) auto
    then show ?thesis using Some False by simp
  qed
qed

lemma key_held_row:
  assumes "key_held d key = Some (h, e)"
  obtains k where "find_row (\<lambda>k. (k_namespace k, k_key_name k) = key) (backend_keys d) = Some k"
    "k_id k = h" "k_expires_at k = e"
  using assms by (auto simp: key_held_def)

lemma key_held_remove_key:
  assumes "db_ok d" and "key_held d key = Some (h, e)"
  shows "key_held (snd (remove_key now h' d)) key = (if h' = h \<and> e < now then None else Some (h, e))"
proof -
  from assms(2) obtain k where
    "find_row (\<lambda>k. (k_namespace k, k_key_name k) = key) (backend_keys d) = Some k"
    "k_id k = h" "k_expires_at k = e" by (rule key_held_row)
  then show ?thesis using assms(2) by (simp add: remove_key_def Let_def key_held_delete [OF assms(1)])
qed

lemma key_held_remove_None:
  assumes "db_ok d" and "key_held d key = None"
  shows "key_held (snd (remove_key now h d)) key = None"
  using assms(2) by (auto simp: key_held_None remove_key_def Let_def)

lemma key_held_append:
  assumes "\<forall>k\<in>set (backend_keys d). (k_namespace k, k_key_name k) \<noteq> (k_namespace r, k_key_name r)"
    and "backend_keys d' = backend_keys d @ [r]"
  shows "key_held d' key = (if key = (k_namespace r, k_key_name r) then Some (k_id r, k_expires_at r)
    else key_held d key)"
proof (cases "key = (k_namespace r, k_key_name r)")
  case True
  then have "find_row (\<lambda>k. (k_namespace k, k_key_name k) = key) (backend_keys d) = None"
    using assms(1) by (auto simp: find_row_None_iff)
  with True show ?thesis by (simp add: key_held_def assms(2) find_row_append)
next
  case False
  then show ?thesis by (auto simp: key_held_def assms(2) find_row_append split: option.splits)
qed

text \<open>What an acquisition does: the expired lease goes, and the new one is granted only when no lease
  is left.\<close>

lemma expire_key_lease:
  assumes "db_ok d"
  shows "db_ok (expire_key now key d)"
    and "key_held (expire_key now key d) key = (case key_held d key of Some (h, e) \<Rightarrow> if e < now then None else Some (h, e)
           | None \<Rightarrow> None)"
    and "key' \<noteq> key \<Longrightarrow> key_held (expire_key now key d) key' = key_held d key'"
proof -
  show "db_ok (expire_key now key d)" using assms(1) by (auto simp: expire_key_def db_ok_remove_key split: option.splits)
  show "key_held (expire_key now key d) key = (case key_held d key of Some (h, e) \<Rightarrow> if e < now then None else Some (h, e)
      | None \<Rightarrow> None)"
    using assms(1) by (auto simp: expire_key_def key_held_remove_key split: option.splits)
  assume ne: "key' \<noteq> key"
  show "key_held (expire_key now key d) key' = key_held d key'"
  proof (cases "key_held d key")
    case None
    then show ?thesis by (simp add: expire_key_def)
  next
    case (Some he)
    obtain h e where he: "he = (h, e)" by fastforce
    then obtain k where k: "k \<in> set (backend_keys d)" "(k_namespace k, k_key_name k) = key" "k_id k = h"
      using Some key_held_Some [OF assms(1)] by blast
    have "key_held (snd (remove_key now h d)) key' = key_held d key'"
    proof (cases "key_held d key'")
      case None
      then show ?thesis by (simp add: key_held_remove_None [OF assms(1)])
    next
      case (Some he')
      obtain h' e' where he': "he' = (h', e')" by fastforce
      then obtain k' where k': "k' \<in> set (backend_keys d)" "(k_namespace k', k_key_name k') = key'" "k_id k' = h'"
        using Some key_held_Some [OF assms(1)] by blast
      have "h' \<noteq> h"
      proof
        assume "h' = h"
        then have "k = k'" using unique_onD [OF unique_keys(1) [OF assms(1)] k(1) k'(1)] k(3) k'(3) by simp
        with k(2) k'(2) ne show False by simp
      qed
      then show ?thesis using key_held_remove_key [OF assms(1) Some [unfolded he']] Some he' by simp
    qed
    then show ?thesis using Some he by (simp add: expire_key_def)
  qed
qed

lemma key_held_create_backend:
  assumes "create_backend_with_key show_id rn now key sc cl dr tok d = Inr (i, d')"
  shows "key_held d (kc_namespace key, kc_name key) = None"
    and "key_held d' k = (if k = (kc_namespace key, kc_name key) then Some (i, now + KEY_LEASE_EXPIRATION)
           else key_held d k)"
proof -
  obtain lt where *: "backend_keys d' = backend_keys d @ [new_key_row now i key]"
    "\<forall>k\<in>set (backend_keys d). (k_namespace k, k_key_name k) \<noteq> (kc_namespace key, kc_name key)"
    using assms by (rule create_backend_tables)
  show "key_held d (kc_namespace key, kc_name key) = None" using *(2) by (simp add: key_held_None)
  show "key_held d' k = (if k = (kc_namespace key, kc_name key) then Some (i, now + KEY_LEASE_EXPIRATION)
      else key_held d k)"
    using key_held_append [of d "new_key_row now i key" d' k] * by simp
qed

lemma create_backend_id:
  assumes "create_backend_with_key show_id rn now key sc cl dr tok d = Inr (i, d')"
  shows "i = or_random backend_prefix (rn_backend rn) (sc_id sc)"
  using create_backend_cases [OF assms] by metis

lemma key_acquire_split:
  fixes now key d
  defines "d1 \<equiv> expire_key now key d"
  shows "(\<not> fst (key_acquire sh rn tag sc cl dr tok now key i d) \<and> snd (key_acquire sh rn tag sc cl dr tok now key i d) = d1)
    \<or> (fst (key_acquire sh rn tag sc cl dr tok now key i d)
       \<and> create_backend_with_key sh rn now \<lparr> kc_name = snd key, kc_namespace = fst key, kc_tag = tag \<rparr>
            (sc\<lparr> sc_id := Some i \<rparr>) cl dr tok d1
          = Inr (i, snd (key_acquire sh rn tag sc cl dr tok now key i d)))"
proof (cases "create_backend_with_key sh rn now \<lparr> kc_name = snd key, kc_namespace = fst key, kc_tag = tag \<rparr>
            (sc\<lparr> sc_id := Some i \<rparr>) cl dr tok d1")
  case (Inl e)
  then show ?thesis by (simp add: key_acquire_def Let_def d1_def)
next
  case (Inr r)
  obtain j d2 where r: "r = (j, d2)" by fastforce
  have "j = i" using create_backend_id [OF Inr [unfolded r]] by (simp add: or_random_def)
  then show ?thesis using Inr r by (simp add: key_acquire_def Let_def d1_def)
qed

lemma key_held_update_state:
  assumes "db_ok d" and "update_state now i st d = Inr (r, d')" and "\<And>e. key_held d key \<noteq> Some (i, e)"
  shows "key_held d' key = key_held d key"
proof (cases "exists_row (\<lambda>b. b_id b = i \<and> may_advance st b) (backends d) \<and> is_terminated st")
  case True
  then have keys: "backend_keys d' = delete_where (\<lambda>k. k_id k = i) (backend_keys d)"
    using assms(2) by (auto simp: update_state_eq drop_key_if_terminated_def)
  show ?thesis
  proof (rule key_held_cong [OF assms(1) db_ok_update_state [OF assms(1,2)]])
    fix k :: key_row assume k: "(k_namespace k, k_key_name k) = key"
    show "(k \<in> set (backend_keys d')) = (k \<in> set (backend_keys d))"
      using assms(3) k key_held_Some [OF assms(1), of key i "k_expires_at k"] by (auto simp: keys)
  qed
next
  case False
  then have "backend_keys d' = backend_keys d"
    using assms(2) by (auto simp: update_state_eq drop_key_if_terminated_def split: if_splits)
  then show ?thesis by (simp add: key_held_def)
qed

lemma key_held_renew:
  assumes "db_ok d" and "renew_key now i d = Inr d'"
  shows "key_held d' key = (case key_held d key of
    Some (h, e) \<Rightarrow> Some (h, if h = i then now + KEY_LEASE_EXPIRATION else e) | None \<Rightarrow> None)"
proof -
  let ?f = "\<lambda>k. k\<lparr> k_expires_at := now + KEY_LEASE_EXPIRATION \<rparr>"
  let ?P = "\<lambda>k. k_id k = i \<and> k_allow_renew k"
  from assms(2) obtain r where r: "r \<in> set (backend_keys d)" "k_id r = i" "k_allow_renew r"
    and d': "d' = d\<lparr> backend_keys := update_where ?P ?f (backend_keys d) \<rparr>"
    by (auto simp: renew_key_def Let_def rows_affected_zero exists_row_iff split: if_splits)
  have all: "k_allow_renew k" if "k \<in> set (backend_keys d)" "k_id k = i" for k
    using unique_onD [OF unique_keys(1) [OF assms(1)] that(1) r(1)] that(2) r by simp
  have ok: "db_ok d'" using assms by (rule db_ok_renew_key)
  show ?thesis
  proof (cases "key_held d key")
    case None
    then have "key_held d' key = None" by (auto simp: key_held_None d' set_update_where)
    then show ?thesis using None by simp
  next
    case (Some he)
    obtain h e where he: "he = (h, e)" by fastforce
    then obtain k where k: "k \<in> set (backend_keys d)" "(k_namespace k, k_key_name k) = key" "k_id k = h"
      "k_expires_at k = e" using Some key_held_Some [OF assms(1)] by blast
    have "(if ?P k then ?f k else k) \<in> set (backend_keys d')"
      using k(1) by (auto simp: d' set_update_where)
    then have "key_held d' key = Some (h, if h = i then now + KEY_LEASE_EXPIRATION else e)"
      unfolding key_held_Some [OF ok] using k all [OF k(1)]
      by (intro bexI [of _ "if ?P k then ?f k else k"]) auto
    then show ?thesis using Some he by simp
  qed
qed

lemma db_ok_key_acquire:
  assumes "db_ok d"
  shows "db_ok (snd (key_acquire sh rn tag sc cl dr tok now key i d))"
  using key_acquire_split [of sh rn tag sc cl dr tok now key i d] expire_key_lease(1) [OF assms, of now key]
  by (auto dest: db_ok_create_backend)

lemma key_acquire_granted:
  assumes "fst (key_acquire sh rn tag sc cl dr tok now key i d)"
  shows "key_held (expire_key now key d) key = None"
    and "key_held (snd (key_acquire sh rn tag sc cl dr tok now key i d)) k
       = (if k = key then Some (i, now + KEY_LEASE_EXPIRATION) else key_held (expire_key now key d) k)"
proof -
  have "create_backend_with_key sh rn now \<lparr> kc_name = snd key, kc_namespace = fst key, kc_tag = tag \<rparr>
            (sc\<lparr> sc_id := Some i \<rparr>) cl dr tok (expire_key now key d)
          = Inr (i, snd (key_acquire sh rn tag sc cl dr tok now key i d))"
    using key_acquire_split [of sh rn tag sc cl dr tok now key i d] assms by blast
  from key_held_create_backend [OF this]
  show "key_held (expire_key now key d) key = None"
    and "key_held (snd (key_acquire sh rn tag sc cl dr tok now key i d)) k
       = (if k = key then Some (i, now + KEY_LEASE_EXPIRATION) else key_held (expire_key now key d) k)"
    by simp_all
qed

lemma key_acquire_refused:
  "\<not> fst (key_acquire sh rn tag sc cl dr tok now key i d)
     \<Longrightarrow> snd (key_acquire sh rn tag sc cl dr tok now key i d) = expire_key now key d"
  using key_acquire_split [of sh rn tag sc cl dr tok now key i d] by blast

lemma db_ok_key_release: "db_ok d \<Longrightarrow> db_ok (key_release t st key i d)"
  by (auto simp: key_release_def split: sum.splits dest: db_ok_update_state)

lemma key_release_other:
  assumes "db_ok d" and "key' \<noteq> key \<or> (\<exists>h e. key_held d key = Some (h, e) \<and> h \<noteq> i)"
  shows "key_held (key_release t st key i d) key' = key_held d key'"
proof (cases "map_option fst (key_held d key) = Some i")
  case False
  then show ?thesis by (simp add: key_release_def)
next
  case True
  then obtain e where e: "key_held d key = Some (i, e)" by auto
  with assms(2) have ne: "key' \<noteq> key" by auto
  have not: "key_held d key' \<noteq> Some (i, e')" for e'
  proof
    assume "key_held d key' = Some (i, e')"
    then obtain k k' where "k \<in> set (backend_keys d)" "k' \<in> set (backend_keys d)" "k_id k = k_id k'"
      "(k_namespace k, k_key_name k) = key" "(k_namespace k', k_key_name k') = key'"
      using e unfolding key_held_Some [OF assms(1)] by metis
    moreover then have "k = k'" using unique_onD [OF unique_keys(1) [OF assms(1)]] by blast
    ultimately show False using ne by simp
  qed
  show ?thesis
    using True key_held_update_state [OF assms(1) _ not]
    by (auto simp: key_release_def split: sum.splits)
qed

lemma key_renew_Some: "key_renew t i d = Some d' \<longleftrightarrow> renew_key t i d = Inr d'"
  by (auto simp: key_renew_def split: sum.splits)

interpretation keys: renewable_lease key_held "key_acquire sh rn tag sc cl dr tok" "key_release t st"
    db_ok KEY_LEASE_EXPIRATION key_renew
  for sh rn tag sc cl dr tok t st
proof
  fix d now key i
  assume ok: "db_ok d"
  show "db_ok (snd (key_acquire sh rn tag sc cl dr tok now key i d))" using ok by (rule db_ok_key_acquire)
  show "db_ok (key_release t st key i d)" using ok by (rule db_ok_key_release)
  show "key_held (snd (key_acquire sh rn tag sc cl dr tok now key i d)) key' = key_held d key'"
    if "key' \<noteq> key" for key'
    using that key_acquire_granted(2) [of sh rn tag sc cl dr tok now key i d key']
      key_acquire_refused [of sh rn tag sc cl dr tok now key i d] expire_key_lease(3) [OF ok that, of now]
    by (cases "fst (key_acquire sh rn tag sc cl dr tok now key i d)") auto
  show "key_held (key_release t st key i d) key' = key_held d key'"
    if "key' \<noteq> key \<or> (\<exists>h e. key_held d key = Some (h, e) \<and> h \<noteq> i)" for key'
    using ok that by (rule key_release_other)
  show "key_held (snd (key_acquire sh rn tag sc cl dr tok now key i d)) key = Some (i, now + KEY_LEASE_EXPIRATION)"
    if "fst (key_acquire sh rn tag sc cl dr tok now key i d)"
    using key_acquire_granted(2) [OF that] by simp
  show "key_held (snd (key_acquire sh rn tag sc cl dr tok now key i d)) key = key_held d key
      \<or> (\<exists>h e. key_held d key = Some (h, e) \<and> e < now)"
    if "\<not> fst (key_acquire sh rn tag sc cl dr tok now key i d)"
    using key_acquire_refused [OF that] expire_key_lease(2) [OF ok, of now key]
    by (cases "key_held d key") auto
  show "\<not> fst (key_acquire sh rn tag sc cl dr tok now key i d)"
    if "key_held d key = Some (h, e)" "now \<le> e" for h e
    using key_acquire_granted(1) [of sh rn tag sc cl dr tok now key i d]
      expire_key_lease(2) [OF ok, of now key] that by auto
  fix d'
  assume r: "key_renew now i d = Some d'"
  show "db_ok d'" using ok r by (auto simp: key_renew_Some intro: db_ok_renew_key)
  show "key_held d' key = Some (i, now + KEY_LEASE_EXPIRATION)" if "key_held d key = Some (i, e)" for e
    using key_held_renew [OF ok, of now i d' key] r that by (simp add: key_renew_Some)
  show "key_held d' key = key_held d key" if "key_held d key = Some (h, e)" "h \<noteq> i" for h e
    using key_held_renew [OF ok, of now i d' key] r that by (simp add: key_renew_Some)
qed

section \<open>Lemmas on attempts\<close>

text \<open>Interference that keeps the invariants of the database, as every statement does.\<close>

definition keeps_ok :: "(nat \<Rightarrow> db \<Rightarrow> db) \<Rightarrow> bool" where
  "keeps_ok env \<longleftrightarrow> (\<forall>i d. db_ok d \<longrightarrow> db_ok (env i d))"

lemma keeps_okD: "\<lbrakk> keeps_ok env; db_ok d \<rbrakk> \<Longrightarrow> db_ok (env i d)"
  by (simp add: keeps_ok_def)

text \<open>An attempt that responds: it found a live key and used it, or it spawned a backend.\<close>

lemma spawn_and_connect_InrD:
  assumes "spawn_and_connect cx rn env clock request key d = (Inr resp, d')"
  obtains sc cl dr tok i d4 token sec where
    "cr_spawn_config request = Some sc"
    "Some cl = (case sc_cluster sc of Some c \<Rightarrow> Some c | None \<Rightarrow> cx_default_cluster cx)"
    "pick_drone_for_spawn (cx_shuffle cx) (clock 2) cl (sc_pool sc) (cx_best_of cx) (env 2 d) = Inr (Some dr)"
    "tok = (if sc_use_static_token sc then Some (new_random_static (rn_static_token rn)) else None)"
    "create_backend_with_key (cx_show_id cx) rn (clock 3) key sc cl dr tok (env 3 (env 2 d)) = Inr (i, d4)"
    "connection_token rn (clock 4) tok i request (env 4 d4) = Inr ((token, sec), d')"
    "resp = connect_response_new (cx_status_url cx) i cl True StScheduled token sec
       (sc_subdomain sc) (Some (ds_drone dr))"
  using assms unfolding spawn_and_connect_def Let_def
  by (auto split: option.splits sum.splits prod.splits if_splits)

text \<open>Every database state an attempt returns is reached by its statements and the interference.\<close>

lemma connection_token_inv:
  assumes "I d" and "connection_token rn now static i request d = Inr (r, d')"
    and "\<And>i u a r d d'. \<lbrakk> I d; create_token rn now i u a d = Inr (r, d') \<rbrakk> \<Longrightarrow> I d'"
  shows "I d'"
proof (cases static)
  case None
  then obtain r' where "create_token rn now i (cr_user request) (cr_auth request) d = Inr (r', d')"
    using assms(2) by (auto simp: connection_token_def bind_result_Inr_iff)
  with assms(1,3) show ?thesis by blast
next
  case (Some t)
  then show ?thesis using assms(1,2) by (simp add: connection_token_def)
qed

lemma spawn_and_connect_inv:
  assumes "I d" and env: "\<And>i d. I d \<Longrightarrow> I (env i d)"
    and create: "\<And>key sc cl dr tok r d d'.
      \<lbrakk> I d; create_backend_with_key (cx_show_id cx) rn (clock 3) key sc cl dr tok d = Inr (r, d') \<rbrakk> \<Longrightarrow> I d'"
    and token: "\<And>now i u a r d d'. \<lbrakk> I d; create_token rn now i u a d = Inr (r, d') \<rbrakk> \<Longrightarrow> I d'"
  shows "I (snd (spawn_and_connect cx rn env clock request key d))"
proof (cases "cr_spawn_config request")
  case None
  then show ?thesis using assms(1) by (simp add: spawn_and_connect_def)
next
  case sc: (Some sc)
  let ?cl = "case sc_cluster sc of Some c \<Rightarrow> Some c | None \<Rightarrow> cx_default_cluster cx"
  show ?thesis
  proof (cases ?cl)
    case None
    then show ?thesis using assms(1) sc by (simp add: spawn_and_connect_def)
  next
    case cl: (Some cl)
    have d3: "I (env 2 d)" "I (env 3 (env 2 d))" using assms(1) by (simp_all add: env)
    let ?pick = "pick_drone_for_spawn (cx_shuffle cx) (clock 2) cl (sc_pool sc) (cx_best_of cx) (env 2 d)"
    show ?thesis
    proof (cases "\<exists>dr. ?pick = Inr (Some dr)")
      case False
      then show ?thesis using sc cl d3
        by (auto simp: spawn_and_connect_def Let_def split: option.splits sum.splits)
    next
      case True
      then obtain dr where dr: "?pick = Inr (Some dr)" by blast
      let ?tok = "if sc_use_static_token sc then Some (new_random_static (rn_static_token rn)) else None"
      let ?cb = "create_backend_with_key (cx_show_id cx) rn (clock 3) key sc cl dr ?tok (env 3 (env 2 d))"
      show ?thesis
      proof (cases ?cb)
        case (Inl e)
        then show ?thesis using sc cl dr d3 by (simp add: spawn_and_connect_def Let_def)
      next
        case (Inr r)
        obtain i d4 where r: "r = (i, d4)" by fastforce
        have d4: "I d4" "I (env 4 d4)" using create [OF d3(2) Inr [unfolded r]] env by blast+
        have *: "spawn_and_connect cx rn env clock request key d =
          (case connection_token rn (clock 4) ?tok i request (env 4 d4) of
             Inl e \<Rightarrow> (Inl e, env 4 d4)
           | Inr ((token, sec), d6) \<Rightarrow> (Inr (connect_response_new (cx_status_url cx) i cl True StScheduled
               token sec (sc_subdomain sc) (Some (ds_drone dr))), d6))"
          using sc cl dr Inr r by (simp add: spawn_and_connect_def Let_def)
        show ?thesis
        proof (cases "connection_token rn (clock 4) ?tok i request (env 4 d4)")
          case (Inl e)
          then show ?thesis using d4(2) by (simp add: *)
        next
          case (Inr q)
          obtain token sec d6 where q: "q = ((token, sec), d6)" by (cases q) auto
          have "I d6" using connection_token_inv [of I, OF d4(2) Inr [unfolded q] token] .
          then show ?thesis using Inr q by (simp add: *)
        qed
      qed
    qed
  qed
qed

lemma attempt_connect_inv:
  assumes "I d" and env: "\<And>i d. I d \<Longrightarrow> I (env i d)"
    and remove: "\<And>i d. I d \<Longrightarrow> I (snd (remove_key (clock 1) i d))"
    and create: "\<And>key sc cl dr tok r d d'.
      \<lbrakk> I d; create_backend_with_key (cx_show_id cx) rn (clock 3) key sc cl dr tok d = Inr (r, d') \<rbrakk> \<Longrightarrow> I d'"
    and token: "\<And>now i u a r d d'. \<lbrakk> I d; create_token rn now i u a d = Inr (r, d') \<rbrakk> \<Longrightarrow> I d'"
  shows "I (snd (attempt_connect cx rn env clock request d))"
proof -
  have spawn: "I (snd (spawn_and_connect cx rn env clock request key x))" if "I x" for key x
    using spawn_and_connect_inv [of I, OF that env create token] .
  show ?thesis
  proof (cases "cr_key request")
    case None
    then show ?thesis using spawn [OF assms(1)] by (simp add: attempt_connect_def)
  next
    case key: (Some key)
    have d0: "I (env 0 d)" "I (env 1 (env 0 d))" using assms(1) by (simp_all add: env)
    show ?thesis
    proof (cases "\<exists>kr. check_key (cx_host_parse cx) (clock 0) key (env 0 d) = Inr (Some kr)")
      case False
      then show ?thesis using key d0 spawn
        by (auto simp: attempt_connect_def Let_def split: option.splits sum.splits)
    next
      case True
      then obtain kr where kr: "check_key (cx_host_parse cx) (clock 0) key (env 0 d) = Inr (Some kr)" by blast
      show ?thesis
      proof (cases "is_live kr")
        case True
        let ?ct = "connection_token rn (clock 1) (bk_static_connection_token kr) (bk_id kr) request (env 1 (env 0 d))"
        show ?thesis
        proof (cases ?ct)
          case (Inl e)
          then show ?thesis using d0 key kr True by (simp add: attempt_connect_def Let_def)
        next
          case (Inr q)
          obtain token sec d6 where q: "q = ((token, sec), d6)" by (cases q) auto
          have "I d6" using connection_token_inv [of I, OF d0(2) Inr [unfolded q] token] .
          then show ?thesis using Inr q d0 key kr True by (simp add: attempt_connect_def Let_def)
        qed
      next
        case False
        obtain x d2 where rm: "remove_key (clock 1) (bk_id kr) (env 1 (env 0 d)) = (x, d2)" by fastforce
        then have "I d2" using remove [OF d0(2), of "bk_id kr"] by simp
        then show ?thesis using False key kr rm spawn by (simp add: attempt_connect_def Let_def)
      qed
    qed
  qed
qed

lemma db_ok_attempt_connect:
  assumes "db_ok d" and "keeps_ok env"
  shows "db_ok (snd (attempt_connect cx rn env clock request d))"
  using assms(1) keeps_okD [OF assms(2)]
  by (rule attempt_connect_inv) (auto intro: db_ok_remove_key db_ok_create_backend db_ok_create_token)

lemma check_key_row:
  assumes "db_ok d" and "k \<in> set (backend_keys d)"
    and "(k_namespace k, k_key_name k) = (kc_namespace key, kc_name key)"
    and "b \<in> set (backends d)" and "b_id b = k_id k" and "b_state b = Some st"
    and "valid_name backend_prefix (k_id k)" and "cluster_from_str hp (b_cluster b) = Inr cl"
    and "decode_subdomain (b_subdomain b) = Inr sd"
  shows "check_key hp now key d = Inr (Some \<lparr> bk_id = k_id k, bk_tag = k_tag k,
    bk_token = k_fencing_token k, bk_key = k_key_name k, bk_status = status st, bk_cluster = cl,
    bk_subdomain = sd, bk_static_connection_token = b_static_token b,
    bk_expires_at = k_expires_at k, bk_as_of = now \<rparr>)"
proof -
  have "find_row (\<lambda>x. (k_namespace x, k_key_name x) = (k_namespace k, k_key_name k)) (backend_keys d) = Some k"
    using unique_keys(2) [OF assms(1)] assms(2) by (rule find_row_key)
  then have "find_row (\<lambda>x. k_key_name x = kc_name key \<and> k_namespace x = kc_namespace key) (backend_keys d) = Some k"
    using assms(3) by (simp add: conj_commute)
  moreover have "find_row (\<lambda>x. b_id x = k_id k) (backends d) = Some b"
    using find_row_key [OF unique_backends [OF assms(1)] assms(4)] assms(5) by simp
  moreover have "status_try_from (b_last_status b) = Some (status st)"
    using assms(1,4,6) by (auto simp: db_ok_def row_consistent_def status_try_from_Some_iff)
  moreover have "name_try_from backend_prefix (k_id k) = Inr (k_id k)"
    using assms(7) by (simp add: name_try_from_Inr)
  ultimately show ?thesis using assms(8,9) by (simp add: check_key_def)
qed

lemma route_new_token:
  assumes "db_ok d" and "create_token rn now i user auth d = Inr ((tok, sec), d')" and "\<not> is_static tok"
  shows "\<exists>b\<in>set (backends d'). b_id b = i
     \<and> route_info_for_token hp tok d' = route_of_row hp b sec user (Some (JObj auth))"
proof -
  note * = create_token_InrD [OF assms(2)]
  from *(4) obtain b where b: "b \<in> set (backends d)" "b_id b = i" by auto
  have "find_row (\<lambda>t. t_token t = tok) (tokens d) = None" using *(5) by (auto simp: find_row_None_iff)
  moreover have "find_row (\<lambda>x. b_id x = i) (backends d) = Some b"
    using find_row_key [OF unique_backends [OF assms(1)] b(1)] b(2) by simp
  ultimately have "route_info_for_token hp tok d' = route_of_row hp b sec user (Some (JObj auth))"
    using assms(3) by (simp add: route_info_for_token_def *(3) find_row_append)
  with b show ?thesis by (auto simp: *(3))
qed

text \<open>The two ways an attempt responds.\<close>

lemma attempt_connect_InrE:
  assumes "attempt_connect cx rn env clock request d = (Inr resp, d')"
    and "db_ok d" and env: "keeps_ok env"
  obtains (live) key kr token sec where "cr_key request = Some key"
      "check_key (cx_host_parse cx) (clock 0) key (env 0 d) = Inr (Some kr)" "is_live kr"
      "bk_tag kr = kc_tag key"
      "connection_token rn (clock 1) (bk_static_connection_token kr) (bk_id kr) request (env 1 (env 0 d))
         = Inr ((token, sec), d')"
      "resp = connect_response_new (cx_status_url cx) (bk_id kr) (bk_cluster kr) False
         (bk_status kr) token sec (bk_subdomain kr) None"
    | (spawn) key y where "spawn_and_connect cx rn env clock request key y = (Inr resp, d')" "db_ok y"
      "key = (case cr_key request of Some k \<Rightarrow> k | None \<Rightarrow> key_config_new_random (rn_key rn))"
proof (cases "cr_key request")
  case None
  then have "spawn_and_connect cx rn env clock request (key_config_new_random (rn_key rn)) d = (Inr resp, d')"
    using assms(1) by (simp add: attempt_connect_def)
  then show thesis using assms(2) by (rule spawn) (simp add: None)
next
  case key: (Some key)
  have ok: "db_ok (env 0 d)" "db_ok (env 1 (env 0 d))" using assms(2) by (simp_all add: keeps_okD [OF env])
  let ?check = "check_key (cx_host_parse cx) (clock 0) key (env 0 d)"
  consider (none) "?check = Inr None" | (some) kr where "?check = Inr (Some kr)" | (error) e where "?check = Inl e"
    by (metis option.exhaust sum.exhaust)
  then show thesis
  proof cases
    case none
    then have "spawn_and_connect cx rn env clock request key (env 0 d) = (Inr resp, d')"
      using key assms(1) by (simp add: attempt_connect_def Let_def)
    then show thesis using ok(1) by (rule spawn) (simp add: key)
  next
    case error
    then show thesis using key assms(1) by (simp add: attempt_connect_def Let_def)
  next
    case some
    show thesis
    proof (cases "is_live kr")
      case True
      let ?ct = "connection_token rn (clock 1) (bk_static_connection_token kr) (bk_id kr) request (env 1 (env 0 d))"
      have *: "(if bk_tag kr \<noteq> kc_tag key then (Inl (KeyHeld (kc_tag key) (bk_tag kr)), env 0 d)
          else case ?ct of Inl e \<Rightarrow> (Inl e, env 1 (env 0 d))
            | Inr ((token, sec), d2) \<Rightarrow> (Inr (connect_response_new (cx_status_url cx) (bk_id kr)
                (bk_cluster kr) False (bk_status kr) token sec (bk_subdomain kr) None), d2)) = (Inr resp, d')"
        using assms(1) some key True by (simp add: attempt_connect_def Let_def del: One_nat_def)
      then have tag: "bk_tag kr = kc_tag key" by (simp split: if_splits)
      then obtain token sec where "?ct = Inr ((token, sec), d')"
        "resp = connect_response_new (cx_status_url cx) (bk_id kr) (bk_cluster kr) False
           (bk_status kr) token sec (bk_subdomain kr) None"
        using * by (cases ?ct) auto
      then show thesis using live [OF key some True tag] by blast
    next
      case False
      obtain r d2 where rm: "remove_key (clock 1) (bk_id kr) (env 1 (env 0 d)) = (r, d2)" by fastforce
      then have "db_ok d2" using db_ok_remove_key [OF ok(2), of "clock 1" "bk_id kr"] by simp
      moreover have "spawn_and_connect cx rn env clock request key d2 = (Inr resp, d')"
        using False some key rm assms(1)
        by (simp add: attempt_connect_def Let_def del: One_nat_def split: if_splits)
      ultimately show thesis by (intro spawn) (simp_all add: key)
    qed
  qed
qed

lemma attempt_connect_token:
  assumes "db_ok d" and env: "keeps_ok env"
    and "attempt_connect cx rn env clock request d = (Inr resp, d')" and "rs_secret_token resp = Some sec"
  obtains now x where "db_ok x"
    "create_token rn now (rs_backend_id resp) (cr_user request) (cr_auth request) x
       = Inr ((rs_token resp, sec), d')"
  using assms(3,1) env
proof (cases rule: attempt_connect_InrE)
  case (live key kr token s)
  have "db_ok (env 1 (env 0 d))" using assms(1) by (simp add: keeps_okD [OF env])
  moreover have "create_token rn (clock 1) (bk_id kr) (cr_user request) (cr_auth request) (env 1 (env 0 d))
      = Inr ((token, sec), d')"
    using connection_token_cases [OF live(5)] assms(4) live(6) by (auto simp: connect_response_new_def)
  ultimately show thesis using that live(6) by (simp add: connect_response_new_def)
next
  case (spawn key y)
  from spawn_and_connect_InrD [OF spawn(1)] obtain sc cl dr tok i d4 token s where *:
    "create_backend_with_key (cx_show_id cx) rn (clock 3) key sc cl dr tok (env 3 (env 2 y)) = Inr (i, d4)"
    "connection_token rn (clock 4) tok i request (env 4 d4) = Inr ((token, s), d')"
    "resp = connect_response_new (cx_status_url cx) i cl True StScheduled token s
       (sc_subdomain sc) (Some (ds_drone dr))" by metis
  have "db_ok (env 4 d4)" using db_ok_create_backend [OF _ *(1)] spawn(2) keeps_okD [OF env] by blast
  moreover have "create_token rn (clock 4) i (cr_user request) (cr_auth request) (env 4 d4)
      = Inr ((token, sec), d')"
    using connection_token_cases [OF *(2)] assms(4) *(3) by (auto simp: connect_response_new_def)
  ultimately show thesis using that *(3) by (simp add: connect_response_new_def)
qed

lemma decode_all_error:
  assumes "x \<in> set xs" and "f x = Inl e"
  shows "\<exists>e'. decode_all f xs = Inl e'"
proof (cases "decode_all f xs")
  case (Inr ys)
  from assms(1) obtain i where "i < length xs" "xs ! i = x" by (auto simp: in_set_conv_nth)
  with Inr assms(2) show ?thesis by (auto simp: decode_all_Inr)
qed blast

lemma find_row_filter_key:
  "find_row (\<lambda>t. t_token t = tok) (delete_where P ts) =
     (if \<exists>t. find_row (\<lambda>t. t_token t = tok) ts = Some t \<and> P t then None
      else find_row (\<lambda>t. t_token t = tok) ts)"
  if "unique_on t_token ts"
  using that
proof (induction ts)
  case (Cons a ts)
  show ?case
  proof (cases "t_token a = tok")
    case True
    then have "find_row (\<lambda>t. t_token t = tok) ts = None"
      using Cons.prems by (auto simp: unique_on_Cons find_row_None_iff)
    with Cons True show ?thesis by (auto simp: unique_on_Cons find_row_def delete_where_def)
  next
    case False
    with Cons show ?thesis by (auto simp: unique_on_Cons find_row_def delete_where_def)
  qed
qed (simp add: find_row_def delete_where_def)

section \<open>Examples\<close>

definition example_ctx :: connect_ctx where
  "example_ctx = \<lparr> cx_host_parse = (\<lambda>_. True), cx_status_url = (\<lambda>b. ''u/'' @ b), cx_show_id = (\<lambda>_. ''1''),
     cx_shuffle = (\<lambda>xs. xs), cx_default_cluster = Some ''c'', cx_best_of = 2 \<rparr>"

definition example_rn :: connect_random where
  "example_rn = \<lparr> rn_key = [], rn_backend = replicate 14 1, rn_action = replicate 14 0, rn_static_token = ''st'',
     rn_token = ''fresh'', rn_secret_token = ''sec2'' \<rparr>"

definition example_spawn :: SpawnConfig where
  "example_spawn = \<lparr> sc_id = Some ''b2'', sc_cluster = None, sc_pool = [], sc_executable = JNull,
     sc_lifetime_limit_seconds = Some 10, sc_max_idle_seconds = None, sc_use_static_token = False,
     sc_subdomain = None \<rparr>"

definition example_request :: "string \<Rightarrow> ConnectRequest" where
  "example_request k = \<lparr> cr_key = Some \<lparr> kc_name = k, kc_namespace = [], kc_tag = [] \<rparr>,
     cr_spawn_config = Some example_spawn, cr_user = Some ''u'', cr_auth = [] \<rparr>"

definition example_dfs :: DroneForSpawn where
  "example_dfs = \<lparr> ds_id = 1, ds_drone = ''dr-a'', ds_last_local_time = 0 \<rparr>"

lemmas example_connect_defs = example_ctx_def example_rn_def example_spawn_def example_request_def
  example_dfs_def

lemma example_create:
  "create_backend_with_key (\<lambda>_. ''1'') example_rn 0 \<lparr> kc_name = ''k2'', kc_namespace = [], kc_tag = [] \<rparr>
     (example_spawn\<lparr> sc_id := Some i \<rparr>) ''c'' example_dfs None example_db = Inr (i, snd (projr (
   create_backend_with_key (\<lambda>_. ''1'') example_rn 0 \<lparr> kc_name = ''k2'', kc_namespace = [], kc_tag = [] \<rparr>
     (example_spawn\<lparr> sc_id := Some i \<rparr>) ''c'' example_dfs None example_db)))"
  by (simp add: create_backend_with_key_def or_random_def lifetime_interval_def insert_backend_def
      exists_row_def emit_state_change_def emit_with_key_def create_pending_action_def Let_def
      example_connect_defs example_defs)

lemma example_live:
  "attempt_connect example_ctx example_rn (\<lambda>_ d. d) (\<lambda>_. 1) (example_request ''k'') example_backend_db =
     (Inr \<lparr> rs_backend_id = ''b1'', rs_spawned = False, rs_status = StReady, rs_token = ''fresh'',
        rs_url = ''https://c/fresh/'', rs_subdomain = None, rs_secret_token = Some ''sec2'',
        rs_status_url = ''u/b1'', rs_drone = None \<rparr>,
      example_backend_db\<lparr> tokens := tokens example_backend_db @ [\<lparr> t_token = ''fresh'', t_backend_id = ''b1'',
        t_expiration_time = 1 + secs 3600, t_username = Some ''u'', t_auth = [], t_secret_token = ''sec2'' \<rparr>] \<rparr>)"
proof -
  have "check_key (\<lambda>_. True) 1 \<lparr> kc_name = ''k'', kc_namespace = [], kc_tag = [] \<rparr> example_backend_db =
      Inr (Some \<lparr> bk_id = ''b1'', bk_tag = [], bk_token = 0, bk_key = ''k'', bk_status = StReady,
        bk_cluster = ''c'', bk_subdomain = None, bk_static_connection_token = None,
        bk_expires_at = secs 60, bk_as_of = 1 \<rparr>)"
    using check_key_row [OF example_backend_db_ok, of example_key
        "\<lparr> kc_name = ''k'', kc_namespace = [], kc_tag = [] \<rparr>" example_backend "Ready (''a'', 80)" "\<lambda>_. True" "''c''" None 1]
    by (simp add: example_backend_defs valid_name_def prefix_defs MAX_NAME_LENGTH_def name_char_def
        ascii_class_defs cluster_from_str_def decode_subdomain_def)
  then show ?thesis
    by (simp add: attempt_connect_def Let_def example_connect_defs is_live_def secs_def connection_token_def
        create_token_def exists_row_def example_backend_defs connect_response_new_def connect_url_def
        is_https_def TOKEN_LIFETIME_SECONDS_def)
qed

section \<open>Properties\<close>

text \<open>
  The key leases are exclusive. After a backend renewed its key at a time \<open>t\<close>, nobody else
  acquires the key up to the end of the lease, whatever acquisitions of this and other keys and
  whatever terminations of other backends happen in between.
\<close>

theorem key_lease_exclusive:
  assumes "db_ok d" and "key_held d key = Some (h, e)" and "renew_key now h d = Inr d'"
    and "list_all (\<lambda>ev. case ev of Acquire s k i \<Rightarrow> s \<le> now + KEY_LEASE_EXPIRATION
                                | Release k i \<Rightarrow> k \<noteq> key \<or> i \<noteq> h) evs"
    and "now2 \<le> now + KEY_LEASE_EXPIRATION"
  shows "\<not> fst (key_acquire sh rn tag sc cl dr tok now2 key i
    (fold (\<lambda>ev d. case ev of Acquire s k i \<Rightarrow> snd (key_acquire sh rn tag sc cl dr tok s k i d)
                       | Release k i \<Rightarrow> key_release t st k i d) evs d'))"
proof -
  have step: "keys.lease_step sh rn tag sc cl dr tok t st =
      (\<lambda>ev d. case ev of Acquire s k i \<Rightarrow> snd (key_acquire sh rn tag sc cl dr tok s k i d)
                       | Release k i \<Rightarrow> key_release t st k i d)"
    by (intro ext) (simp split: lease_event.split)
  have "list_all (keys.quiet key h (now + KEY_LEASE_EXPIRATION)) evs"
    using assms(4) by (rule list.pred_mono_strong) (simp split: lease_event.splits)
  with assms show ?thesis
    using keys.renewed_excludes [of d key h e now d' evs now2 sh rn tag sc cl dr tok i t st]
    by (simp add: key_renew_Some step)
qed

theorem key_lease_exclusive_witness:
  "\<not> fst (key_acquire (\<lambda>_. ''1'') example_rn [] example_spawn ''c'' example_dfs None (secs 61) ([], ''k'') ''b2''
      (snd (key_acquire (\<lambda>_. ''1'') example_rn [] example_spawn ''c'' example_dfs None (secs 61) ([], ''k2'') ''b3''
         (projr (renew_key (secs 1) ''b1'' example_backend_db)))))"
  using key_lease_exclusive [OF example_backend_db_ok, of "([], ''k'')" "''b1''" "secs 60" "secs 1"
      "projr (renew_key (secs 1) ''b1'' example_backend_db)" "[Acquire (secs 61) ([], ''k2'') ''b3'']"
      "secs 61" "\<lambda>_. ''1''" example_rn "[]" example_spawn "''c''" example_dfs None "''b2''" 0 Scheduled]
  by (simp add: key_held_def find_row_def renew_key_def rows_affected_def update_where_def Let_def
      example_backend_defs KEY_LEASE_EXPIRATION_def secs_def)

text \<open>
  C5: The token of a response leads to the backend of the response. Whatever the other clients do
  between the statements of an attempt, when it responds with a token and a secret, the lookup of
  that token finds the row of exactly the backend named in the response, with the secret of the
  response and the user and the user data of the request.
\<close>

theorem connect_token_routes:
  assumes "db_ok d" and "keeps_ok env" and "\<not> is_static (rn_token rn)"
    and "attempt_connect cx rn env clock request d = (Inr resp, d')" and "rs_secret_token resp = Some sec"
  shows "db_ok d' \<and> (\<exists>b\<in>set (backends d'). b_id b = rs_backend_id resp
     \<and> route_info_for_token hp (rs_token resp) d' =
         route_of_row hp b sec (cr_user request) (Some (JObj (cr_auth request))))"
proof -
  obtain now x where x: "db_ok x"
    "create_token rn now (rs_backend_id resp) (cr_user request) (cr_auth request) x
       = Inr ((rs_token resp, sec), d')"
    using assms(1,2,4,5) by (rule attempt_connect_token)
  have "\<not> is_static (rs_token resp)" using create_token_InrD(1) [OF x(2)] assms(3) by simp
  from route_new_token [OF x this] db_ok_create_token [OF x] show ?thesis by blast
qed

theorem connect_token_routes_witness:
  "\<exists>b\<in>set (backends example_backend_db). b_id b = ''b1''
     \<and> route_info_for_token (\<lambda>_. True) ''fresh'' (snd (attempt_connect example_ctx example_rn (\<lambda>_ d. d) (\<lambda>_. 1)
          (example_request ''k'') example_backend_db)) =
         route_of_row (\<lambda>_. True) b ''sec2'' (Some ''u'') (Some (JObj []))"
  unfolding example_live snd_conv
  using connect_token_routes [OF example_backend_db_ok _ _ example_live, of "''sec2''" "\<lambda>_. True"]
  by (simp add: keeps_ok_def is_static_def starts_with_def STATIC_TOKEN_PREFIX_def
      example_rn_def example_request_def)

text \<open>
  C17: Connecting to a key whose lease is live never spawns. With the tag of the lease the client
  gets a token for the backend that holds the key, and only that token is added to the database;
  with another tag it is refused and the database is left as it was.
\<close>

theorem connect_live_key:
  assumes "db_ok d" and "k \<in> set (backend_keys d)" and "cr_key request = Some key"
    and "(k_namespace k, k_key_name k) = (kc_namespace key, kc_name key)"
    and "b \<in> set (backends d)" and "b_id b = k_id k" and "b_state b = Some st" and "b_static_token b = None"
    and "valid_name backend_prefix (k_id k)" and "cluster_from_str (cx_host_parse cx) (b_cluster b) = Inr cl"
    and "decode_subdomain (b_subdomain b) = Inr sd"
    and "clock 0 < k_expires_at k" and "rn_token rn \<notin> t_token ` set (tokens d)"
  shows "attempt_connect cx rn (\<lambda>_ d. d) clock request d =
    (if k_tag k \<noteq> kc_tag key then (Inl (KeyHeld (kc_tag key) (k_tag k)), d)
     else (Inr (connect_response_new (cx_status_url cx) (k_id k) cl False (status st) (rn_token rn)
                  (Some (rn_secret_token rn)) sd None),
           d\<lparr> tokens := tokens d @ [\<lparr> t_token = rn_token rn, t_backend_id = k_id k,
               t_expiration_time = clock 1 + secs 3600, t_username = cr_user request,
               t_auth = cr_auth request, t_secret_token = rn_secret_token rn \<rparr>] \<rparr>))"
proof -
  note ck = check_key_row [OF assms(1,2,4,5,6,7,9,10,11), of "clock 0"]
  have "create_token rn (clock 1) (k_id k) (cr_user request) (cr_auth request) d =
      Inr ((rn_token rn, rn_secret_token rn), d\<lparr> tokens := tokens d @ [\<lparr> t_token = rn_token rn,
        t_backend_id = k_id k, t_expiration_time = clock 1 + secs 3600, t_username = cr_user request,
        t_auth = cr_auth request, t_secret_token = rn_secret_token rn \<rparr>] \<rparr>)"
    using assms(5,6,13) by (auto simp: create_token_def exists_row_iff image_iff TOKEN_LIFETIME_SECONDS_def)
  then show ?thesis
    using ck assms(3,8,12)
    by (simp add: attempt_connect_def Let_def is_live_def connection_token_def del: One_nat_def)
qed

theorem connect_live_key_witness:
  "fst (attempt_connect example_ctx example_rn (\<lambda>_ d. d) (\<lambda>_. 1)
     ((example_request ''k'')\<lparr> cr_key := Some \<lparr> kc_name = ''k'', kc_namespace = [], kc_tag = ''x'' \<rparr> \<rparr>)
     example_backend_db) = Inl (KeyHeld ''x'' [])"
  by (subst connect_live_key [OF example_backend_db_ok, where k = example_key and b = example_backend
        and key = "\<lparr> kc_name = ''k'', kc_namespace = [], kc_tag = ''x'' \<rparr>" and st = "Ready (''a'', 80)"
        and cl = "''c''" and sd = None])
     (simp_all add: example_backend_defs example_connect_defs valid_name_def prefix_defs MAX_NAME_LENGTH_def
        name_char_def ascii_class_defs cluster_from_str_def decode_subdomain_def secs_def)

text \<open>
  C12: A spawn succeeds only for a key that is not held. It adds one backend, scheduled on the
  chosen drone, that holds the key for the length of a lease with the fencing token of that time,
  keeps every other lease, and leaves the drone a spawn action. The deadlines of the drone for the
  key are renewal after 30 seconds and soft termination after 40 seconds on its own clock, and the
  deadline for hard termination is that of soft termination, 20 seconds before the lease ends.
\<close>

theorem spawn_takes_free_key:
  assumes "db_ok d" and "create_backend_with_key sh rn now key sc cl dr tok d = Inr (i, d')"
  shows "db_ok d' \<and> key_held d (kc_namespace key, kc_name key) = None
    \<and> key_held d' = (key_held d)((kc_namespace key, kc_name key) \<mapsto> (i, now + KEY_LEASE_EXPIRATION))
    \<and> get_backend now i d = Inr None
    \<and> (\<exists>b. find_row (\<lambda>b. b_id b = i) (backends d') = Some b \<and> b_state b = Some Scheduled
          \<and> b_drone_id b = ds_id dr \<and> b_cluster b = cl)
    \<and> (\<exists>m\<in>unacked (ds_id dr) d'. am_backend_id m = i
          \<and> (\<exists>ak. am_action m = Spawn (sc_executable sc) ak tok \<and> ak_key ak = key
                \<and> ak_token ak = epoch_millis now
                \<and> kd_renew_at (ak_deadlines ak) = ds_last_local_time dr + secs 30
                \<and> kd_soft_terminate_at (ak_deadlines ak) = ds_last_local_time dr + secs 40
                \<and> kd_hard_terminate_at (ak_deadlines ak) = kd_soft_terminate_at (ak_deadlines ak)
                \<and> kd_hard_terminate_at (ak_deadlines ak) + secs 20
                      = ds_last_local_time dr + KEY_LEASE_EXPIRATION))"
proof -
  obtain lt where *:
    "create_pending_action sh (rn_action rn) now i (ds_id dr)
       (Spawn (sc_executable sc) (acquired_key key dr (epoch_millis now)) tok)
       (scheduled now i (new_backend_row now i sc cl (ds_id dr) tok lt) (new_key_row now i key) d) = Inr d'"
    "\<forall>b\<in>set (backends d). b_id b \<noteq> i"
    using create_backend_cases [OF assms(2)] by metis
  let ?m = "\<lparr> am_action_id = name_new_random action_prefix (rn_action rn), am_backend_id = i,
      am_drone_id = ds_id dr, am_action = Spawn (sc_executable sc) (acquired_key key dr (epoch_millis now)) tok \<rparr>"
  let ?deadlines = "\<lambda>ak. ak_key ak = key \<and> ak_token ak = epoch_millis now
    \<and> kd_renew_at (ak_deadlines ak) = ds_last_local_time dr + secs 30
    \<and> kd_soft_terminate_at (ak_deadlines ak) = ds_last_local_time dr + secs 40
    \<and> kd_hard_terminate_at (ak_deadlines ak) = kd_soft_terminate_at (ak_deadlines ak)
    \<and> kd_hard_terminate_at (ak_deadlines ak) + secs 20 = ds_last_local_time dr + KEY_LEASE_EXPIRATION"
  have none: "find_row (\<lambda>b. b_id b = i) (backends d) = None" using *(2) by (simp add: find_row_None_iff)
  have "find_row (\<lambda>b. b_id b = i) (backends d') = Some (new_backend_row now i sc cl (ds_id dr) tok lt)"
    using none by (simp add: create_pending_action_tables(1) [OF *(1)] find_row_append)
  moreover have "key_held d' = (key_held d)((kc_namespace key, kc_name key) \<mapsto> (i, now + KEY_LEASE_EXPIRATION))"
    by (intro ext) (simp add: key_held_create_backend(2) [OF assms(2)])
  moreover have "?m \<in> unacked (ds_id dr) d'" using unacked_create [OF *(1), of "ds_id dr"] by simp
  moreover have "?deadlines (acquired_key key dr (epoch_millis now))"
    by (simp add: acquired_key_def lease_consts secs_def)
  ultimately show ?thesis
    using db_ok_create_backend [OF assms] key_held_create_backend(1) [OF assms(2)] none
    by (intro conjI bexI [of _ ?m] exI [of _ "acquired_key key dr (epoch_millis now)"]
          exI [of _ "new_backend_row now i sc cl (ds_id dr) tok lt"])
       (simp_all add: get_backend_def)
qed

theorem spawn_takes_free_key_witness:
  "key_held example_db ([], ''k2'') = None
   \<and> key_held (snd (projr (create_backend_with_key (\<lambda>_. ''1'') example_rn 0
        \<lparr> kc_name = ''k2'', kc_namespace = [], kc_tag = [] \<rparr> (example_spawn\<lparr> sc_id := Some ''b2'' \<rparr>) ''c''
        example_dfs None example_db))) ([], ''k2'') = Some (''b2'', secs 60)"
  using spawn_takes_free_key [OF example_db_ok example_create] by (simp add: KEY_LEASE_EXPIRATION_def)

text \<open>
  C16: \<open>connect\<close> makes at most three attempts and always returns. Its result is that of the last
  attempt; every earlier attempt failed with a lost race (the key could not be removed or acquired),
  and such an error is returned only after three attempts.
\<close>

theorem connect_at_most_three_attempts:
  fixes runs request cx
  defines "attempt \<equiv> (\<lambda>n d. case runs n of (rn, env, clock) \<Rightarrow> attempt_connect cx rn env clock request d)"
  shows "\<exists>n ds. 1 \<le> n \<and> n \<le> 3 \<and> length ds = n \<and> hd ds = d
    \<and> attempt n (last ds) = connect cx runs request d
    \<and> (\<forall>i<n - 1. \<exists>e. attempt (i + 1) (ds ! i) = (Inl e, ds ! (i + 1)) \<and> retryable e)
    \<and> (\<forall>e. fst (connect cx runs request d) = Inl e \<and> retryable e \<longrightarrow> n = 3)"
proof -
  have loop: "connect_loop cx runs request n x = (case attempt n x of (Inr r, d') \<Rightarrow> (Inr r, d')
      | (Inl e, d') \<Rightarrow> if \<not> retryable e \<or> n \<ge> 3 then (Inl e, d') else connect_loop cx runs request (n + 1) d')"
    for n x by (subst connect_loop.simps) (simp add: attempt_def split: prod.split)
  have stop: "connect_loop cx runs request n x = attempt n x"
    if "n \<ge> 3 \<or> (\<forall>e. fst (attempt n x) = Inl e \<longrightarrow> \<not> retryable e)" for n x
    using that by (subst loop) (auto split: prod.split sum.split)
  have go: "connect_loop cx runs request n x = connect_loop cx runs request (n + 1) x'"
    if "attempt n x = (Inl e, x')" "retryable e" "n < 3" for n x x' e
    using that by (subst loop) simp
  let ?fails = "\<lambda>n x. \<exists>e x'. attempt n x = (Inl e, x') \<and> retryable e"
  have nofail: "\<forall>e. fst (attempt n x) = Inl e \<longrightarrow> \<not> retryable e" if "\<not> ?fails n x" for n x
    using that by (cases "attempt n x") auto
  show ?thesis
  proof (cases "?fails 1 d")
    case False
    then show ?thesis using stop [of 1 d] nofail [OF False]
      by (intro exI [of _ 1] exI [of _ "[d]"]) (auto simp: connect_def)
  next
    case True
    then obtain e1 d1 where 1: "attempt 1 d = (Inl e1, d1)" "retryable e1" by blast
    show ?thesis
    proof (cases "?fails 2 d1")
      case False
      then show ?thesis using stop [of 2 d1] nofail [OF False] go [OF 1] 1
        by (intro exI [of _ 2] exI [of _ "[d, d1]"]) (auto simp: connect_def simp del: One_nat_def)
    next
      case True
      then obtain e2 d2 where 2: "attempt 2 d1 = (Inl e2, d2)" "retryable e2" by blast
      have "connect cx runs request d = attempt 3 d2"
        using go [OF 1] go [OF 2] stop [of 3 d2] by (simp add: connect_def del: One_nat_def)
      then show ?thesis using 1 2
        by (intro exI [of _ 3] exI [of _ "[d, d1, d2]"]) (auto simp: less_Suc_eq numeral_3_eq_3 numeral_2_eq_2)
    qed
  qed
qed

theorem connect_at_most_three_attempts_witness:
  "\<exists>n\<le>3::nat. \<exists>x. attempt_connect example_ctx example_rn (\<lambda>_ d. d) (\<lambda>_. 1) (example_request ''k'') x
     = connect example_ctx (\<lambda>_. (example_rn, \<lambda>_ d. d, \<lambda>_. 1)) (example_request ''k'') example_backend_db"
  using connect_at_most_three_attempts [where runs = "\<lambda>_. (example_rn, \<lambda>_ d. d, \<lambda>_. 1)" and cx = example_ctx
      and request = "example_request ''k''" and d = example_backend_db] by auto

text \<open>
  Revoking takes away exactly the tokens of one user for one backend. Afterwards a token of
  that user for that backend is not found, and every other token, a static token included, is
  answered as before.
\<close>

theorem revoke_exact:
  assumes "db_ok d"
  shows "db_ok (revoke r d) \<and> route_info_for_token hp tok (revoke r d) =
    (if \<not> is_static tok \<and> (\<exists>t\<in>set (tokens d). t_token t = tok \<and> t_backend_id t = rr_backend_id r
          \<and> t_username t = Some (rr_user r))
     then Inr NotFound else route_info_for_token hp tok d)"
proof -
  let ?P = "\<lambda>t. t_backend_id t = rr_backend_id r \<and> t_username t = Some (rr_user r)"
  have u: "unique_on t_token (tokens d)" using assms by (simp add: db_ok_def schema_ok_def)
  have iff: "(\<exists>t\<in>set (tokens d). t_token t = tok \<and> ?P t)
      \<longleftrightarrow> (\<exists>t. find_row (\<lambda>t. t_token t = tok) (tokens d) = Some t \<and> ?P t)"
    using rows_affected_find [OF u, of tok ?P] by (simp add: exists_row_iff)
  note del = find_row_filter_key [OF u, of tok ?P]
  show ?thesis
  proof (cases "find_row (\<lambda>t. t_token t = tok) (tokens d)")
    case None
    then show ?thesis unfolding iff using del db_ok_revoke [OF assms]
      by (simp add: route_info_for_token_def revoke_def route_info_for_static_token_def)
  next
    case (Some t)
    then show ?thesis unfolding iff using del db_ok_revoke [OF assms]
      by (cases "?P t") (auto simp: route_info_for_token_def revoke_def route_info_for_static_token_def)
  qed
qed

theorem revoke_exact_witness:
  "route_info_for_token (\<lambda>_. True) ''tok'' (revoke \<lparr> rr_backend_id = ''b1'', rr_user = ''u'' \<rparr> example_backend_db)
     = Inr NotFound"
  using revoke_exact [OF example_backend_db_ok, of "\<lparr> rr_backend_id = ''b1'', rr_user = ''u'' \<rparr>" "\<lambda>_. True" "''tok''"]
  by (simp add: example_backend_defs is_static_def starts_with_def STATIC_TOKEN_PREFIX_def)

text \<open>
  The id of a spawn request is not validated. A request whose id is not a valid name is
  spawned like any other, and from then on listing the backends fails with a decoding error.
\<close>

theorem invalid_id_blocks_listing:
  assumes "db_ok d" and "sc_id sc = Some i" and "\<not> valid_name backend_prefix i"
    and "create_backend_with_key sh rn now key sc cl dr tok d = Inr (j, d')"
  shows "j = i \<and> (\<exists>e. list_backends t d' = Inl e)"
proof -
  have j: "j = i" using create_backend_id [OF assms(4)] assms(2) by (simp add: or_random_def)
  obtain lt where "backends d' = backends d @ [new_backend_row now i sc cl (ds_id dr) tok lt]"
    using assms(4) unfolding j by (rule create_backend_tables)
  then have new: "new_backend_row now i sc cl (ds_id dr) tok lt \<in> set (backends d')" by simp
  obtain e where e: "decode_backend_row t (new_backend_row now i sc cl (ds_id dr) tok lt) = Inl e"
    using assms(3) name_try_from_Inr [of backend_prefix i]
    by (cases "name_try_from backend_prefix i") (auto simp: decode_backend_row_def decode_backend_name_def)
  show ?thesis unfolding list_backends_def using j decode_all_error [OF new, of "decode_backend_row t", OF e] by simp
qed

theorem invalid_id_blocks_listing_witness:
  "\<exists>e. list_backends 5 (snd (projr (create_backend_with_key (\<lambda>_. ''1'') example_rn 0
        \<lparr> kc_name = ''k2'', kc_namespace = [], kc_tag = [] \<rparr> (example_spawn\<lparr> sc_id := Some ''A b'' \<rparr>) ''c''
        example_dfs None example_db))) = Inl e"
  using invalid_id_blocks_listing [OF example_db_ok _ _ example_create, of "''A b''" "''A b''" 5]
  by (simp add: valid_name_def prefix_defs MAX_NAME_LENGTH_def name_char_def ascii_class_defs)

text \<open>
  A lifetime limit is a signed number that is cast to an unsigned one. A limit that is not
  negative becomes an interval of as many seconds; a negative limit is turned into a huge number
  and the request fails with a panic instead of an error.
\<close>

theorem lifetime_limit_bounds:
  assumes "- (2 ^ 31) \<le> l" and "l < 2 ^ 31"
  shows "lifetime_interval (Some l) =
    (if l < 0 then Inl (Panic ''valid interval'') else Inr (Some (secs l)))"
  using assms lifetime_interval_u31 [of l] lifetime_interval_negative [of l] by simp

theorem lifetime_limit_bounds_witness:
  "lifetime_interval (Some (-1)) = Inl (Panic ''valid interval'')"
  using lifetime_limit_bounds [of "-1"] by simp

end
