(* ===== verification/Subscribe.thy ===== *)
theory Subscribe
  imports Db_Backend
begin

text \<open>
  The subscription manager of a controller, from \<open>plane/src/database/subscribe.rs\<close>: it listens to the
  notifications of the database, catches up from the event table after a lost connection, drops
  what it has already seen, and hands each event to the subscribers of its kind and key.

  A connection of the manager to the database is a \<open>session\<close>: whether the connection and the listen
  statement succeeded, what each query of the catch-up loop saw, and the notifications received until
  the connection was lost (\<open>None\<close> is one that does not decode). A broadcast channel of \<open>tokio\<close> is the
  list of what was sent with a cursor for every receiver; its capacity is the parameter \<open>cap\<close>.
\<close>

section \<open>Events in the database\<close>

definition notification_of_row :: "event_row \<Rightarrow> Notification" where
  "notification_of_row e = \<lparr> nt_id = Some (ev_id e), nt_timestamp = ev_created_at e, nt_kind = ev_kind e,
     nt_key = ev_key e, nt_payload = ev_data e \<rparr>"

definition get_events_since :: "int \<Rightarrow> db \<Rightarrow> Notification list" where
  "get_events_since since d =
     map notification_of_row (take 100 (sort_key ev_id (filter (\<lambda>e. ev_id e > since) (events d))))"

definition clean_up_events :: "time \<Rightarrow> int \<Rightarrow> db \<Rightarrow> db" where
  "clean_up_events now min_age_days d =
     d\<lparr> events := delete_where (\<lambda>e. ev_created_at e < now - secs (min_age_days * 86400)) (events d) \<rparr>"

section \<open>The loop of the manager\<close>

record session =
  se_connected :: bool
  se_listening :: bool
  se_snapshots :: "nat \<Rightarrow> db option"
  se_received :: "Notification option list"

text \<open>The catch-up loop: the \<open>n\<close>-th query sees \<open>snap n\<close>, or fails when that is \<open>None\<close>. The result is
  whether the loop ended without an error, what was sent, and the last id.\<close>

partial_function (option) catch_up ::
  "(nat \<Rightarrow> db option) \<Rightarrow> nat \<Rightarrow> int \<Rightarrow> Notification list \<Rightarrow> (bool \<times> Notification list \<times> int) option" where
  "catch_up snap n prev_last_message sent =
     (case snap n of
        None \<Rightarrow> Some (False, sent, prev_last_message)
      | Some d \<Rightarrow>
          (let messages = get_events_since prev_last_message d in
           if messages = [] then Some (True, sent, prev_last_message)
           else catch_up snap (n + 1) (the (nt_id (last messages))) (sent @ messages)))"

fun receive :: "Notification option list \<Rightarrow> int option \<Rightarrow> Notification list \<times> int option" where
  "receive [] last_message = ([], last_message)"
| "receive (None # ns) last_message = receive ns last_message"
| "receive (Some n # ns) last_message =
     (case nt_id n of
        None \<Rightarrow> (let (sent, l) = receive ns last_message in (n # sent, l))
      | Some notification_id \<Rightarrow>
          if (case last_message of Some l \<Rightarrow> notification_id \<le> l | None \<Rightarrow> False)
          then receive ns last_message
          else (let (sent, l) = receive ns (Some notification_id) in (n # sent, l)))"

definition manager_session ::
  "session \<Rightarrow> int option \<Rightarrow> (Notification list \<times> int option) option" where
  "manager_session s last_message =
     (if \<not> se_connected s \<or> \<not> se_listening s then Some ([], last_message)
      else case last_message of
        None \<Rightarrow> Some (receive (se_received s) None)
      | Some prev \<Rightarrow>
          (case catch_up (se_snapshots s) 0 prev [] of
             None \<Rightarrow> None
           | Some (False, sent, l) \<Rightarrow> Some (sent, Some l)
           | Some (True, sent, l) \<Rightarrow>
               (let (sent', l') = receive (se_received s) (Some l) in Some (sent @ sent', l'))))"

fun manager_run :: "session list \<Rightarrow> int option \<Rightarrow> (Notification list \<times> int option) option" where
  "manager_run [] last_message = Some ([], last_message)"
| "manager_run (s # ss) last_message =
     (case manager_session s last_message of
        None \<Rightarrow> None
      | Some (sent, l) \<Rightarrow> (case manager_run ss l of
          None \<Rightarrow> None | Some (sent', l') \<Rightarrow> Some (sent @ sent', l')))"

section \<open>Subscriptions\<close>

type_synonym listener_key = "string \<times> string option"

record sender =
  sd_sent :: "Notification list"
  sd_receivers :: "(nat \<times> nat) list"

type_synonym listener_map = "listener_key \<Rightarrow> sender option"

definition receiver_count :: "sender \<Rightarrow> nat" where
  "receiver_count s = length (sd_receivers s)"

text \<open>\<open>TypedSender::send\<close>: a payload of another type does not decode and is dropped; with no receivers
  the channel refuses the value.\<close>

definition typed_send :: "string \<Rightarrow> Notification \<Rightarrow> sender \<Rightarrow> sender" where
  "typed_send kind n s =
     (if payload_kind (nt_payload n) \<noteq> kind \<or> receiver_count s = 0 then s
      else s\<lparr> sd_sent := sd_sent s @ [n] \<rparr>)"

definition send_to :: "listener_key \<Rightarrow> Notification \<Rightarrow> listener_map \<Rightarrow> listener_map" where
  "send_to k n listeners = (case listeners k of
     Some s \<Rightarrow> listeners(k \<mapsto> typed_send (fst k) n s) | None \<Rightarrow> listeners)"

definition send_message :: "Notification \<Rightarrow> listener_map \<Rightarrow> listener_map" where
  "send_message n listeners =
     (let l1 = (case nt_key n of Some key \<Rightarrow> send_to (nt_kind n, Some key) n listeners | None \<Rightarrow> listeners)
      in send_to (nt_kind n, None) n l1)"

text \<open>The number of a receiver identifies it.\<close>

definition subscribe :: "listener_key \<Rightarrow> nat \<Rightarrow> listener_map \<Rightarrow> listener_map" where
  "subscribe k r listeners = (case listeners k of
     Some s \<Rightarrow> listeners(k \<mapsto> s\<lparr> sd_receivers := (r, length (sd_sent s)) # sd_receivers s \<rparr>)
   | None \<Rightarrow> listeners(k \<mapsto> \<lparr> sd_sent = [], sd_receivers = [(r, 0)] \<rparr>))"

definition drop_subscription :: "listener_key \<Rightarrow> nat \<Rightarrow> listener_map \<Rightarrow> listener_map" where
  "drop_subscription k r listeners = (case listeners k of
     Some s \<Rightarrow>
       (let s' = s\<lparr> sd_receivers := filter (\<lambda>(r', _). r' \<noteq> r) (sd_receivers s) \<rparr>
        in if receiver_count s' = 0 then listeners(k := None) else listeners(k \<mapsto> s'))
   | None \<Rightarrow> listeners)"

text \<open>\<open>Subscription::next\<close>: the next value, or \<open>None\<close> when the receiver lags behind by more than the
  capacity (it then continues with the oldest value that is left) or nothing is there.\<close>

definition next_notification ::
  "nat \<Rightarrow> listener_key \<Rightarrow> nat \<Rightarrow> listener_map \<Rightarrow> Notification option \<times> listener_map" where
  "next_notification cap k r listeners = (case listeners k of
     None \<Rightarrow> (None, listeners)
   | Some s \<Rightarrow> (case map_of (sd_receivers s) r of
       None \<Rightarrow> (None, listeners)
     | Some c \<Rightarrow>
         (let n = length (sd_sent s);
              move = (\<lambda>c'. listeners(k \<mapsto> s\<lparr> sd_receivers :=
                        map (\<lambda>(r', x). if r' = r then (r', c') else (r', x)) (sd_receivers s) \<rparr>))
          in if n > c + cap then (None, move (n - cap))
             else if c < n then (Some (sd_sent s ! c), move (c + 1))
             else (None, listeners))))"

section \<open>Lemmas on the loop\<close>

abbreviation eid :: "Notification \<Rightarrow> int" where
  "eid n \<equiv> the (nt_id n)"

text \<open>All events of the database in the order of their ids.\<close>

definition log_ok :: "Notification list \<Rightarrow> bool" where
  "log_ok E \<longleftrightarrow> sorted_wrt (<) (map eid E) \<and> (\<forall>n\<in>set E. nt_id n \<noteq> None)"

text \<open>A session in which the events become visible in the order of their ids: its queries see longer
  and longer prefixes of the log, or fail, and it receives a part of the log without gaps that
  starts before the end of what its first query sees.\<close>

definition session_of :: "Notification list \<Rightarrow> (nat \<Rightarrow> nat) \<Rightarrow> nat \<Rightarrow> nat \<Rightarrow> session \<Rightarrow> bool" where
  "session_of E f a b s \<longleftrightarrow> mono f \<and> (\<forall>n. f n \<le> length E) \<and> a \<le> f 0 \<and> b \<le> length E
     \<and> (\<forall>n d. se_snapshots s n = Some d \<longrightarrow>
           sorted_wrt (<) (map ev_id (events d)) \<and> map notification_of_row (events d) = take (f n) E)
     \<and> se_received s = map Some (drop a (take b E))"

lemma drop_take_split:
  assumes "c \<le> k" and "k \<le> m"
  shows "drop c (take m xs) = drop c (take k xs) @ drop k (take m xs)"
proof -
  have "drop c (take m xs) = take (k - c) (drop c (take m xs)) @ drop (k - c) (drop c (take m xs))"
    by (rule append_take_drop_id [symmetric])
  also have "take (k - c) (drop c (take m xs)) = drop c (take k xs)"
    using assms by (simp add: drop_take min_def)
  also have "drop (k - c) (drop c (take m xs)) = drop k (take m xs)" using assms by simp
  finally show ?thesis .
qed

lemma eid_less: "\<lbrakk> log_ok E; i < j; j < length E \<rbrakk> \<Longrightarrow> eid (E ! i) < eid (E ! j)"
  using sorted_wrt_nth_less [of "(<)" "map eid E" i j] by (simp add: log_ok_def)

lemma filter_above_take:
  assumes "log_ok E" and "0 < c" and "c \<le> length E"
  shows "filter (\<lambda>n. eid n > eid (E ! (c - 1))) (take k E) = drop c (take k E)"
proof -
  have ge: "\<not> eid n > eid (E ! (c - 1))" if n: "n \<in> set (take c (take k E))" for n
  proof -
    from n obtain i where i: "i < c" "i < length E" "n = E ! i" by (auto simp: in_set_conv_nth)
    show ?thesis
    proof (cases "i = c - 1")
      case False
      then have "i < c - 1" "c - 1 < length E" using i assms(2,3) by linarith+
      then show ?thesis using eid_less [OF assms(1)] i(3) by (simp add: less_imp_not_less)
    qed (simp add: i(3))
  qed
  have lt: "eid n > eid (E ! (c - 1))" if n: "n \<in> set (drop c (take k E))" for n
  proof -
    from n obtain i where i: "i < length (drop c (take k E))" "n = drop c (take k E) ! i"
      by (auto simp: in_set_conv_nth)
    then have "c + i < length (take k E)" by (simp only: length_drop less_diff_conv add.commute)
    then have "n = E ! (c + i)" "c + i < length E" using i(2) by simp_all
    then show ?thesis using eid_less [OF assms(1), of "c - 1" "c + i"] assms(2) by simp
  qed
  have "filter (\<lambda>n. eid n > eid (E ! (c - 1))) (take c (take k E)) = []"
    using ge by (simp add: filter_empty_conv)
  moreover have "filter (\<lambda>n. eid n > eid (E ! (c - 1))) (drop c (take k E)) = drop c (take k E)"
    using lt by (simp add: filter_id_conv)
  ultimately show ?thesis
    using filter_append [of "\<lambda>n. eid n > eid (E ! (c - 1))" "take c (take k E)" "drop c (take k E)"]
    by (simp only: append_take_drop_id append_Nil)
qed

lemma get_events_since_log:
  assumes "log_ok E" and "0 < c" and "c \<le> length E"
    and "sorted_wrt (<) (map ev_id (events d))" and "map notification_of_row (events d) = take k E"
  shows "get_events_since (eid (E ! (c - 1))) d = take 100 (drop c (take k E))"
proof -
  let ?i = "eid (E ! (c - 1))"
  have "sorted (map ev_id (filter (\<lambda>e. ev_id e > ?i) (events d)))"
    using assms(4) by (intro sorted_filter) (simp add: strict_sorted_imp_sorted)
  then have "sort_key ev_id (filter (\<lambda>e. ev_id e > ?i) (events d)) = filter (\<lambda>e. ev_id e > ?i) (events d)"
    by (rule sort_key_id_if_sorted)
  moreover have "map notification_of_row (filter (\<lambda>e. ev_id e > ?i) (events d))
      = filter (\<lambda>n. eid n > ?i) (map notification_of_row (events d))"
    by (simp add: filter_map o_def notification_of_row_def)
  ultimately show ?thesis
    by (simp add: get_events_since_def take_map [symmetric] assms(5) filter_above_take [OF assms(1-3)]
        del: One_nat_def)
qed

lemma catch_up_cases:
  "snap n = None \<Longrightarrow> catch_up snap n p sent = Some (False, sent, p)"
  "\<lbrakk> snap n = Some d; get_events_since p d = [] \<rbrakk> \<Longrightarrow> catch_up snap n p sent = Some (True, sent, p)"
  "\<lbrakk> snap n = Some d; get_events_since p d = ms; ms \<noteq> [] \<rbrakk>
     \<Longrightarrow> catch_up snap n p sent = catch_up snap (n + 1) (eid (last ms)) (sent @ ms)"
  by (subst catch_up.simps, simp)+

lemma catch_up_exact:
  assumes "log_ok E" and "0 < c" and "c \<le> length E" and s: "session_of E f a b s"
  shows "\<exists>ok m. catch_up (se_snapshots s) n (eid (E ! (c - 1))) sent =
      Some (ok, sent @ drop c (take m E), eid (E ! (m - 1)))
    \<and> c \<le> m \<and> m \<le> length E \<and> (ok \<longrightarrow> f n \<le> m) \<and> ((\<forall>n. se_snapshots s n \<noteq> None) \<longrightarrow> ok)"
  using assms(2,3)
proof (induction "length E - c" arbitrary: c n sent rule: less_induct)
  case less
  show ?case
  proof (cases "se_snapshots s n")
    case None
    then show ?thesis using less.prems catch_up_cases(1) [of "se_snapshots s" n, OF None]
      by (intro exI [of _ False] exI [of _ c]) (auto simp del: One_nat_def)
  next
    case (Some d)
    define k where "k = f n"
    let ?ms = "take 100 (drop c (take k E))"
    have k: "k \<le> length E" using s by (simp add: session_of_def k_def)
    have ms: "get_events_since (eid (E ! (c - 1))) d = ?ms"
      using s Some less.prems by (intro get_events_since_log [OF assms(1)]) (auto simp: session_of_def k_def)
    show ?thesis
    proof (cases "?ms = []")
      case True
      then have "k \<le> c" using k by auto
      then show ?thesis using catch_up_cases(2) [of "se_snapshots s" n, OF Some] True ms less.prems
        by (intro exI [of _ True] exI [of _ c]) (simp add: k_def del: One_nat_def)
    next
      case False
      define c' where "c' = c + length ?ms"
      have c': "c < c'" "c' \<le> length E" "0 < c'" using False k by (auto simp: c'_def)
      have "length ?ms = min 100 (k - c)" using k by simp
      then have msE: "?ms = drop c (take c' E)"
        unfolding c'_def by (simp only: drop_take take_take add_diff_cancel_left')
      have last: "last ?ms = E ! (c' - 1)" using c' unfolding msE by (simp add: last_conv_nth)
      have step: "catch_up (se_snapshots s) n (eid (E ! (c - 1))) sent =
          catch_up (se_snapshots s) (n + 1) (eid (E ! (c' - 1))) (sent @ ?ms)"
        using catch_up_cases(3) [of "se_snapshots s" n, OF Some ms False] last by (simp del: One_nat_def)
      have "length E - c' < length E - c" using c' by simp
      from less.hyps [OF this c'(3,2), of "n + 1" "sent @ ?ms"] obtain ok m where
        *: "catch_up (se_snapshots s) (n + 1) (eid (E ! (c' - 1))) (sent @ ?ms) =
             Some (ok, (sent @ ?ms) @ drop c' (take m E), eid (E ! (m - 1)))"
          "c' \<le> m" "m \<le> length E" "ok \<longrightarrow> f (n + 1) \<le> m" "(\<forall>n. se_snapshots s n \<noteq> None) \<longrightarrow> ok" by blast
      have "drop c (take m E) = drop c (take c' E) @ drop c' (take m E)"
        using c' *(2) by (intro drop_take_split) simp_all
      moreover have "f n \<le> f (n + 1)" using s by (simp add: session_of_def mono_def)
      ultimately show ?thesis using * c'
        by (intro exI [of _ ok] exI [of _ m]) (auto simp: step msE simp del: One_nat_def)
    qed
  qed
qed

lemma receive_old: "\<lbrakk> nt_id n \<noteq> None; eid n \<le> l \<rbrakk> \<Longrightarrow> receive (Some n # ns) (Some l) = receive ns (Some l)"
  by auto

lemma receive_new:
  "\<lbrakk> nt_id n \<noteq> None; l < eid n; receive ns (Some (eid n)) = (sent, l') \<rbrakk>
     \<Longrightarrow> receive (Some n # ns) (Some l) = (n # sent, l')"
  by auto

text \<open>Receiving a part of the log without gaps, of which the first \<open>c\<close> events are known.\<close>

lemma receive_exact:
  assumes "log_ok E" and "0 < c" and "c \<le> length E" and "a \<le> c" and "b \<le> length E"
  shows "receive (map Some (drop a (take b E))) (Some (eid (E ! (c - 1)))) =
    (drop c (take b E), Some (eid (E ! (max b c - 1))))"
  using assms(2-4)
proof (induction "b - a" arbitrary: a c)
  case 0
  then have "b \<le> a" by simp
  then show ?case using 0 by (simp add: max_def del: One_nat_def)
next
  case (Suc x)
  then have ab: "a < b" by simp
  then have hd: "drop a (take b E) = E ! a # drop (Suc a) (take b E)"
    using assms(5) by (simp add: Cons_nth_drop_Suc [symmetric])
  have id: "nt_id (E ! a) \<noteq> None" using assms(1,5) ab by (simp add: log_ok_def)
  have x: "x = b - Suc a" using Suc by simp
  show ?case
  proof (cases "a = c")
    case True
    have lt: "eid (E ! (c - 1)) < eid (E ! a)"
      using True Suc.prems ab assms(5) by (intro eid_less [OF assms(1)]) simp_all
    have "receive (map Some (drop (Suc a) (take b E))) (Some (eid (E ! (Suc a - 1)))) =
        (drop (Suc a) (take b E), Some (eid (E ! (max b (Suc a) - 1))))"
      using ab assms(5) by (intro Suc.hyps(1) [OF x]) simp_all
    moreover have "max b (Suc a) = max b c" using True ab by simp
    ultimately have "receive (map Some (drop (Suc a) (take b E))) (Some (eid (E ! a))) =
        (drop (Suc a) (take b E), Some (eid (E ! (max b c - 1))))" by (simp only: diff_Suc_1)
    from receive_new [OF id lt this] show ?thesis using hd True by (simp only: list.map)
  next
    case False
    then have le: "eid (E ! a) \<le> eid (E ! (c - 1))"
      using Suc.prems eid_less [OF assms(1), of a "c - 1"] by (cases "a = c - 1") (auto simp: less_imp_le)
    have "receive (map Some (drop (Suc a) (take b E))) (Some (eid (E ! (c - 1)))) =
        (drop c (take b E), Some (eid (E ! (max b c - 1))))"
      using Suc.prems False by (intro Suc.hyps(1) [OF x]) simp_all
    then show ?thesis unfolding hd list.map receive_old [OF id le] .
  qed
qed

lemma manager_session_exact:
  assumes "log_ok E" and "0 < c" and "c \<le> length E" and s: "session_of E f a b s"
  shows "\<exists>m. manager_session s (Some (eid (E ! (c - 1)))) = Some (drop c (take m E), Some (eid (E ! (m - 1))))
    \<and> c \<le> m \<and> m \<le> length E
    \<and> (se_connected s \<and> se_listening s \<and> (\<forall>n. se_snapshots s n \<noteq> None) \<longrightarrow> f 0 \<le> m \<and> b \<le> m)"
proof (cases "se_connected s \<and> se_listening s")
  case False
  then show ?thesis using assms(3) by (intro exI [of _ c]) (auto simp: manager_session_def)
next
  case True
  from catch_up_exact [OF assms, of 0 "[]"] obtain ok m where
    *: "catch_up (se_snapshots s) 0 (eid (E ! (c - 1))) [] = Some (ok, drop c (take m E), eid (E ! (m - 1)))"
      "c \<le> m" "m \<le> length E" "ok \<longrightarrow> f 0 \<le> m" "(\<forall>n. se_snapshots s n \<noteq> None) \<longrightarrow> ok" by auto
  show ?thesis
  proof (cases ok)
    case False
    then show ?thesis using * True
      by (intro exI [of _ m]) (auto simp: manager_session_def simp del: not_None_eq One_nat_def)
  next
    case ok: True
    have "receive (se_received s) (Some (eid (E ! (m - 1)))) =
        (drop m (take b E), Some (eid (E ! (max b m - 1))))"
      using s * ok assms(2) receive_exact [OF assms(1), of m a b]
      by (simp add: session_of_def del: One_nat_def)
    moreover have "drop c (take m E) @ drop m (take b E) = drop c (take (max b m) E)"
      using *(2) drop_take_split [of c m "max b m" E] by (cases "b \<le> m") (simp_all add: max_def)
    ultimately have "manager_session s (Some (eid (E ! (c - 1)))) =
        Some (drop c (take (max b m) E), Some (eid (E ! (max b m - 1))))"
      using True ok *(1) by (simp add: manager_session_def del: One_nat_def)
    then show ?thesis using * ok s
      by (intro exI [of _ "max b m"]) (auto simp: session_of_def simp del: One_nat_def)
  qed
qed

lemma manager_run_exact:
  assumes "log_ok E" and "0 < c" and "c \<le> length E"
    and "\<forall>s\<in>set ss. \<exists>f a b. session_of E f a b s"
  shows "\<exists>m. manager_run ss (Some (eid (E ! (c - 1)))) = Some (drop c (take m E), Some (eid (E ! (m - 1))))
    \<and> c \<le> m \<and> m \<le> length E"
  using assms(2-4)
proof (induction ss arbitrary: c)
  case Nil
  then show ?case by (intro exI [of _ c]) simp
next
  case (Cons s ss)
  then obtain f a b where "session_of E f a b s" by auto
  from manager_session_exact [OF assms(1) Cons.prems(1,2) this] obtain k where
    k: "manager_session s (Some (eid (E ! (c - 1)))) = Some (drop c (take k E), Some (eid (E ! (k - 1))))"
      "c \<le> k" "k \<le> length E" by auto
  have "0 < k" "\<forall>s\<in>set ss. \<exists>f a b. session_of E f a b s" using k(2) Cons.prems by simp_all
  from Cons.IH [OF this(1) k(3) this(2)] obtain m where
    m: "manager_run ss (Some (eid (E ! (k - 1)))) = Some (drop k (take m E), Some (eid (E ! (m - 1))))"
      "k \<le> m" "m \<le> length E" by blast
  show ?case using k m drop_take_split [of c k m E] by (intro exI [of _ m]) (simp del: One_nat_def)
qed

section \<open>Lemmas on subscriptions\<close>

text \<open>What a receiver has not yet taken, and which notifications it subscribed to.\<close>

definition inbox :: "listener_key \<Rightarrow> nat \<Rightarrow> listener_map \<Rightarrow> Notification list option" where
  "inbox k r lm = (case lm k of None \<Rightarrow> None
     | Some s \<Rightarrow> map_option (\<lambda>c. drop c (sd_sent s)) (map_of (sd_receivers s) r))"

definition wanted :: "listener_key \<Rightarrow> Notification \<Rightarrow> bool" where
  "wanted k n \<longleftrightarrow> nt_kind n = fst k \<and> payload_kind (nt_payload n) = fst k \<and> snd k \<in> {None, nt_key n}"

definition sender_ok :: "sender \<Rightarrow> bool" where
  "sender_ok s \<longleftrightarrow> sd_receivers s \<noteq> [] \<and> (\<forall>rc\<in>set (sd_receivers s). snd rc \<le> length (sd_sent s))"

definition reg_ok :: "listener_map \<Rightarrow> bool" where
  "reg_ok lm \<longleftrightarrow> (\<forall>k s. lm k = Some s \<longrightarrow> sender_ok s)"

datatype registry_event = Publish Notification | Join listener_key nat | Leave listener_key nat

fun registry_step :: "registry_event \<Rightarrow> listener_map \<Rightarrow> listener_map" where
  "registry_step (Publish n) lm = send_message n lm"
| "registry_step (Join k r) lm = subscribe k r lm"
| "registry_step (Leave k r) lm = drop_subscription k r lm"

fun touches :: "listener_key \<Rightarrow> nat \<Rightarrow> registry_event \<Rightarrow> bool" where
  "touches k r (Publish n) = False"
| "touches k r (Join k' r') = (k' = k \<and> r' = r)"
| "touches k r (Leave k' r') = (k' = k \<and> r' = r)"

fun published :: "registry_event list \<Rightarrow> Notification list" where
  "published [] = []"
| "published (Publish n # evs) = n # published evs"
| "published (_ # evs) = published evs"

lemma reg_ok_upd: "\<lbrakk> reg_ok lm; sender_ok s \<rbrakk> \<Longrightarrow> reg_ok (lm(k \<mapsto> s))"
  by (simp add: reg_ok_def)

lemma reg_okD: "\<lbrakk> reg_ok lm; lm k = Some s \<rbrakk> \<Longrightarrow> sender_ok s"
  by (cases k) (simp add: reg_ok_def)

lemma reg_ok_send_to: "reg_ok lm \<Longrightarrow> reg_ok (send_to k n lm)"
  by (cases "lm k")
     (auto simp: send_to_def typed_send_def sender_ok_def le_SucI intro!: reg_ok_upd dest: reg_okD)

lemma reg_ok_step:
  assumes "reg_ok lm" shows "reg_ok (registry_step ev lm)"
proof (cases ev)
  case (Publish n)
  then show ?thesis using assms by (simp add: send_message_def Let_def reg_ok_send_to split: option.split)
next
  case (Join k r)
  then show ?thesis using assms
    by (cases "lm k") (auto simp: subscribe_def sender_ok_def intro!: reg_ok_upd dest: reg_okD)
next
  case (Leave k r)
  show ?thesis
  proof (cases "lm k")
    case None
    then show ?thesis using assms Leave by (simp add: drop_subscription_def)
  next
    case (Some s)
    have "reg_ok (lm(k := None))" using assms by (simp add: reg_ok_def)
    moreover have "sender_ok s" using assms Some by (rule reg_okD)
    ultimately show ?thesis using assms Leave Some
      by (auto simp: drop_subscription_def receiver_count_def Let_def sender_ok_def intro!: reg_ok_upd)
  qed
qed

lemma inbox_cong: "lm' k = lm k \<Longrightarrow> inbox k r lm' = inbox k r lm"
  by (simp add: inbox_def)

lemma inbox_send_to:
  assumes "reg_ok lm" and "inbox k r lm = Some q"
  shows "inbox k r (send_to k' n lm) =
    Some (if k' = k \<and> payload_kind (nt_payload n) = fst k then q @ [n] else q)"
proof (cases "k' = k")
  case True
  from assms(2) obtain s c where s: "lm k = Some s" "map_of (sd_receivers s) r = Some c" "q = drop c (sd_sent s)"
    by (auto simp: inbox_def split: option.splits)
  have "c \<le> length (sd_sent s)" using reg_okD [OF assms(1) s(1)] map_of_SomeD [OF s(2)] by (auto simp: sender_ok_def)
  moreover have "sd_receivers s \<noteq> []" using s(2) by auto
  ultimately show ?thesis using True s by (simp add: inbox_def send_to_def typed_send_def receiver_count_def)
next
  case False
  then have "send_to k' n lm k = lm k" by (simp add: send_to_def split: option.split)
  from inbox_cong [of "send_to k' n lm" k lm, OF this] show ?thesis using assms(2) False by simp
qed

lemma inbox_publish:
  assumes "reg_ok lm" and "inbox k r lm = Some q"
  shows "inbox k r (send_message n lm) = Some (if wanted k n then q @ [n] else q)"
proof -
  obtain kind key where k: "k = (kind, key)" by fastforce
  show ?thesis
  proof (cases "nt_key n")
    case None
    then show ?thesis using inbox_send_to [OF assms, of "(nt_kind n, None)" n] k
      by (auto simp: send_message_def wanted_def)
  next
    case (Some x)
    let ?l1 = "send_to (nt_kind n, Some x) n lm"
    have 1: "inbox k r ?l1 = Some (if (nt_kind n, Some x) = k \<and> payload_kind (nt_payload n) = fst k then q @ [n] else q)"
      using inbox_send_to [OF assms] .
    show ?thesis
      using Some inbox_send_to [OF reg_ok_send_to [OF assms(1)] 1, of "(nt_kind n, None)" n] k
      by (auto simp: send_message_def wanted_def)
  qed
qed

lemma map_of_filter_other: "r' \<noteq> r \<Longrightarrow> map_of (filter (\<lambda>(x, _). x \<noteq> r') xs) r = map_of xs r"
  by (induction xs) auto

lemma inbox_step:
  assumes "reg_ok lm" and "inbox k r lm = Some q" and "\<not> touches k r ev"
  shows "inbox k r (registry_step ev lm) = Some (q @ filter (wanted k) (published [ev]))"
proof (cases ev)
  case (Publish n)
  then show ?thesis using inbox_publish [OF assms(1,2)] by simp
next
  case (Join k' r')
  then show ?thesis using assms(2,3)
    by (auto simp: inbox_def subscribe_def split: option.splits)
next
  case (Leave k' r')
  show ?thesis
  proof (cases "k' = k")
    case True
    from assms(2) obtain s c where s: "lm k = Some s" "map_of (sd_receivers s) r = Some c" "q = drop c (sd_sent s)"
      by (auto simp: inbox_def split: option.splits)
    have "map_of (filter (\<lambda>(x, _). x \<noteq> r') (sd_receivers s)) r = Some c"
      using s(2) True Leave assms(3) by (simp add: map_of_filter_other)
    moreover then have "filter (\<lambda>(x, _). x \<noteq> r') (sd_receivers s) \<noteq> []" by (metis map_of.simps(1) option.discI)
    ultimately show ?thesis using Leave True s
      by (simp add: inbox_def drop_subscription_def receiver_count_def Let_def)
  next
    case False
    then have "drop_subscription k' r' lm k = lm k"
      by (simp add: drop_subscription_def Let_def split: option.split)
    from inbox_cong [of "drop_subscription k' r' lm" k lm, OF this] show ?thesis using Leave assms(2) by simp
  qed
qed

lemma published_Cons: "published (ev # evs) = published [ev] @ published evs"
  by (cases ev) simp_all

lemma inbox_run:
  assumes "reg_ok lm" and "inbox k r lm = Some q" and "list_all (\<lambda>ev. \<not> touches k r ev) evs"
  shows "inbox k r (fold registry_step evs lm) = Some (q @ filter (wanted k) (published evs))"
  using assms
proof (induction evs arbitrary: lm q)
  case (Cons ev evs)
  have "inbox k r (registry_step ev lm) = Some (q @ filter (wanted k) (published [ev]))"
    using Cons.prems by (intro inbox_step) simp_all
  then show ?case
    using Cons.IH [OF reg_ok_step [OF Cons.prems(1)]] Cons.prems(3)
    by (simp add: published_Cons [of ev evs])
qed simp

section \<open>Examples\<close>

definition example_notification :: "int \<Rightarrow> Notification" where
  "example_notification i = \<lparr> nt_id = Some i, nt_timestamp = 0, nt_kind = ''node_connection'', nt_key = None,
     nt_payload = PNodeConnection 1 True \<rparr>"

definition example_events_db :: db where
  "example_events_db = empty_db\<lparr> events := [\<lparr> ev_id = 1, ev_kind = ''node_connection'', ev_key = None,
     ev_created_at = 0, ev_data = PNodeConnection 1 True \<rparr>] \<rparr>"

section \<open>Properties\<close>



text \<open>
  The filter on ids that protects against repeated delivery also drops events that become
  visible late. Ids are drawn before a transaction commits and notifications follow the order of
  the commits; an event whose notification arrives after that of an event with a higher id is never
  delivered, neither from the notification nor by the queries of later sessions.
\<close>

theorem late_event_lost:
  assumes "nt_id late = Some i" and "nt_id early = Some j" and "i < j" and "l < j"
  shows "receive [Some early, Some late] (Some l) = ([early], Some j)
    \<and> (\<forall>d. late \<notin> set (get_events_since j d))"
  using assms by (auto simp: get_events_since_def notification_of_row_def dest: in_set_takeD)

theorem late_event_lost_witness:
  "fst (receive [Some (example_notification 3), Some (example_notification 2)] (Some 1)) = [example_notification 3]"
  using late_event_lost [of "example_notification 2" 2 "example_notification 3" 3 1]
  by (simp add: example_notification_def)



end
