(* ===== verification/Db_System.thy ===== *)
theory Db_System
  imports Connect Subscribe
begin

text \<open>
  The database as one shared state machine. A controller changes the database only through the
  statements and transactions of \<open>plane/src/database\<close>; \<open>db_step\<close> has one rule for each of them, and a
  failing one leaves the database as it is. Runs of several controllers are sequences of steps in
  any order. \<open>db_run\<close> is such a sequence with the times of its steps, which do not go back;
  \<open>db_reaches\<close> forgets the times.
\<close>

section \<open>Steps\<close>

text \<open>The statements that leave the table of keys alone, and then all statements.\<close>

inductive other_step :: "time \<Rightarrow> db \<Rightarrow> db \<Rightarrow> bool" where
  step_register: "register now cluster name kind controller version ip d = Inr (r, d') \<Longrightarrow> other_step now d d'"
| step_mark_offline: "other_step now d (mark_offline now node controller start d)"
| step_register_drone: "register_drone i ready pool d = Inr d' \<Longrightarrow> other_step now d d'"
| step_drain: "drain i d = Inr (r, d') \<Longrightarrow> other_step now d d'"
| step_drone_heartbeat: "other_step now d (drone_heartbeat now i local_time d)"
| step_controller_heartbeat: "other_step now d (controller_heartbeat now version hash name online d)"
| step_lease_dns: "lease_cluster_dns now cluster proxy d = Inr (r, d') \<Longrightarrow> other_step now d d'"
| step_set_dns: "other_step now d (snd (set_cluster_dns cluster proxy txt d))"
| step_release_dns: "other_step now d (release_cluster_lease cluster proxy d)"
| step_keepalive: "other_step now d (snd (update_keepalive now i d))"
| step_metrics: "other_step now d (publish_metrics now metrics d)"
| step_ack: "other_step now d (ack_pending_action now action_id drone d)"
| step_action: "create_pending_action show_id samples now i drone action d = Inr d' \<Longrightarrow> other_step now d d'"
| step_create_token: "create_token rn now i user auth d = Inr (r, d') \<Longrightarrow> other_step now d d'"
| step_revoke: "other_step now d (revoke request d)"
| step_clean_tokens: "other_step now d (clean_up_tokens now d)"
| step_clean_events: "other_step now d (clean_up_events now days d)"

inductive db_step :: "time \<Rightarrow> db \<Rightarrow> db \<Rightarrow> bool" where
  step_update_state: "update_state now i st d = Inr (r, d') \<Longrightarrow> db_step now d d'"
| step_cleanup: "cleanup now days batch d = Inr d' \<Longrightarrow> db_step now d d'"
| step_prevent_renew: "db_step now d (snd (prevent_renew i d))"
| step_remove_key: "db_step now d (snd (remove_key now i d))"
| step_renew_key: "renew_key now i d = Inr d' \<Longrightarrow> db_step now d d'"
| step_create_backend: "create_backend_with_key show_id rn now key sc cluster drone token d = Inr (i, d') \<Longrightarrow> db_step now d d'"
| step_other: "other_step now d d' \<Longrightarrow> db_step now d d'"

definition db_reaches :: "db \<Rightarrow> db \<Rightarrow> bool" where
  "db_reaches = (\<lambda>d d'. \<exists>now. db_step now d d')\<^sup>*\<^sup>*"

inductive db_run :: "time \<Rightarrow> db \<Rightarrow> time \<Rightarrow> db \<Rightarrow> bool" where
  run_refl: "db_run t d t d"
| run_step: "\<lbrakk> db_run t d t1 d1; t1 \<le> t2; db_step t2 d1 d2 \<rbrakk> \<Longrightarrow> db_run t d t2 d2"

section \<open>Invariants of the steps\<close>

lemma db_ok_nodes_update:
  assumes "db_ok d" and "\<And>n. n_id (f n) = n_id n"
  shows "db_ok (d\<lparr> nodes := update_where P f (nodes d) \<rparr>)"
proof -
  have "schema_ok (d\<lparr> nodes := update_where P f (nodes d) \<rparr>)"
    using assms by (auto simp: db_ok_def schema_ok_def unique_on_update_where image_key_update_where)
  moreover have "ids_ok (d\<lparr> nodes := update_where P f (nodes d) \<rparr>)"
    using assms by (auto simp: db_ok_def ids_ok_def set_update_where)
  ultimately show ?thesis using assms(1)
    by (simp add: db_ok_def terminated_unkeyed_def history_ok_def history_def)
qed

lemma db_ok_node_conflict:
  assumes "db_ok d" and "\<And>n. n_id (f n) = n_id n"
  shows "db_ok (d\<lparr> nodes := update_where P f (nodes d), next_node_id := next_node_id d + 1 \<rparr>)"
  using db_ok_nodes_update [of d f P, OF assms]
  by (auto simp: db_ok_def terminated_unkeyed_def history_ok_def history_def ids_ok_def)

lemma db_ok_node_insert:
  assumes "db_ok d" and "n_id n = next_node_id d"
  shows "db_ok (d\<lparr> nodes := nodes d @ [n], next_node_id := next_node_id d + 1 \<rparr>)"
proof -
  let ?e = "d\<lparr> nodes := nodes d @ [n], next_node_id := next_node_id d + 1 \<rparr>"
  have lt: "\<forall>x\<in>set (nodes d). n_id x < next_node_id d" using assms(1) by (simp add: db_ok_def ids_ok_def)
  have "schema_ok ?e"
    using assms lt by (auto simp: db_ok_def schema_ok_def unique_on_append1 exists_row_iff)
  moreover have "ids_ok ?e" using assms lt by (auto simp: db_ok_def ids_ok_def)
  ultimately show ?thesis using assms(1)
    by (simp add: db_ok_def terminated_unkeyed_def history_ok_def history_def)
qed

lemma db_ok_register:
  assumes "db_ok d" and "register now cluster name kind controller version ip d = Inr (r, d')"
  shows "db_ok d'"
  using assms(2)
  by (auto simp: register_def Let_def emit_def split: if_splits option.splits
      intro!: db_ok_emit db_ok_node_insert [OF assms(1)] db_ok_node_conflict [OF assms(1)])

lemma db_ok_mark_offline: "db_ok d \<Longrightarrow> db_ok (mark_offline now i c t d)"
  by (auto simp: mark_offline_def Let_def emit_def intro!: db_ok_nodes_update [of "emit_impl now None _ d", simplified] db_ok_emit)

lemma db_ok_drones_update:
  assumes "db_ok d" and "\<And>r. d_id (f r) = d_id r"
  shows "db_ok (d\<lparr> drones := update_where P f (drones d) \<rparr>)"
proof -
  have img: "d_id ` set (update_where P f (drones d)) = d_id ` set (drones d)"
    using assms(2) by (rule image_key_update_where)
  have "d_id ` set (drones d) \<subseteq> n_id ` set (nodes d)" using assms(1) by (auto simp: db_ok_def schema_ok_def)
  then have "\<forall>r\<in>set (update_where P f (drones d)). d_id r \<in> n_id ` set (nodes d)"
    unfolding img [symmetric] by (simp add: image_subset_iff)
  then show ?thesis
    using assms img
    by (simp add: db_ok_def schema_ok_def unique_on_update_where terminated_unkeyed_def history_ok_def
        history_def ids_ok_def)
qed

lemma db_ok_register_drone:
  assumes "db_ok d" and "register_drone i ready pool d = Inr d'"
  shows "db_ok d'"
proof (cases "exists_row (\<lambda>r. d_id r = i) (drones d)")
  case True
  then show ?thesis using assms by (auto simp: register_drone_def intro!: db_ok_drones_update)
next
  case False
  let ?r = "\<lparr> d_id = i, d_ready = ready, d_draining = False, d_last_heartbeat = None,
     d_last_local_time = None, d_pool = pool \<rparr>"
  from False assms(2) have *: "exists_row (\<lambda>n. n_id n = i) (nodes d)"
    "d' = d\<lparr> drones := drones d @ [?r] \<rparr>" by (auto simp: register_drone_def split: if_splits)
  have "schema_ok d'"
    using assms(1) False * by (auto simp: db_ok_def schema_ok_def unique_on_append1 exists_row_iff)
  then show ?thesis using assms(1)
    by (simp add: *(2) db_ok_def terminated_unkeyed_def history_ok_def history_def ids_ok_def)
qed

lemma db_ok_drain: "\<lbrakk> db_ok d; drain i d = Inr (r, d') \<rbrakk> \<Longrightarrow> db_ok d'"
  by (auto simp: drain_def split: option.splits intro!: db_ok_drones_update)

lemma db_ok_drone_heartbeat: "db_ok d \<Longrightarrow> db_ok (drone_heartbeat now i t d)"
  by (simp add: drone_heartbeat_def db_ok_drones_update)

lemma db_ok_controllers:
  "\<lbrakk> db_ok d; unique_on c_id cs \<rbrakk> \<Longrightarrow> db_ok (d\<lparr> controllers := cs \<rparr>)"
  by (simp add: db_ok_def schema_ok_def terminated_unkeyed_def history_ok_def history_def ids_ok_def)

lemma unique_controllers: "db_ok d \<Longrightarrow> unique_on c_id (controllers d)"
  by (simp add: db_ok_def schema_ok_def)

lemma db_ok_controller_heartbeat: "db_ok d \<Longrightarrow> db_ok (controller_heartbeat now v h name on d)"
  using unique_controllers [of d]
  by (auto simp: controller_heartbeat_def unique_on_update_where unique_on_append1 intro!: db_ok_controllers)

lemma db_ok_acme:
  "\<lbrakk> db_ok d; unique_on e_cluster es \<rbrakk> \<Longrightarrow> db_ok (d\<lparr> acme_txt_entries := es \<rparr>)"
  by (simp add: db_ok_def schema_ok_def terminated_unkeyed_def history_ok_def history_def ids_ok_def)

lemma unique_acme: "db_ok d \<Longrightarrow> unique_on e_cluster (acme_txt_entries d)"
  by (simp add: db_ok_def schema_ok_def)

lemma db_ok_lease_dns: "\<lbrakk> db_ok d; lease_cluster_dns now c p d = Inr (r, d') \<rbrakk> \<Longrightarrow> db_ok d'"
  using unique_acme [of d]
  by (auto simp: lease_cluster_dns_def Let_def unique_on_update_where unique_on_append1
      split: if_splits intro!: db_ok_acme)

lemma db_ok_set_dns: "db_ok d \<Longrightarrow> db_ok (snd (set_cluster_dns c p txt d))"
  using unique_acme [of d] by (auto simp: set_cluster_dns_def Let_def unique_on_update_where intro!: db_ok_acme)

lemma db_ok_release_dns: "db_ok d \<Longrightarrow> db_ok (release_cluster_lease c p d)"
  using unique_acme [of d] by (auto simp: release_cluster_lease_def intro!: db_ok_acme)

lemma db_ok_clean_events: "db_ok d \<Longrightarrow> db_ok (clean_up_events now days d)"
  by (auto simp: clean_up_events_def db_ok_def schema_ok_def terminated_unkeyed_def history_ok_def history_def
      ids_ok_def sorted_map_delete)

lemma db_ok_cleanup: "\<lbrakk> db_ok d; cleanup now days n d = Inr d' \<rbrakk> \<Longrightarrow> db_ok d'"
  using cleanup_ids_unkeyed [of d] by (auto simp: cleanup_eq intro!: db_ok_cleaned)

lemmas db_ok_statements = db_ok_register db_ok_mark_offline db_ok_register_drone db_ok_drain
  db_ok_drone_heartbeat db_ok_controller_heartbeat db_ok_lease_dns db_ok_set_dns db_ok_release_dns
  db_ok_update_state db_ok_keepalive db_ok_metrics db_ok_cleanup db_ok_ack db_ok_create_pending_action
  db_ok_prevent_renew db_ok_remove_key db_ok_renew_key db_ok_create_backend db_ok_create_token
  db_ok_revoke db_ok_clean_up_tokens db_ok_clean_events

lemma db_ok_other_step: "\<lbrakk> other_step now d d'; db_ok d \<rbrakk> \<Longrightarrow> db_ok d'"
proof (induction rule: other_step.induct)
  case (step_create_token rn now i user auth d r d')
  then show ?case by (cases r) (blast intro: db_ok_create_token)
qed (blast intro: db_ok_statements)+

lemma db_ok_step: "\<lbrakk> db_step now d d'; db_ok d \<rbrakk> \<Longrightarrow> db_ok d'"
  by (induction rule: db_step.induct) (blast intro: db_ok_statements db_ok_other_step)+

lemma db_ok_reaches: "\<lbrakk> db_reaches d d'; db_ok d \<rbrakk> \<Longrightarrow> db_ok d'"
  unfolding db_reaches_def by (induction rule: rtranclp_induct) (auto intro: db_ok_step)

lemma run_reaches: "db_run t d t' d' \<Longrightarrow> db_reaches d d'"
  unfolding db_reaches_def by (induction rule: db_run.induct) (auto intro: rtranclp.rtrancl_into_rtrancl)

lemma db_ok_run: "\<lbrakk> db_run t d t' d'; db_ok d \<rbrakk> \<Longrightarrow> db_ok d'"
  using run_reaches db_ok_reaches by blast

lemma run_time: "db_run t d t' d' \<Longrightarrow> t \<le> t'"
  by (induction rule: db_run.induct) simp_all

section \<open>Key leases over whole runs\<close>

definition terminated_in :: "BackendName \<Rightarrow> db \<Rightarrow> bool" where
  "terminated_in h d = exists_row (\<lambda>b. b_id b = h \<and> b_last_status b = status_to_string StTerminated) (backends d)"

lemma key_held_keys: "backend_keys d' = backend_keys d \<Longrightarrow> key_held d' = key_held d"
  by (simp add: key_held_def fun_eq_iff)

lemma keys_other_step: "other_step now d d' \<Longrightarrow> backend_keys d' = backend_keys d"
proof (induction rule: other_step.induct)
  case (step_action show_id samples now i drone action d d')
  then show ?case by (rule create_pending_action_tables)
qed (auto simp: register_def mark_offline_def register_drone_def drain_def drone_heartbeat_def
      controller_heartbeat_def lease_cluster_dns_def set_cluster_dns_def release_cluster_lease_def
      update_keepalive_def publish_metrics_def emit_backend_metrics_def ack_pending_action_def
      create_token_def revoke_def clean_up_tokens_def clean_up_events_def emit_def Let_def
      split: if_splits option.splits)

lemma keys_cleanup:
  assumes "db_ok d" and "cleanup now days n d = Inr d'"
  shows "backend_keys d' = backend_keys d"
proof -
  have "d' = cleaned now (set (cleanup_ids now days n d)) d" using assms by (simp add: cleanup_eq)
  then show ?thesis using cleanup_ids_unkeyed [OF assms(1), of _ now days n]
    by (auto simp: cleaned_def delete_where_def filter_id_conv)
qed

lemma key_held_prevent_renew: "key_held (snd (prevent_renew i d)) = key_held d"
proof
  fix key
  have "find_row (\<lambda>k. (k_namespace k, k_key_name k) = key) (update_where P (\<lambda>k. k\<lparr> k_allow_renew := False \<rparr>) ks)
      = map_option (\<lambda>k. if P k then k\<lparr> k_allow_renew := False \<rparr> else k)
          (find_row (\<lambda>k. (k_namespace k, k_key_name k) = key) ks)" for P and ks :: "key_row list"
    by (induction ks) (auto simp: find_row_def update_where_def)
  then show "key_held (snd (prevent_renew i d)) key = key_held d key"
    by (cases "find_row (\<lambda>k. (k_namespace k, k_key_name k) = key) (backend_keys d)")
       (simp_all add: key_held_def prevent_renew_def Let_def)
qed

lemma key_held_own_update:
  assumes "db_ok d" and "update_state now h st d = Inr (r, d')"
  shows "key_held d' = key_held d \<or> terminated_in h d'"
proof (cases "exists_row (\<lambda>b. b_id b = h \<and> may_advance st b) (backends d) \<and> is_terminated st")
  case True
  then obtain b where "b \<in> set (backends d)" "b_id b = h" "may_advance st b" by (auto simp: exists_row_iff)
  then have "set_row_state now st b \<in> set (backends d')"
    using True assms(2) by (auto simp: update_state_eq set_update_where image_iff)
  then show ?thesis
    using True \<open>b_id b = h\<close> unfolding terminated_in_def exists_row_iff
    by (intro disjI2 bexI [of _ "set_row_state now st b"]) (simp_all add: is_terminated_status)
next
  case False
  then have "backend_keys d' = backend_keys d"
    using assms(2) by (auto simp: update_state_eq drop_key_if_terminated_def split: if_splits)
  from key_held_keys [OF this] show ?thesis by simp
qed

text \<open>One step keeps a live lease, or reports its holder as terminated.\<close>

lemma live_key_step:
  assumes "db_step now d d'" and "db_ok d" and "key_held d key = Some (h, e)"
    and "now \<le> e" and "e \<le> now + KEY_LEASE_EXPIRATION"
  shows "(\<exists>e'\<ge>e. e' \<le> now + KEY_LEASE_EXPIRATION \<and> key_held d' key = Some (h, e')) \<or> terminated_in h d'"
  using assms
proof (cases rule: db_step.cases)
  case (step_update_state i st r)
  show ?thesis
  proof (cases "i = h")
    case True
    then show ?thesis
      using key_held_own_update [OF assms(2) step_update_state [unfolded True]] assms(3,5) by auto
  next
    case False
    then have "key_held d' key = key_held d key"
      using assms(3) by (intro key_held_update_state [OF assms(2) step_update_state]) simp
    then show ?thesis using assms(3,5) by auto
  qed
next
  case (step_cleanup days batch)
  then show ?thesis using key_held_keys [OF keys_cleanup [OF assms(2) step_cleanup]] assms(3,5) by auto
next
  case (step_prevent_renew i)
  then show ?thesis using assms(3,5) by (auto simp: key_held_prevent_renew)
next
  case (step_remove_key i)
  then show ?thesis using key_held_remove_key [OF assms(2,3), of now i] assms(4,5) by auto
next
  case (step_renew_key i)
  then show ?thesis using key_held_renew [OF assms(2) step_renew_key, of key] assms(3,5) by auto
next
  case (step_create_backend show_id rn key' sc cluster drone token i)
  then show ?thesis
    using key_held_create_backend(1) [OF step_create_backend] assms(3,5)
      key_held_create_backend(2) [OF step_create_backend, of key] by auto
next
  case step_other
  then show ?thesis using key_held_keys [OF keys_other_step [OF step_other]] assms(3,5) by auto
qed

lemma live_key_run:
  assumes "db_run t d t' d'" and "db_ok d" and "key_held d key = Some (h, e)"
    and "t' \<le> e" and "e \<le> t + KEY_LEASE_EXPIRATION"
  shows "(\<exists>e'\<ge>e. e' \<le> t' + KEY_LEASE_EXPIRATION \<and> key_held d' key = Some (h, e'))
    \<or> (\<exists>t1 d1. db_run t d t1 d1 \<and> db_run t1 d1 t' d' \<and> terminated_in h d1)"
  using assms
proof (induction rule: db_run.induct)
  case (run_refl t d)
  then show ?case by auto
next
  case (run_step t d t1 d1 t2 d2)
  have ok: "db_ok d1" using run_step.hyps(1) run_step.prems(1) by (rule db_ok_run)
  have step2: "db_run t1 d1 t2 d2" using run_step.hyps(2,3) by (auto intro: db_run.intros)
  have e: "t1 \<le> e" using run_step by simp
  from run_step.IH [OF run_step.prems(1,2) e run_step.prems(4)] show ?case
  proof (elim disjE exE conjE)
    fix e' assume e': "e \<le> e'" "e' \<le> t1 + KEY_LEASE_EXPIRATION" "key_held d1 key = Some (h, e')"
    have "(\<exists>x\<ge>e'. x \<le> t2 + KEY_LEASE_EXPIRATION \<and> key_held d2 key = Some (h, x)) \<or> terminated_in h d2"
      using run_step e' ok by (intro live_key_step [OF run_step.hyps(3) ok e'(3)]) simp_all
    then show ?thesis
    proof (elim disjE exE conjE)
      fix x assume "e' \<le> x" "x \<le> t2 + KEY_LEASE_EXPIRATION" "key_held d2 key = Some (h, x)"
      then show ?thesis using e'(1) by (intro disjI1 exI [of _ x]) simp
    next
      assume "terminated_in h d2"
      moreover have "db_run t d t2 d2" using run_step.hyps by (rule db_run.run_step)
      ultimately show ?thesis by (intro disjI2 exI [of _ t2] exI [of _ d2]) (simp add: db_run.run_refl)
    qed
  next
    fix t0 d0 assume "db_run t d t0 d0" "db_run t0 d0 t1 d1" "terminated_in h d0"
    moreover then have "db_run t0 d0 t2 d2" using run_step.hyps(2,3) by (auto intro: db_run.run_step)
    ultimately show ?thesis by blast
  qed
qed

text \<open>Where the rows of the key table come from.\<close>

definition same_lease :: "key_row \<Rightarrow> key_row \<Rightarrow> bool" where
  "same_lease k k' \<longleftrightarrow> k_id k' = k_id k \<and> k_namespace k' = k_namespace k \<and> k_key_name k' = k_key_name k
     \<and> k_fencing_token k' = k_fencing_token k"

definition leases_bounded :: "time \<Rightarrow> db \<Rightarrow> bool" where
  "leases_bounded t d \<longleftrightarrow> (\<forall>k\<in>set (backend_keys d).
     k_expires_at k \<le> t + KEY_LEASE_EXPIRATION \<and> k_fencing_token k \<le> epoch_millis t)"

lemma epoch_millis_mono: "t \<le> t' \<Longrightarrow> epoch_millis t \<le> epoch_millis t'"
  by (simp add: epoch_millis_def zdiv_mono1)

lemma key_rows_step:
  assumes "db_step now d d'" and "db_ok d" and "k' \<in> set (backend_keys d')"
  shows "(\<exists>k\<in>set (backend_keys d). same_lease k k' \<and> k_expires_at k' \<in> {k_expires_at k, now + KEY_LEASE_EXPIRATION})
    \<or> k_fencing_token k' = epoch_millis now \<and> k_expires_at k' = now + KEY_LEASE_EXPIRATION"
  using assms
proof (cases rule: db_step.cases)
  case (step_update_state i st r)
  then show ?thesis using assms(3)
    by (auto simp: update_state_eq drop_key_if_terminated_def same_lease_def split: if_splits)
next
  case (step_cleanup days batch)
  then show ?thesis using keys_cleanup [OF assms(2) step_cleanup] assms(3) by (auto simp: same_lease_def)
next
  case (step_prevent_renew i)
  then show ?thesis using assms(3)
    by (auto simp: prevent_renew_def Let_def set_update_where same_lease_def split: if_splits)
next
  case (step_remove_key i)
  then show ?thesis using assms(3) by (auto simp: remove_key_def Let_def same_lease_def)
next
  case (step_renew_key i)
  then obtain k where "k \<in> set (backend_keys d)"
    "k' = (if k_id k = i \<and> k_allow_renew k then k\<lparr> k_expires_at := now + KEY_LEASE_EXPIRATION \<rparr> else k)"
    using assms(3) by (auto simp: renew_key_def Let_def set_update_where split: if_splits)
  then show ?thesis by (intro disjI1 bexI [of _ k]) (auto simp: same_lease_def)
next
  case (step_create_backend show_id rn key sc cluster drone token i)
  then obtain lt where "backend_keys d' = backend_keys d @ [new_key_row now i key]"
    by (auto elim: create_backend_tables)
  then show ?thesis using assms(3) by (auto simp: same_lease_def)
next
  case step_other
  then show ?thesis using keys_other_step [OF step_other] assms(3) by (auto simp: same_lease_def)
qed

lemma leases_bounded_mono: "\<lbrakk> leases_bounded t d; t \<le> t' \<rbrakk> \<Longrightarrow> leases_bounded t' d"
  using epoch_millis_mono [of t t'] by (force simp: leases_bounded_def)

lemma leases_bounded_step:
  assumes "db_step now d d'" and "db_ok d" and "leases_bounded now d"
  shows "leases_bounded now d'"
  unfolding leases_bounded_def
proof
  fix k' assume "k' \<in> set (backend_keys d')"
  from key_rows_step [OF assms(1,2) this] show "k_expires_at k' \<le> now + KEY_LEASE_EXPIRATION
      \<and> k_fencing_token k' \<le> epoch_millis now"
    using assms(3) by (auto simp: leases_bounded_def same_lease_def)
qed

lemma leases_bounded_run: "\<lbrakk> db_run t d t' d'; db_ok d; leases_bounded t d \<rbrakk> \<Longrightarrow> leases_bounded t' d'"
proof (induction rule: db_run.induct)
  case (run_step t d t1 d1 t2 d2)
  have "db_ok d1" using run_step.hyps(1) run_step.prems(1) by (rule db_ok_run)
  then show ?case using run_step leases_bounded_mono leases_bounded_step by blast
qed simp

lemma key_rows_run:
  assumes "db_run t d t' d'" and "db_ok d" and "k' \<in> set (backend_keys d')"
  shows "(\<exists>k\<in>set (backend_keys d). same_lease k k') \<or> epoch_millis t \<le> k_fencing_token k'"
  using assms
proof (induction arbitrary: k' rule: db_run.induct)
  case (run_refl t d)
  then show ?case by (auto simp: same_lease_def)
next
  case (run_step t d t1 d1 t2 d2)
  have ok: "db_ok d1" using run_step.hyps(1) run_step.prems(1) by (rule db_ok_run)
  have le: "epoch_millis t \<le> epoch_millis t2"
    using run_time [OF run_step.hyps(1)] run_step.hyps(2) by (intro epoch_millis_mono) simp
  from key_rows_step [OF run_step.hyps(3) ok run_step.prems(2)] show ?case
  proof (elim disjE bexE conjE)
    fix k1 assume "k1 \<in> set (backend_keys d1)" and same: "same_lease k1 k'"
    from run_step.IH [OF run_step.prems(1) this(1)] same show ?thesis by (auto simp: same_lease_def)
  next
    assume "k_fencing_token k' = epoch_millis t2"
    then show ?thesis using le by simp
  qed
qed

section \<open>Connecting as a sequence of steps\<close>

lemma reaches_refl [simp]: "db_reaches d d"
  by (simp add: db_reaches_def)

lemma reaches_trans: "\<lbrakk> db_reaches a b; db_reaches b c \<rbrakk> \<Longrightarrow> db_reaches a c"
  by (simp add: db_reaches_def)

lemma reaches_step: "db_step now d d' \<Longrightarrow> db_reaches d d'"
  by (auto simp: db_reaches_def)

lemma attempt_connect_reaches:
  assumes "\<forall>i x. db_reaches x (env i x)"
  shows "db_reaches d (snd (attempt_connect cx rn env clock request d))"
proof (rule attempt_connect_inv)
  show "db_reaches d (env i x)" if "db_reaches d x" for i x using assms that by (blast intro: reaches_trans)
  show "db_reaches d (snd (remove_key (clock 1) i x))" if "db_reaches d x" for i x
    using that by (blast intro: reaches_trans reaches_step db_step.intros)
  show "db_reaches d d'" if "db_reaches d x"
    "create_backend_with_key (cx_show_id cx) rn (clock 3) key sc cl dr tok x = Inr (r, d')" for key sc cl dr tok r x d'
    using that by (blast intro: reaches_trans reaches_step db_step.intros)
  show "db_reaches d d'" if "db_reaches d x" "create_token rn now i u a x = Inr (r, d')" for now i u a r x d'
    using that by (blast intro: reaches_trans reaches_step db_step.intros other_step.intros)
qed (rule reaches_refl)

lemma connect_loop_reaches:
  assumes "\<forall>n i x. db_reaches x (fst (snd (runs n)) i x)"
  shows "db_reaches d (snd (connect_loop cx runs request n d))"
  using assms
proof (induction cx runs request n d rule: connect_loop.induct)
  case (1 cx runs request n d)
  obtain rn env clock where runs: "runs n = (rn, env, clock)" by (cases "runs n") auto
  have env: "\<forall>i x. db_reaches x (env i x)" using 1(2) runs by (metis fst_conv snd_conv)
  obtain r d1 where a: "attempt_connect cx rn env clock request d = (r, d1)" by fastforce
  have d1: "db_reaches d d1" using attempt_connect_reaches [OF env, of d cx rn clock request] a by simp
  show ?case
  proof (cases "\<exists>e. r = Inl e \<and> retryable e \<and> n < 3")
    case False
    then have "snd (connect_loop cx runs request n d) = d1"
      using runs a by (subst connect_loop.simps) (auto split: sum.split)
    then show ?thesis using d1 by simp
  next
    case True
    then obtain e where e: "r = Inl e" "retryable e" "n < 3" by blast
    then have "connect_loop cx runs request n d = connect_loop cx runs request (n + 1) d1"
      using runs a by (subst connect_loop.simps) simp
    moreover have "db_reaches d1 (snd (connect_loop cx runs request (n + 1) d1))"
      using 1(1) [OF runs [symmetric] refl a [symmetric] e(1)] e 1(2) by simp
    ultimately show ?thesis using d1 by (simp add: reaches_trans)
  qed
qed

section \<open>Properties\<close>



text \<open>
  C2: A live key is never taken from its holder. As long as the lease of a key has not expired,
  no run of any statements gives the key to another backend or drops it, unless the holder was
  reported as terminated somewhere in that run; the lease is only ever extended.
\<close>

theorem live_key_never_stolen:
  assumes "db_ok d" and "leases_bounded t d" and "key_held d key = Some (h, e)"
    and "db_run t d t' d'" and "t' \<le> e"
  shows "(\<exists>e'\<ge>e. key_held d' key = Some (h, e'))
    \<or> (\<exists>t1 d1. db_run t d t1 d1 \<and> db_run t1 d1 t' d' \<and> terminated_in h d1)"
proof -
  have "e \<le> t + KEY_LEASE_EXPIRATION"
    using assms(2,3) key_held_Some [OF assms(1)] by (auto simp: leases_bounded_def)
  from live_key_run [OF assms(4,1,3,5) this] show ?thesis by blast
qed

theorem live_key_never_stolen_witness:
  "(\<exists>e'\<ge>secs 60. key_held (snd (remove_key (secs 5) ''b1'' example_backend_db)) ([], ''k'') = Some (''b1'', e'))
    \<or> (\<exists>t1 d1. db_run 0 example_backend_db t1 d1
          \<and> db_run t1 d1 (secs 5) (snd (remove_key (secs 5) ''b1'' example_backend_db)) \<and> terminated_in ''b1'' d1)"
proof (rule live_key_never_stolen [OF example_backend_db_ok])
  show "leases_bounded 0 example_backend_db"
    by (simp add: leases_bounded_def example_backend_defs KEY_LEASE_EXPIRATION_def epoch_millis_def)
  show "key_held example_backend_db ([], ''k'') = Some (''b1'', secs 60)"
    by (simp add: key_held_def find_row_def example_backend_defs)
  show "db_run 0 example_backend_db (secs 5) (snd (remove_key (secs 5) ''b1'' example_backend_db))"
    by (rule run_step [OF run_refl]) (auto simp: secs_def intro: db_step.intros)
  show "secs 5 \<le> secs 60" by simp
qed

text \<open>
  C8: Fencing tokens never go back. If a key is held at one moment and held again later, by the
  same or by another backend, the later fencing token is at least the earlier one, and a holder
  that acquired the key in between has a token of at least the time of the first moment.
\<close>

theorem fencing_tokens_monotone:
  assumes "db_ok d" and "leases_bounded t d" and "db_run t d t' d'"
    and "k \<in> set (backend_keys d)" and "k' \<in> set (backend_keys d')"
    and "(k_namespace k', k_key_name k') = (k_namespace k, k_key_name k)"
  shows "k_fencing_token k \<le> k_fencing_token k'
    \<and> (k_id k' \<noteq> k_id k \<longrightarrow> epoch_millis t \<le> k_fencing_token k')"
proof -
  have bound: "k_fencing_token k \<le> epoch_millis t" using assms(2,4) by (simp add: leases_bounded_def)
  from key_rows_run [OF assms(3,1,5)] show ?thesis
  proof (elim disjE bexE)
    fix k0 assume k0: "k0 \<in> set (backend_keys d)" "same_lease k0 k'"
    then have "k0 = k" using unique_onD [OF unique_keys(2) [OF assms(1)] k0(1) assms(4)] assms(6)
      by (simp add: same_lease_def)
    then show ?thesis using k0(2) by (simp add: same_lease_def)
  next
    assume "epoch_millis t \<le> k_fencing_token k'"
    then show ?thesis using bound by simp
  qed
qed

theorem fencing_tokens_monotone_witness:
  "k_fencing_token example_key \<le> k_fencing_token (example_key\<lparr> k_expires_at := secs 65 \<rparr>)"
proof -
  let ?d = "projr (renew_key (secs 5) ''b1'' example_backend_db)"
  have "db_run 0 example_backend_db (secs 5) ?d"
    by (rule run_step [OF run_refl])
       (auto simp: secs_def renew_key_def rows_affected_def example_backend_defs Let_def intro!: step_renew_key)
  moreover have "leases_bounded 0 example_backend_db"
    by (simp add: leases_bounded_def example_backend_defs KEY_LEASE_EXPIRATION_def epoch_millis_def)
  moreover have "example_key \<in> set (backend_keys example_backend_db)"
    and "example_key\<lparr> k_expires_at := secs 65 \<rparr> \<in> set (backend_keys ?d)"
    by (simp_all add: example_backend_defs renew_key_def rows_affected_def update_where_def Let_def
        KEY_LEASE_EXPIRATION_def secs_def)
  ultimately show ?thesis using fencing_tokens_monotone [OF example_backend_db_ok, of 0 "secs 5" ?d example_key]
    by simp
qed



end
