(* ===== verification/State_Store.thy ===== *)
theory State_Store
  imports Plane_Types
begin

text \<open>
  The store of a drone, from \<open>plane/src/drone/state_store.rs\<close>: an SQLite database with the current
  state of every backend and the events that no controller has acknowledged yet. Registering a
  listener replays those events first. Events are kept with the resolution of milliseconds; the
  order that SQLite gives to rows with equal time stamps is the parameter \<open>order\<close>, which returns the
  rows it is given, sorted by time stamp. The listener is modelled by what it was sent.
\<close>

section \<open>Definitions\<close>

record store_event =
  se_id :: int
  se_backend_id :: string
  se_event :: BackendState
  se_timestamp_millis :: int

record state_store =
  st_backends :: "(string \<times> BackendState) list"
  st_events :: "store_event list"
  st_next_id :: int
  st_listening :: bool
  st_sent :: "BackendStateMessage list"

definition new_store :: state_store where
  "new_store = \<lparr> st_backends = [], st_events = [], st_next_id = 1, st_listening = False, st_sent = [] \<rparr>"

definition upsert_backend :: "string \<Rightarrow> BackendState \<Rightarrow> (string \<times> BackendState) list \<Rightarrow> (string \<times> BackendState) list" where
  "upsert_backend i st rows =
     (if exists_row (\<lambda>r. fst r = i) rows then update_where (\<lambda>r. fst r = i) (\<lambda>r. (i, st)) rows
      else rows @ [(i, st)])"

definition timestamp_millis :: "time \<Rightarrow> int" where
  "timestamp_millis t = t div 1000"

text \<open>The message carries the exact time stamp; what is replayed has lost the microseconds.\<close>

definition register_event :: "BackendName \<Rightarrow> BackendState \<Rightarrow> time \<Rightarrow> state_store \<Rightarrow> state_store" where
  "register_event backend_id state timestamp s =
     (let i = st_next_id s;
          s1 = s\<lparr> st_backends := upsert_backend backend_id state (st_backends s),
                  st_events := st_events s @ [\<lparr> se_id = i, se_backend_id = backend_id, se_event = state,
                                               se_timestamp_millis = timestamp_millis timestamp \<rparr>],
                  st_next_id := i + 1 \<rparr>
      in if st_listening s
         then s1\<lparr> st_sent := st_sent s1 @ [\<lparr> sm_event_id = i, sm_backend_id = backend_id,
                    sm_state = state, sm_timestamp = timestamp \<rparr>] \<rparr>
         else s1)"

definition store_backend_state :: "BackendName \<Rightarrow> state_store \<Rightarrow> string + BackendState" where
  "store_backend_state backend_id s =
     (case find_row (\<lambda>r. fst r = backend_id) (st_backends s) of
        Some (_, st) \<Rightarrow> Inr st | None \<Rightarrow> Inl ''No backend found in state store.'')"

definition event_message :: "store_event \<Rightarrow> NameError + BackendStateMessage" where
  "event_message e = bind_result (name_try_from backend_prefix (se_backend_id e)) (\<lambda>i.
     Inr \<lparr> sm_event_id = se_id e, sm_backend_id = i, sm_state = se_event e,
           sm_timestamp = 1000 * se_timestamp_millis e \<rparr>)"

fun collect_events :: "store_event list \<Rightarrow> NameError + BackendStateMessage list" where
  "collect_events [] = Inr []"
| "collect_events (e # es) = bind_result (event_message e) (\<lambda>m.
     bind_result (collect_events es) (\<lambda>ms. Inr (m # ms)))"

definition unacked_events ::
  "(store_event list \<Rightarrow> store_event list) \<Rightarrow> state_store \<Rightarrow> NameError + BackendStateMessage list" where
  "unacked_events order s = collect_events (order (st_events s))"

definition register_listener ::
  "(store_event list \<Rightarrow> store_event list) \<Rightarrow> state_store \<Rightarrow> NameError + state_store" where
  "register_listener order s = bind_result (unacked_events order s) (\<lambda>ms.
     Inr (s\<lparr> st_sent := ms, st_listening := True \<rparr>))"

definition ack_event :: "int \<Rightarrow> state_store \<Rightarrow> state_store" where
  "ack_event event_id s = s\<lparr> st_events := delete_where (\<lambda>e. se_id e = event_id) (st_events s) \<rparr>"

fun collect_active :: "(string \<times> BackendState) list \<Rightarrow> NameError + (BackendName \<times> BackendState) list" where
  "collect_active [] = Inr []"
| "collect_active ((i, st) # rows) =
     (if status st = StTerminated then collect_active rows
      else bind_result (name_try_from backend_prefix i) (\<lambda>n.
           bind_result (collect_active rows) (\<lambda>ms. Inr ((n, st) # ms))))"

definition active_backends :: "state_store \<Rightarrow> NameError + (BackendName \<times> BackendState) list" where
  "active_backends s = collect_active (st_backends s)"

section \<open>Invariant\<close>

text \<open>Ids are unique and were handed out in order, the newest event of a backend is its state, and
  all names are valid.\<close>

definition store_ok :: "state_store \<Rightarrow> bool" where
  "store_ok s \<longleftrightarrow> unique_on fst (st_backends s) \<and> sorted_wrt (<) (map se_id (st_events s))
     \<and> (\<forall>e\<in>set (st_events s). se_id e < st_next_id s)
     \<and> (\<forall>e\<in>set (st_events s). valid_name backend_prefix (se_backend_id e))
     \<and> (\<forall>r\<in>set (st_backends s). valid_name backend_prefix (fst r))
     \<and> (\<forall>e\<in>set (st_events s). se_backend_id e \<in> fst ` set (st_backends s))"

datatype store_op = Register BackendName BackendState time | Ack int

fun store_step :: "store_op \<Rightarrow> state_store \<Rightarrow> state_store" where
  "store_step (Register i st t) s = register_event i st t s"
| "store_step (Ack i) s = ack_event i s"

fun valid_op :: "store_op \<Rightarrow> bool" where
  "valid_op (Register i st t) = valid_name backend_prefix i"
| "valid_op (Ack i) = True"

section \<open>Lemmas\<close>

lemma upsert_map:
  "map fst (upsert_backend i st rows) = (if i \<in> fst ` set rows then map fst rows else map fst rows @ [i])"
proof -
  have "exists_row (\<lambda>r. fst r = i) rows \<longleftrightarrow> i \<in> fst ` set rows" by (auto simp: exists_row_iff intro: rev_image_eqI)
  then show ?thesis by (auto simp: upsert_backend_def update_where_def)
qed

lemma upsert_keys: "fst ` set (upsert_backend i st rows) = insert i (fst ` set rows)"
  using arg_cong [OF upsert_map [of i st rows], of set] by auto

lemma upsert_unique: "unique_on fst rows \<Longrightarrow> unique_on fst (upsert_backend i st rows)"
  by (auto simp: unique_on_def upsert_map)

lemma find_update_state:
  "find_row (\<lambda>r. fst r = j) (update_where (\<lambda>r. fst r = i) (\<lambda>r. (i, st)) rows) =
     (if j = i then map_option (\<lambda>r. (i, st)) (find_row (\<lambda>r. fst r = j) rows)
      else find_row (\<lambda>r. fst r = j) rows)"
  by (induction rows) (auto simp: find_row_def update_where_def)

lemma find_upsert:
  "find_row (\<lambda>r. fst r = j) (upsert_backend i st rows) =
     (if j = i then Some (i, st) else find_row (\<lambda>r. fst r = j) rows)"
proof (cases "find_row (\<lambda>r. fst r = i) rows")
  case None
  then have "\<not> exists_row (\<lambda>r. fst r = i) rows" by (simp add: exists_row_iff find_row_None_iff)
  with None show ?thesis by (auto simp: upsert_backend_def find_row_append split: option.split)
next
  case (Some r)
  then have "exists_row (\<lambda>r. fst r = i) rows" by (auto simp: exists_row_iff dest: find_row_SomeD)
  with Some show ?thesis by (simp add: upsert_backend_def find_update_state)
qed

lemma store_ok_register:
  assumes "store_ok s" and "valid_name backend_prefix i"
  shows "store_ok (register_event i st t s)"
proof -
  have "\<forall>r\<in>set (upsert_backend i st (st_backends s)). valid_name backend_prefix (fst r)"
  proof
    fix r assume "r \<in> set (upsert_backend i st (st_backends s))"
    then have "fst r \<in> insert i (fst ` set (st_backends s))" using upsert_keys by blast
    with assms show "valid_name backend_prefix (fst r)" by (auto simp: store_ok_def)
  qed
  with assms show ?thesis
    by (auto simp: store_ok_def register_event_def Let_def upsert_unique upsert_keys sorted_wrt_append)
qed

lemma store_ok_ack: "store_ok s \<Longrightarrow> store_ok (ack_event i s)"
  by (auto simp: store_ok_def ack_event_def delete_where_def sorted_wrt_map sorted_wrt_filter)

lemma store_ok_step: "\<lbrakk> store_ok s; valid_op op \<rbrakk> \<Longrightarrow> store_ok (store_step op s)"
  by (cases op) (auto simp: store_ok_register store_ok_ack)

lemma collect_events_eq:
  assumes "\<forall>e\<in>set es. valid_name backend_prefix (se_backend_id e)"
  shows "collect_events es = Inr (map (\<lambda>e. \<lparr> sm_event_id = se_id e, sm_backend_id = se_backend_id e,
    sm_state = se_event e, sm_timestamp = 1000 * se_timestamp_millis e \<rparr>) es)"
  using assms
proof (induction es)
  case (Cons e es)
  then have "name_try_from backend_prefix (se_backend_id e) = Inr (se_backend_id e)"
    by (simp add: name_try_from_Inr)
  with Cons show ?case by (simp add: event_message_def)
qed simp

text \<open>What is registered and not yet acknowledged.\<close>

fun pending_after :: "store_op list \<Rightarrow> int \<Rightarrow> (int \<times> BackendName \<times> BackendState) set
    \<Rightarrow> (int \<times> BackendName \<times> BackendState) set" where
  "pending_after [] n P = P"
| "pending_after (Register i st t # ops) n P = pending_after ops (n + 1) (insert (n, i, st) P)"
| "pending_after (Ack k # ops) n P = pending_after ops n {x \<in> P. fst x \<noteq> k}"

definition pending_set :: "state_store \<Rightarrow> (int \<times> BackendName \<times> BackendState) set" where
  "pending_set s = (\<lambda>e. (se_id e, se_backend_id e, se_event e)) ` set (st_events s)"

lemma pending_run:
  "pending_set (fold store_step ops s) = pending_after ops (st_next_id s) (pending_set s)"
proof (induction ops arbitrary: s)
  case (Cons op ops)
  show ?case
  proof (cases op)
    case (Register i st t)
    have "pending_set (register_event i st t s) = insert (st_next_id s, i, st) (pending_set s)"
      "st_next_id (register_event i st t s) = st_next_id s + 1"
      by (auto simp: pending_set_def register_event_def Let_def)
    then show ?thesis using Register Cons [of "register_event i st t s"] by simp
  next
    case (Ack k)
    have "pending_set (ack_event k s) = {x \<in> pending_set s. fst x \<noteq> k}"
      unfolding pending_set_def by (rule set_eqI) (simp add: ack_event_def image_iff, metis fst_conv)
    moreover have "st_next_id (ack_event k s) = st_next_id s" by (simp add: ack_event_def)
    ultimately show ?thesis using Ack Cons [of "ack_event k s"] by simp
  qed
qed simp

lemma store_ok_run:
  "\<lbrakk> store_ok s; list_all valid_op ops \<rbrakk> \<Longrightarrow> store_ok (fold store_step ops s)"
  by (induction ops arbitrary: s) (simp_all add: store_ok_step)

lemma collect_active_eq:
  assumes "\<forall>r\<in>set rows. valid_name backend_prefix (fst r)"
  shows "collect_active rows = Inr (filter (\<lambda>r. status (snd r) \<noteq> StTerminated) rows)"
  using assms
proof (induction rows rule: collect_active.induct)
  case (2 i st rows)
  then have "name_try_from backend_prefix i = Inr i" by (simp add: name_try_from_Inr)
  with 2 show ?case by simp
qed simp

lemma store_state_simps [simp]:
  "store_backend_state i (register_event j st t s) = (if j = i then Inr st else store_backend_state i s)"
  "store_backend_state i (ack_event k s) = store_backend_state i s"
  by (simp_all add: store_backend_state_def register_event_def ack_event_def find_upsert Let_def)

text \<open>The state registered last.\<close>

fun latest :: "BackendName \<Rightarrow> store_op list \<Rightarrow> BackendState option" where
  "latest i [] = None"
| "latest i (Register j st t # ops) = (case latest i ops of Some x \<Rightarrow> Some x
     | None \<Rightarrow> if j = i then Some st else None)"
| "latest i (Ack k # ops) = latest i ops"

lemma store_state_run:
  "store_backend_state i (fold store_step ops s) =
     (case latest i ops of Some st \<Rightarrow> Inr st | None \<Rightarrow> store_backend_state i s)"
  by (induction ops arbitrary: s rule: latest.induct) (auto split: option.split)

section \<open>Properties\<close>

text \<open>
  No state change is lost while a controller is away. After any sequence of registrations and
  acknowledgements, a new listener is first sent every event that was registered and not
  acknowledged, each once and sorted by time, whatever happened to the messages sent before; and
  the stored state of a backend is the one registered last.
\<close>

theorem unacked_events_replayed:
  assumes "list_all valid_op ops"
    and order: "\<And>es. mset (order es) = mset es \<and> sorted (map se_timestamp_millis (order es))"
  shows "\<exists>s'. register_listener order (fold store_step ops new_store) = Inr s' \<and> st_listening s'
    \<and> (\<lambda>m. (sm_event_id m, sm_backend_id m, sm_state m)) ` set (st_sent s') = pending_after ops 1 {}
    \<and> distinct (map sm_event_id (st_sent s')) \<and> sorted (map sm_timestamp (st_sent s'))
    \<and> store_backend_state i s' =
        (case latest i ops of Some st \<Rightarrow> Inr st | None \<Rightarrow> Inl ''No backend found in state store.'')"
proof -
  let ?s = "fold store_step ops new_store"
  let ?es = "order (st_events ?s)"
  let ?msg = "\<lambda>e. \<lparr> sm_event_id = se_id e, sm_backend_id = se_backend_id e, sm_state = se_event e,
    sm_timestamp = 1000 * se_timestamp_millis e \<rparr>"
  have "store_ok new_store" by (simp add: store_ok_def new_store_def)
  then have ok: "store_ok ?s" using assms(1) by (rule store_ok_run)
  have mset: "mset ?es = mset (st_events ?s)" and sorted: "sorted (map se_timestamp_millis ?es)" using order by auto
  have set: "set ?es = set (st_events ?s)" using mset by (metis set_mset_mset)
  have reg: "register_listener order ?s = Inr (?s\<lparr> st_sent := map ?msg ?es, st_listening := True \<rparr>)"
    using ok by (simp add: register_listener_def unacked_events_def collect_events_eq set store_ok_def)
  have "(\<lambda>m. (sm_event_id m, sm_backend_id m, sm_state m)) ` set (map ?msg ?es) = pending_set ?s"
    by (simp add: set image_image pending_set_def)
  also have "\<dots> = pending_after ops (st_next_id new_store) (pending_set new_store)" by (rule pending_run)
  also have "\<dots> = pending_after ops 1 {}" by (simp add: new_store_def pending_set_def)
  finally have 1: "(\<lambda>m. (sm_event_id m, sm_backend_id m, sm_state m)) ` set (map ?msg ?es) = pending_after ops 1 {}" .
  have ids: "map sm_event_id (map ?msg es) = map se_id es" for es by simp
  have "mset (map se_id ?es) = mset (map se_id (st_events ?s))" by (simp add: mset)
  moreover have "distinct (map se_id (st_events ?s))" using ok unfolding store_ok_def strict_sorted_iff by blast
  ultimately have 2: "distinct (map sm_event_id (map ?msg ?es))"
    unfolding ids using mset_eq_imp_distinct_iff by blast
  have "map sm_timestamp (map ?msg ?es) = map (\<lambda>x. 1000 * x) (map se_timestamp_millis ?es)" by simp
  moreover have "sorted (map (\<lambda>x. 1000 * x) xs)" if "sorted xs" for xs :: "int list"
    using that by (induction xs) auto
  ultimately have 3: "sorted (map sm_timestamp (map ?msg ?es))" using sorted by metis
  have 4: "store_backend_state i ?s =
      (case latest i ops of Some st \<Rightarrow> Inr st | None \<Rightarrow> Inl ''No backend found in state store.'')"
  proof -
    have "store_backend_state i new_store = Inl ''No backend found in state store.''"
      by (simp add: store_backend_state_def new_store_def find_row_def)
    then show ?thesis using store_state_run [of i ops new_store] by (simp split: option.split)
  qed
  show ?thesis using reg 1 2 3 4 by (simp add: store_backend_state_def)
qed

theorem unacked_events_replayed_witness:
  "\<exists>s'. register_listener (sort_key se_timestamp_millis)
      (fold store_step [Register ''b1'' Scheduled 5, Register ''b1'' Loading 6, Ack 1] new_store) = Inr s'
    \<and> (\<lambda>m. (sm_event_id m, sm_backend_id m, sm_state m)) ` set (st_sent s') = {(2, ''b1'', Loading)}"
proof -
  let ?ops = "[Register ''b1'' Scheduled 5, Register ''b1'' Loading 6, Ack 1]"
  have "list_all valid_op ?ops"
    by (simp add: valid_name_def prefix_defs MAX_NAME_LENGTH_def name_char_def ascii_class_defs)
  moreover have "pending_after ?ops 1 {} = {(2, ''b1'', Loading)}" by auto
  ultimately show ?thesis
    using unacked_events_replayed [of ?ops "sort_key se_timestamp_millis" "''b1''"] by auto
qed

end
