(* ===== verification/Backend_Manager.thy ===== *)
theory Backend_Manager
  imports Plane_Types
begin

text \<open>
  The state machine that drives one backend on a drone, from \<open>plane/src/drone/backend_manager.rs\<close>.
  Entering a state reports it to the callback and then does nothing, jumps to another state, or
  starts a task; the task is dropped when the state changes. What a call to the container runtime
  returns is an \<open>outcome\<close>; errors of \<open>terminate\<close>, which the code retries, are no outcome. The callback
  fails or succeeds as the parameter \<open>cb\<close> says; \<open>bm_reported\<close> is what it was called with.
\<close>

section \<open>Definitions\<close>

datatype task = PrepareTask | SpawnTask | WaitTask socket_addr | TerminateTask bool

datatype StepStatusResult = DoNothing | SetState BackendState | FutureSetState task

datatype outcome =
    Prepared bool
  | SpawnedAt "16 word option"
  | Waited "BackendError option"
  | TerminateReturned bool

record manager =
  bm_state :: BackendState
  bm_task :: "(BackendState \<times> task) option"
  bm_reported :: "BackendState list"

definition handle_terminating :: "bool \<Rightarrow> StepStatusResult" where
  "handle_terminating hard = FutureSetState (TerminateTask hard)"

fun step_state :: "BackendState \<Rightarrow> StepStatusResult" where
  "step_state Scheduled = SetState (to_loading Scheduled)"
| "step_state Loading = FutureSetState PrepareTask"
| "step_state Starting = FutureSetState SpawnTask"
| "step_state (Waiting a) = FutureSetState (WaitTask a)"
| "step_state (Ready _) = DoNothing"
| "step_state (Terminating _ _ _) = handle_terminating False"
| "step_state (HardTerminating _ _) = handle_terminating True"
| "step_state (Terminated _ _ _ _) = DoNothing"

text \<open>The state a task ends in; \<open>None\<close> when it goes on forever, as after a termination that the
  runtime accepted.\<close>

fun future_result :: "string \<Rightarrow> BackendState \<Rightarrow> task \<Rightarrow> outcome \<Rightarrow> BackendState option" where
  "future_result ip st PrepareTask (Prepared ok) =
     Some (if ok then to_starting st else to_terminated st None)"
| "future_result ip st SpawnTask (SpawnedAt port) = (case port of
     Some p \<Rightarrow> Some (to_waiting st (ip, p)) | None \<Rightarrow> Some (to_terminated st None))"
| "future_result ip st (WaitTask a) (Waited err) = (case err of
     None \<Rightarrow> Some (to_ready st a)
   | Some BackendStartupTimeout \<Rightarrow> Some (to_hard_terminating st ReasonStartupTimeout)
   | Some (BackendOther _) \<Rightarrow> Some (to_hard_terminating st InternalError))"
| "future_result ip st (TerminateTask _) (TerminateReturned running) =
     (if running then None else Some (to_terminated st None))"
| "future_result ip st _ _ = None"

function set_state :: "(BackendState \<Rightarrow> bool) \<Rightarrow> BackendState \<Rightarrow> manager \<Rightarrow> manager" where
  "set_state cb st m =
     (let m1 = m\<lparr> bm_state := st, bm_task := None, bm_reported := bm_reported m @ [st] \<rparr>
      in if \<not> cb st then m1
         else case step_state st of
                DoNothing \<Rightarrow> m1
              | SetState st' \<Rightarrow> set_state cb st' m1
              | FutureSetState t \<Rightarrow> m1\<lparr> bm_task := Some (st, t) \<rparr>)"
  by pat_completeness auto
termination
proof (relation "measure (\<lambda>(cb, st, m). if st = Scheduled then 1 else 0)", goal_cases)
  case (2 cb st m m1 st')
  then show ?case by (cases st) (simp_all add: to_loading_def handle_terminating_def)
qed simp

definition manager_new :: "(BackendState \<Rightarrow> bool) \<Rightarrow> BackendState \<Rightarrow> manager" where
  "manager_new cb st = set_state cb st \<lparr> bm_state = st, bm_task = None, bm_reported = [] \<rparr>"

definition terminate_state :: "TerminationKind \<Rightarrow> TerminationReason \<Rightarrow> BackendState \<Rightarrow> BackendState" where
  "terminate_state kind reason st = (case kind of
     Soft \<Rightarrow> to_terminating st reason | Hard \<Rightarrow> to_hard_terminating st reason)"

definition terminate ::
  "(BackendState \<Rightarrow> bool) \<Rightarrow> TerminationKind \<Rightarrow> TerminationReason \<Rightarrow> manager \<Rightarrow> manager" where
  "terminate cb kind reason m = set_state cb (terminate_state kind reason (bm_state m)) m"

definition mark_terminated :: "(BackendState \<Rightarrow> bool) \<Rightarrow> 32 word option \<Rightarrow> manager \<Rightarrow> manager" where
  "mark_terminated cb exit_code m = set_state cb (to_terminated (bm_state m) exit_code) m"

text \<open>The end of the running task.\<close>

definition complete :: "(BackendState \<Rightarrow> bool) \<Rightarrow> string \<Rightarrow> outcome \<Rightarrow> manager \<Rightarrow> manager" where
  "complete cb ip out m = (case bm_task m of
     None \<Rightarrow> m
   | Some (st, t) \<Rightarrow> (case future_result ip st t out of None \<Rightarrow> m | Some st' \<Rightarrow> set_state cb st' m))"

datatype manager_event =
    Completed outcome
  | TerminateRequest TerminationKind TerminationReason
  | ContainerExited "32 word option"

fun manager_step :: "(BackendState \<Rightarrow> bool) \<Rightarrow> string \<Rightarrow> manager_event \<Rightarrow> manager \<Rightarrow> manager" where
  "manager_step cb ip (Completed out) m = complete cb ip out m"
| "manager_step cb ip (TerminateRequest kind reason) m = terminate cb kind reason m"
| "manager_step cb ip (ContainerExited code) m = mark_terminated cb code m"

section \<open>Invariant\<close>

text \<open>The task belongs to the state, and the reported states are those entered, in order.\<close>

definition manager_ok :: "manager \<Rightarrow> bool" where
  "manager_ok m \<longleftrightarrow> wf_state (bm_state m)
     \<and> (\<forall>st t. bm_task m = Some (st, t) \<longrightarrow> st = bm_state m \<and> step_state st = FutureSetState t)
     \<and> bm_reported m \<noteq> [] \<and> last (bm_reported m) = bm_state m
     \<and> sorted (map status (bm_reported m)) \<and> (\<forall>st\<in>set (bm_reported m). wf_state st)"

section \<open>Lemmas\<close>

declare set_state.simps [simp del]

lemma step_state_SetState: "step_state st = SetState st' \<longleftrightarrow> st = Scheduled \<and> st' = Loading"
  by (cases st) (auto simp: to_loading_def handle_terminating_def)

lemma set_state_cases:
  "set_state cb st m =
     (if \<not> cb st then m\<lparr> bm_state := st, bm_task := None, bm_reported := bm_reported m @ [st] \<rparr>
      else if st = Scheduled then set_state cb Loading
             (m\<lparr> bm_state := st, bm_task := None, bm_reported := bm_reported m @ [st] \<rparr>)
      else m\<lparr> bm_state := st, bm_reported := bm_reported m @ [st],
               bm_task := (case step_state st of FutureSetState t \<Rightarrow> Some (st, t) | _ \<Rightarrow> None) \<rparr>)"
  by (subst set_state.simps)
     (auto simp: Let_def step_state_SetState to_loading_def split: StepStatusResult.split)

lemma status_order_next:
  "StScheduled \<le> x" "x \<le> StTerminated"
  by (cases x; simp add: status_order_defs)+

lemma set_state_state:
  "bm_state (set_state cb st m) = (if st = Scheduled \<and> cb st then Loading else st)"
  by (auto simp: set_state_cases)

lemma set_state_ok:
  assumes "st \<noteq> Scheduled" and "wf_state st" and "manager_ok m" and "status (bm_state m) \<le> status st"
  shows "manager_ok (set_state cb st m)"
proof -
  have "\<forall>x\<in>set (bm_reported m). status x \<le> status st"
    using assms(3,4) by (auto simp: manager_ok_def dest: sorted_map_last)
  then show ?thesis using assms
    by (auto simp: manager_ok_def set_state_cases sorted_append split: StepStatusResult.splits)
qed

lemma terminate_state_simps:
  "status st \<le> status (terminate_state kind reason st)"
  "wf_state st \<Longrightarrow> wf_state (terminate_state kind reason st)"
  "terminate_state kind reason st \<noteq> Scheduled"
  by (cases kind; cases st;
      simp add: terminate_state_def to_terminating_def to_hard_terminating_def status_order_defs)+

lemma future_result_simps:
  assumes "future_result ip st t out = Some st'" and "step_state st = FutureSetState t" and "wf_state st"
  shows "status st \<le> status st' \<and> wf_state st' \<and> st' \<noteq> Scheduled"
  using assms
  by (cases st; cases out)
     (auto simp: to_starting_def to_waiting_def to_ready_def to_terminated_def to_hard_terminating_def
        handle_terminating_def status_order_defs split: if_splits option.splits BackendError.splits
        BackendState.splits)

lemma complete_ok:
  assumes "manager_ok m"
  shows "manager_ok (complete cb ip out m) \<and> status (bm_state m) \<le> status (bm_state (complete cb ip out m))"
proof (cases "bm_task m")
  case None
  then show ?thesis using assms by (simp add: complete_def)
next
  case (Some a)
  obtain st t where a: "a = (st, t)" by fastforce
  have st: "st = bm_state m" "step_state st = FutureSetState t" "wf_state st"
    using assms Some a by (auto simp: manager_ok_def)
  show ?thesis
  proof (cases "future_result ip st t out")
    case None
    then show ?thesis using assms Some a by (simp add: complete_def)
  next
    case f: (Some st')
    note r = future_result_simps [OF f st(2,3)]
    then show ?thesis using assms Some a f st(1) set_state_ok [of st' m cb]
      by (simp add: complete_def set_state_state)
  qed
qed

lemma manager_step_ok:
  assumes "manager_ok m"
  shows "manager_ok (manager_step cb ip ev m) \<and> status (bm_state m) \<le> status (bm_state (manager_step cb ip ev m))"
proof (cases ev)
  case (Completed out)
  then show ?thesis using complete_ok [OF assms] by simp
next
  case (TerminateRequest kind reason)
  then show ?thesis
    using assms terminate_state_simps [where st = "bm_state m" and kind = kind and reason = reason]
      set_state_ok [of "terminate_state kind reason (bm_state m)" m cb]
    by (simp add: terminate_def set_state_state manager_ok_def [of m])
next
  case (ContainerExited code)
  have "to_terminated (bm_state m) code \<noteq> Scheduled" by (cases "bm_state m") (simp_all add: to_terminated_def)
  then show ?thesis
    using assms ContainerExited set_state_ok [of "to_terminated (bm_state m) code" m cb]
      wf_to_terminated [of "bm_state m" code]
    by (simp add: mark_terminated_def set_state_state status_to_terminated status_order_next manager_ok_def [of m])
qed

interpretation managers: monotone_machine "manager_step cb ip" "\<lambda>m. status (bm_state m)" manager_ok for cb ip
  by unfold_locales (simp_all add: manager_step_ok)

lemma manager_new_ok: "manager_ok (manager_new cb default_state)"
  by (auto simp: manager_new_def default_state_def set_state_cases manager_ok_def status_order_defs)

lemma terminated_step:
  assumes "manager_ok m" and "bm_state m = Terminated l k r e"
  shows "bm_state (manager_step cb ip ev m) = bm_state m"
proof (cases ev)
  case (Completed out)
  have "bm_task m = None" using assms by (cases "bm_task m") (auto simp: manager_ok_def)
  then show ?thesis using Completed by (simp add: complete_def)
qed (use assms(2) in \<open>simp_all add: terminate_def mark_terminated_def set_state_state terminate_state_def
      to_terminating_def to_hard_terminating_def to_terminated_def status_order_defs split: TerminationKind.split\<close>)

lemma terminated_run:
  assumes "manager_ok m" and "status (bm_state m) = StTerminated"
  shows "bm_state (fold (manager_step cb ip) evs m) = bm_state m"
  using assms
proof (induction evs arbitrary: m)
  case (Cons ev evs)
  have "bm_state (manager_step cb ip ev m) = bm_state m"
    using Cons.prems terminated_step by (cases "bm_state m") auto
  with Cons show ?case by (simp add: manager_step_ok)
qed simp

section \<open>Properties\<close>



text \<open>
  A spawned backend becomes ready. When the callback succeeds and preparing, spawning and
  waiting succeed, the manager ends in the ready state with the address of the drone and the port
  of the container, having reported every state on the way once; and from there a termination
  request followed by the exit of the container ends in the terminated state that remembers both.
\<close>

theorem manager_reaches_ready:
  fixes ip port cb
  assumes "\<forall>st. cb st"
  defines "ready \<equiv> fold (manager_step cb ip)
    [Completed (Prepared True), Completed (SpawnedAt (Some port)), Completed (Waited None)] (manager_new cb default_state)"
  shows "bm_state ready = Ready (ip, port)
    \<and> bm_reported ready = [Scheduled, Loading, Starting, Waiting (ip, port), Ready (ip, port)]
    \<and> bm_state (fold (manager_step cb ip)
        [TerminateRequest kind reason, Completed (TerminateReturned True), ContainerExited code] ready)
      = Terminated StReady (Some kind) (Some reason) code"
  using assms(1)
  by (cases kind)
     (simp_all add: ready_def manager_new_def default_state_def set_state_cases complete_def to_starting_def
        to_waiting_def to_ready_def terminate_def terminate_state_def to_terminating_def to_hard_terminating_def
        mark_terminated_def to_terminated_def handle_terminating_def status_order_defs)

theorem manager_reaches_ready_witness:
  "bm_state (fold (manager_step (\<lambda>_. True) ''10.0.0.1'')
     [Completed (Prepared True), Completed (SpawnedAt (Some 80)), Completed (Waited None)]
     (manager_new (\<lambda>_. True) default_state)) = Ready (''10.0.0.1'', 80)"
  using manager_reaches_ready [of "\<lambda>_. True" "''10.0.0.1''" 80] by simp

text \<open>
  A completion that loses the race against a termination request undoes it. When the task that
  waits for the backend has finished and its new state is entered after that of the request, the
  manager is ready again with no task left that would terminate the backend.
\<close>

theorem stale_completion_undoes_termination:
  assumes "bm_state m = Waiting a" and "bm_task m = Some (Waiting a, WaitTask a)"
    and "future_result ip (Waiting a) (WaitTask a) out = Some (Ready b)" and "\<forall>st. cb st"
  shows "status (bm_state (terminate cb kind reason m)) \<ge> StTerminating
    \<and> bm_state (set_state cb (Ready b) (terminate cb kind reason m)) = Ready a
    \<and> bm_task (set_state cb (Ready b) (terminate cb kind reason m)) = None"
proof -
  have "b = a" using assms(3) by (cases out)
    (auto simp: to_ready_def to_hard_terminating_def status_order_defs split: option.splits BackendError.splits)
  then show ?thesis using assms(1,4)
    by (cases kind) (simp_all add: terminate_def terminate_state_def set_state_cases to_terminating_def
        to_hard_terminating_def status_order_defs)
qed

theorem stale_completion_undoes_termination_witness:
  "bm_state (set_state (\<lambda>_. True) (Ready (''ip'', 80)) (terminate (\<lambda>_. True) Soft External
      \<lparr> bm_state = Waiting (''ip'', 80), bm_task = Some (Waiting (''ip'', 80), WaitTask (''ip'', 80)),
        bm_reported = [Waiting (''ip'', 80)] \<rparr>)) = Ready (''ip'', 80)"
  using stale_completion_undoes_termination [of "\<lparr> bm_state = Waiting (''ip'', 80),
      bm_task = Some (Waiting (''ip'', 80), WaitTask (''ip'', 80)), bm_reported = [Waiting (''ip'', 80)] \<rparr>"
      "(''ip'', 80)" "''ip''" "Waited None" "(''ip'', 80)" "\<lambda>_. True" Soft External]
  by (simp add: to_ready_def)

end
