(* ===== verification/Key_Manager.thy ===== *)
theory Key_Manager
  imports Plane_Types
begin

text \<open>
  The keys of a drone, from \<open>plane/src/drone/key_manager.rs\<close>. For every registered key a loop runs that
  asks for renewal, then terminates the backend softly and then hardly, as the deadlines of the key
  pass. The loop is a function of the clock readings: a sleep until \<open>w\<close> ends at \<open>late w\<close>, never before
  \<open>w\<close>; \<open>ok t\<close> is whether the termination asked for at time \<open>t\<close> succeeded (a failure is retried a second
  later, so that the loop may run forever). A new handle for a key replaces its loop.
\<close>

section \<open>Definitions\<close>

datatype loop_action = LoopTerminate time TerminationKind | LoopRenew time

definition sleep_until :: "(time \<Rightarrow> time) \<Rightarrow> time \<Rightarrow> time" where
  "sleep_until late w = max w (late w)"

partial_function (option) renew_key_loop ::
  "(time \<Rightarrow> time) \<Rightarrow> (time \<Rightarrow> bool) \<Rightarrow> KeyDeadlines \<Rightarrow> time \<Rightarrow> (loop_action list) option" where
  "renew_key_loop late ok deadlines now =
     (if now \<ge> kd_hard_terminate_at deadlines then
        (if \<not> ok now
         then Option.bind (renew_key_loop late ok deadlines (sleep_until late (now + secs 1)))
                (\<lambda>acts. Some (LoopTerminate now Hard # acts))
         else Some [LoopTerminate now Hard])
      else if now \<ge> kd_soft_terminate_at deadlines then
        (if \<not> ok now
         then Option.bind (renew_key_loop late ok deadlines (sleep_until late (now + secs 1)))
                (\<lambda>acts. Some (LoopTerminate now Soft # acts))
         else Option.bind (renew_key_loop late ok deadlines (sleep_until late (kd_hard_terminate_at deadlines)))
                (\<lambda>acts. Some (LoopTerminate now Soft # acts)))
      else if now \<ge> kd_renew_at deadlines then
        Option.bind (renew_key_loop late ok deadlines (sleep_until late (kd_soft_terminate_at deadlines)))
          (\<lambda>acts. Some (LoopRenew now # acts))
      else renew_key_loop late ok deadlines (sleep_until late (kd_renew_at deadlines)))"

text \<open>The table of handles: the key of every backend whose loop runs.\<close>

type_synonym key_handles = "BackendName \<Rightarrow> AcquiredKey option"

definition register_key :: "BackendName \<Rightarrow> AcquiredKey \<Rightarrow> key_handles \<Rightarrow> bool \<times> key_handles" where
  "register_key backend key handles =
     (if handles backend \<noteq> None then (False, handles) else (True, handles(backend \<mapsto> key)))"

definition update_deadlines :: "BackendName \<Rightarrow> KeyDeadlines \<Rightarrow> key_handles \<Rightarrow> key_handles" where
  "update_deadlines backend deadlines handles = (case handles backend of
     Some key \<Rightarrow> handles(backend \<mapsto> key\<lparr> ak_deadlines := deadlines \<rparr>) | None \<Rightarrow> handles)"

definition unregister_key :: "BackendName \<Rightarrow> key_handles \<Rightarrow> key_handles" where
  "unregister_key backend handles = handles(backend := None)"

section \<open>Lemmas\<close>

lemma sleep_until_ge: "w \<le> sleep_until late w"
  by (simp add: sleep_until_def)

text \<open>With terminations that succeed, the loop ends with a hard termination on time.\<close>

lemma loop_hard: "\<lbrakk> kd_hard_terminate_at k \<le> now; ok now \<rbrakk>
    \<Longrightarrow> renew_key_loop late ok k now = Some [LoopTerminate now Hard]"
  by (subst renew_key_loop.simps) simp

lemma loop_soft:
  "\<lbrakk> kd_soft_terminate_at k \<le> now; now < kd_hard_terminate_at k; ok now \<rbrakk>
     \<Longrightarrow> renew_key_loop late ok k now = map_option ((#) (LoopTerminate now Soft))
           (renew_key_loop late ok k (sleep_until late (kd_hard_terminate_at k)))"
  by (subst renew_key_loop.simps) (simp add: map_conv_bind_option o_def)

lemma loop_renew:
  "\<lbrakk> kd_renew_at k \<le> now; now < kd_soft_terminate_at k; now < kd_hard_terminate_at k \<rbrakk>
     \<Longrightarrow> renew_key_loop late ok k now = map_option ((#) (LoopRenew now))
           (renew_key_loop late ok k (sleep_until late (kd_soft_terminate_at k)))"
  by (subst renew_key_loop.simps) (simp add: map_conv_bind_option o_def)

lemma loop_sleep:
  "\<lbrakk> now < kd_renew_at k; now < kd_soft_terminate_at k; now < kd_hard_terminate_at k \<rbrakk>
     \<Longrightarrow> renew_key_loop late ok k now = renew_key_loop late ok k (sleep_until late (kd_renew_at k))"
  by (subst renew_key_loop.simps) simp

text \<open>The loop from a reading of the clock on: it ends with a hard termination in time, and what it
  does before is in its place between the deadlines.\<close>

fun timely :: "KeyDeadlines \<Rightarrow> time \<Rightarrow> loop_action \<Rightarrow> bool" where
  "timely k now (LoopRenew s) =
     (now \<le> s \<and> kd_renew_at k \<le> s \<and> s < kd_soft_terminate_at k \<and> s < kd_hard_terminate_at k)"
| "timely k now (LoopTerminate s Soft) =
     (now \<le> s \<and> kd_soft_terminate_at k \<le> s \<and> s < kd_hard_terminate_at k)"
| "timely k now (LoopTerminate s Hard) = False"

definition ends_hard :: "time \<Rightarrow> KeyDeadlines \<Rightarrow> time \<Rightarrow> (loop_action list) option \<Rightarrow> bool" where
  "ends_hard d k now r \<longleftrightarrow> (\<exists>acts t. r = Some (acts @ [LoopTerminate t Hard])
     \<and> max now (kd_hard_terminate_at k) \<le> t \<and> t \<le> max now (kd_hard_terminate_at k + d)
     \<and> list_all (timely k now) acts)"

lemma timely_earlier: "\<lbrakk> timely k now' a; now \<le> now' \<rbrakk> \<Longrightarrow> timely k now a"
  by (cases "(k, now, a)" rule: timely.cases) auto

lemma ends_hard_earlier:
  assumes "ends_hard d k now' r" and "now \<le> now'" and "now' \<le> kd_hard_terminate_at k + d"
  shows "ends_hard d k now r"
proof -
  from assms(1) obtain acts t where *: "r = Some (acts @ [LoopTerminate t Hard])"
    "max now' (kd_hard_terminate_at k) \<le> t" "t \<le> max now' (kd_hard_terminate_at k + d)"
    "list_all (timely k now') acts" unfolding ends_hard_def by blast
  have "list_all (timely k now) acts" using *(4) timely_earlier [OF _ assms(2)] by (simp add: list_all_iff)
  then show ?thesis unfolding ends_hard_def using * assms(2,3) by (intro exI [of _ acts] exI [of _ t]) auto
qed

lemma ends_hard_cons:
  assumes "ends_hard d k now' r" and "now \<le> now'" and "now' \<le> kd_hard_terminate_at k + d" and "timely k now a"
  shows "ends_hard d k now (map_option ((#) a) r)"
proof -
  from ends_hard_earlier [OF assms(1-3)] obtain acts t where *: "r = Some (acts @ [LoopTerminate t Hard])"
    "max now (kd_hard_terminate_at k) \<le> t" "t \<le> max now (kd_hard_terminate_at k + d)"
    "list_all (timely k now) acts" unfolding ends_hard_def by blast
  then show ?thesis unfolding ends_hard_def using assms(4)
    by (intro exI [of _ "a # acts"] exI [of _ t]) simp
qed

lemma loop_ends_hard_from_soft:
  assumes "0 \<le> d" and late: "\<And>w. late w \<le> w + d" and ok: "\<And>t. ok t" and "kd_soft_terminate_at k \<le> now"
  shows "ends_hard d k now (renew_key_loop late ok k now)"
proof (cases "kd_hard_terminate_at k \<le> now")
  case True
  then show ?thesis using loop_hard [of k now ok late] ok assms(1) by (auto simp: ends_hard_def)
next
  case False
  let ?w = "sleep_until late (kd_hard_terminate_at k)"
  have w: "kd_hard_terminate_at k \<le> ?w" "?w \<le> kd_hard_terminate_at k + d"
    using late assms(1) by (auto simp: sleep_until_def)
  have "ends_hard d k ?w (renew_key_loop late ok k ?w)"
    using loop_hard [of k ?w ok late] ok w by (auto simp: ends_hard_def)
  then show ?thesis
    using False assms(1,4) w loop_soft [of k now ok late] ok
    by (auto intro!: ends_hard_cons)
qed

lemma loop_ends_hard:
  assumes "0 \<le> d" and late: "\<And>w. late w \<le> w + d" and ok: "\<And>t. ok t"
    and "kd_renew_at k \<le> kd_soft_terminate_at k" and "kd_soft_terminate_at k \<le> kd_hard_terminate_at k"
  shows "ends_hard d k now (renew_key_loop late ok k now)"
proof -
  have renew: "ends_hard d k t (renew_key_loop late ok k t)" if t: "kd_renew_at k \<le> t" for t
  proof (cases "kd_soft_terminate_at k \<le> t")
    case True
    then show ?thesis using assms by (intro loop_ends_hard_from_soft)
  next
    case False
    let ?w = "sleep_until late (kd_soft_terminate_at k)"
    have w: "kd_soft_terminate_at k \<le> ?w" "?w \<le> kd_soft_terminate_at k + d"
      using late assms(1) by (auto simp: sleep_until_def)
    have "ends_hard d k ?w (renew_key_loop late ok k ?w)" using assms w by (intro loop_ends_hard_from_soft)
    then show ?thesis
      using False t assms(1,4,5) w loop_renew [of k t late ok]
      by (auto intro!: ends_hard_cons)
  qed
  show ?thesis
  proof (cases "kd_renew_at k \<le> now")
    case False
    let ?w = "sleep_until late (kd_renew_at k)"
    have w: "kd_renew_at k \<le> ?w" "?w \<le> kd_renew_at k + d" using late assms(1) by (auto simp: sleep_until_def)
    have eq: "renew_key_loop late ok k now = renew_key_loop late ok k ?w"
      using False assms(4,5) by (intro loop_sleep) simp_all
    show ?thesis unfolding eq
      using w False assms(4,5) by (intro ends_hard_earlier [OF renew [OF w(1)]]) simp_all
  qed (rule renew)
qed

section \<open>Properties\<close>

text \<open>
  A key that is not renewed leads to a hard termination in time. When terminations succeed and
  sleeps end at most \<open>d\<close> late, the loop of a key with ordered deadlines ends, its last action is a hard
  termination not before the deadline for it and at most \<open>d\<close> after it (or at once, when the loop
  starts after the deadline), and before that it only asks for renewal between the first and the
  second deadline and terminates softly between the second and the third.
\<close>

theorem unrenewed_key_hard_terminates:
  assumes "0 \<le> d" and "\<And>w. late w \<le> w + d" and "\<And>t. ok t"
    and "kd_renew_at k \<le> kd_soft_terminate_at k" and "kd_soft_terminate_at k \<le> kd_hard_terminate_at k"
  shows "\<exists>acts t. renew_key_loop late ok k now = Some (acts @ [LoopTerminate t Hard])
    \<and> max now (kd_hard_terminate_at k) \<le> t \<and> t \<le> max now (kd_hard_terminate_at k + d)
    \<and> list_all (timely k now) acts"
  using loop_ends_hard [of d late ok k now] assms unfolding ends_hard_def by blast

theorem unrenewed_key_hard_terminates_witness:
  "\<exists>acts t. renew_key_loop (\<lambda>w. w) (\<lambda>_. True)
       \<lparr> kd_renew_at = 3, kd_soft_terminate_at = 4, kd_hard_terminate_at = 5 \<rparr> 0
     = Some (acts @ [LoopTerminate t Hard]) \<and> t = 5"
  using unrenewed_key_hard_terminates [of 0 "\<lambda>w. w" "\<lambda>_. True"
      "\<lparr> kd_renew_at = 3, kd_soft_terminate_at = 4, kd_hard_terminate_at = 5 \<rparr>" 0]
  by (auto intro: antisym)

end
