(* ===== verification/Drone.thy ===== *)
theory Drone
  imports State_Store Backend_Manager Key_Manager
begin

text \<open>
  A drone, from \<open>plane/src/drone/executor.rs\<close> and \<open>plane/src/drone/mod.rs\<close>: it owns the state store, one
  backend manager per running backend and the key manager, applies the actions a controller sends,
  and sends every state change to the controller until it is acknowledged. The messages sent over
  the current connection are the outbox. The container runtime enters through the outcomes of tasks
  (\<open>outcome\<close>), the exits of containers, and \<open>rt i\<close>, whether a direct request to terminate the unmanaged
  backend \<open>i\<close> succeeds. Callbacks of the managers write to the local store and do not fail.
\<close>

section \<open>Definitions\<close>

record executor_state =
  dn_store :: state_store
  dn_managers :: "BackendName \<Rightarrow> manager option"
  dn_keys :: key_handles
  dn_outbox :: "MessageFromDrone list"

definition new_drone :: "state_store \<Rightarrow> executor_state" where
  "new_drone s = \<lparr> dn_store = s, dn_managers = (\<lambda>_. None), dn_keys = (\<lambda>_. None), dn_outbox = [] \<rparr>"

text \<open>The listener that \<open>drone_loop\<close> registers.\<close>

definition on_state_message :: "BackendStateMessage \<Rightarrow> executor_state \<Rightarrow> executor_state" where
  "on_state_message message d =
     d\<lparr> dn_keys := (if status (sm_state message) = StTerminated
                    then unregister_key (sm_backend_id message) (dn_keys d) else dn_keys d),
        dn_outbox := dn_outbox d @ [BackendEvent message] \<rparr>"

text \<open>The callback of the managers.\<close>

definition report :: "time \<Rightarrow> BackendName \<Rightarrow> BackendState \<Rightarrow> executor_state \<Rightarrow> executor_state" where
  "report now i st d =
     (let s = dn_store d; d1 = d\<lparr> dn_store := register_event i st now s \<rparr>
      in if st_listening s
         then on_state_message \<lparr> sm_event_id = st_next_id s, sm_backend_id = i, sm_state = st,
                sm_timestamp = now \<rparr> d1
         else d1)"

definition new_reports :: "manager \<Rightarrow> manager \<Rightarrow> BackendState list" where
  "new_reports m m' = drop (length (bm_reported m)) (bm_reported m')"

abbreviation always :: "BackendState \<Rightarrow> bool" where
  "always \<equiv> (\<lambda>_. True)"

definition lost_state :: BackendState where
  "lost_state = Terminated StReady None (Some Lost) None"

fun apply_action ::
  "(BackendName \<Rightarrow> bool) \<Rightarrow> time \<Rightarrow> BackendName \<Rightarrow> BackendAction \<Rightarrow> executor_state \<Rightarrow> string + executor_state" where
  "apply_action rt now i (Spawn executable key static_token) d =
     (let m = manager_new always default_state;
          d1 = fold (report now i) (bm_reported m) d
      in Inr (d1\<lparr> dn_managers := (dn_managers d1)(i \<mapsto> m) \<rparr>))"
| "apply_action rt now i (Terminate kind reason) d =
     (case dn_managers d i of
        None \<Rightarrow> if rt i then Inr (report now i lost_state d) else Inl ''failed to terminate''
      | Some m \<Rightarrow>
          (let m' = terminate always kind reason m
           in Inr (fold (report now i) (new_reports m m')
                     (d\<lparr> dn_managers := (dn_managers d)(i \<mapsto> m') \<rparr>))))"

text \<open>The end of a task of a manager, and the listener of container exits.\<close>

definition task_completed :: "string \<Rightarrow> time \<Rightarrow> BackendName \<Rightarrow> outcome \<Rightarrow> executor_state \<Rightarrow> executor_state" where
  "task_completed ip now i out d = (case dn_managers d i of None \<Rightarrow> d
     | Some m \<Rightarrow>
         (let m' = complete always ip out m
          in fold (report now i) (new_reports m m') (d\<lparr> dn_managers := (dn_managers d)(i \<mapsto> m') \<rparr>)))"

definition container_exited :: "time \<Rightarrow> BackendName \<Rightarrow> 32 word option \<Rightarrow> executor_state \<Rightarrow> executor_state" where
  "container_exited now i exit_code d = (case dn_managers d i of None \<Rightarrow> d
     | Some m \<Rightarrow>
         (let m' = mark_terminated always exit_code m
          in fold (report now i) (new_reports m m') (d\<lparr> dn_managers := (dn_managers d)(i := None) \<rparr>)))"

text \<open>On a restart every backend that was running is terminated, whatever the runtime answers.\<close>

definition terminate_preexisting :: "time \<Rightarrow> BackendName \<times> BackendState \<Rightarrow> executor_state \<Rightarrow> executor_state" where
  "terminate_preexisting now = (\<lambda>(i, st) d.
     report now i (to_terminated st None) (report now i (to_hard_terminating st KeyExpired) d))"

definition executor_new :: "time \<Rightarrow> state_store \<Rightarrow> NameError + executor_state" where
  "executor_new now s = bind_result (active_backends s) (\<lambda>bs.
     Inr (fold (terminate_preexisting now) bs (new_drone (s\<lparr> st_listening := False \<rparr>))))"

text \<open>A new connection: an empty outbox, and the unacknowledged events again.\<close>

definition drone_connect ::
  "(store_event list \<Rightarrow> store_event list) \<Rightarrow> executor_state \<Rightarrow> NameError + executor_state" where
  "drone_connect order d = bind_result (register_listener order (dn_store d)) (\<lambda>s.
     Inr (fold on_state_message (st_sent s) (d\<lparr> dn_store := s, dn_outbox := [] \<rparr>)))"

fun handle_message ::
  "(BackendName \<Rightarrow> bool) \<Rightarrow> time \<Rightarrow> MessageToDrone \<Rightarrow> executor_state \<Rightarrow> executor_state" where
  "handle_message rt now (Action message) d =
     (let i = am_backend_id message; action = am_action message;
          (registered, d1) = (case action of
             Spawn _ key _ \<Rightarrow> (let (r, ks) = register_key i key (dn_keys d) in (r, d\<lparr> dn_keys := ks \<rparr>))
           | Terminate _ _ \<Rightarrow> (True, d))
      in if \<not> registered then d1
         else case apply_action rt now i action d1 of
                Inl _ \<Rightarrow> d1
              | Inr d2 \<Rightarrow> d2\<lparr> dn_outbox := dn_outbox d2 @ [AckAction (am_action_id message)] \<rparr>)"
| "handle_message rt now (AckEvent event_id) d = d\<lparr> dn_store := ack_event event_id (dn_store d) \<rparr>"
| "handle_message rt now (RenewKeyResponse backend deadlines) d = (case deadlines of
     Some dl \<Rightarrow> d\<lparr> dn_keys := update_deadlines backend dl (dn_keys d) \<rparr> | None \<Rightarrow> d)"

text \<open>A termination that the loop of a key asks for.\<close>

definition key_loop_terminate ::
  "(BackendName \<Rightarrow> bool) \<Rightarrow> time \<Rightarrow> BackendName \<Rightarrow> TerminationKind \<Rightarrow> executor_state \<Rightarrow> executor_state" where
  "key_loop_terminate rt now i kind d =
     (case apply_action rt now i (Terminate kind KeyExpired) d of Inl _ \<Rightarrow> d | Inr d' \<Rightarrow> d')"

text \<open>The messages of a connection are read once its listener is registered.\<close>

datatype drone_input =
    Connect
  | Receive MessageToDrone
  | TaskCompleted BackendName outcome
  | ContainerExit BackendName "32 word option"
  | KeyLoop BackendName TerminationKind

fun drone_react ::
  "(BackendName \<Rightarrow> bool) \<Rightarrow> (store_event list \<Rightarrow> store_event list) \<Rightarrow> string \<Rightarrow> time \<times> drone_input
     \<Rightarrow> executor_state \<Rightarrow> executor_state" where
  "drone_react rt order ip (now, Connect) d = (case drone_connect order d of Inl _ \<Rightarrow> d | Inr d' \<Rightarrow> d')"
| "drone_react rt order ip (now, Receive m) d =
     (if st_listening (dn_store d) then handle_message rt now m d else d)"
| "drone_react rt order ip (now, TaskCompleted i out) d = task_completed ip now i out d"
| "drone_react rt order ip (now, ContainerExit i code) d = container_exited now i code d"
| "drone_react rt order ip (now, KeyLoop i kind) d = key_loop_terminate rt now i kind d"

section \<open>Invariant\<close>

text \<open>A managed backend has the state its manager is in, and a key that is kept alive belongs to a
  backend that is not terminated.\<close>

definition entry_ok :: "executor_state \<Rightarrow> BackendName \<Rightarrow> bool" where
  "entry_ok d i \<longleftrightarrow>
     (\<forall>m. dn_managers d i = Some m \<longrightarrow>
        manager_ok m \<and> store_backend_state i (dn_store d) = Inr (bm_state m))
   \<and> (dn_keys d i \<noteq> None \<longrightarrow> st_listening (dn_store d)
        \<and> (\<forall>st. store_backend_state i (dn_store d) = Inr st \<longrightarrow> status st \<noteq> StTerminated))"

definition drone_ok :: "executor_state \<Rightarrow> bool" where
  "drone_ok d \<longleftrightarrow> (\<forall>i. entry_ok d i)"

section \<open>Lemmas\<close>

lemma report_simps [simp]:
  "dn_managers (report now i st d) = dn_managers d"
  "st_listening (dn_store (report now i st d)) = st_listening (dn_store d)"
  "store_backend_state j (dn_store (report now i st d)) =
     (if i = j then Inr st else store_backend_state j (dn_store d))"
  "dn_keys (report now i st d) =
     (if st_listening (dn_store d) \<and> status st = StTerminated then (dn_keys d)(i := None) else dn_keys d)"
  by (simp_all add: report_def Let_def on_state_message_def unregister_key_def)
     (simp_all add: register_event_def Let_def)

lemma register_event_listening [simp]: "st_listening (register_event i st now s) = st_listening s"
  by (simp add: register_event_def Let_def)

lemma dn_store_report: "dn_store (report now i st d) = register_event i st now (dn_store d)"
  by (simp add: report_def Let_def on_state_message_def)

lemma reports_simps [simp]:
  "dn_managers (fold (report now i) sts d) = dn_managers d"
  "st_listening (dn_store (fold (report now i) sts d)) = st_listening (dn_store d)"
  by (induction sts arbitrary: d) simp_all

lemma reports_state:
  "store_backend_state j (dn_store (fold (report now i) sts d)) =
     (if i = j \<and> sts \<noteq> [] then Inr (last sts) else store_backend_state j (dn_store d))"
  by (induction sts arbitrary: d) simp_all

lemma reports_keys:
  "dn_keys (fold (report now i) sts d) =
     (if st_listening (dn_store d) \<and> (\<exists>st\<in>set sts. status st = StTerminated)
      then (dn_keys d)(i := None) else dn_keys d)"
  by (induction sts arbitrary: d) auto

lemma report_managers:
  "report now i st (d\<lparr> dn_managers := x \<rparr>) = (report now i st d)\<lparr> dn_managers := x \<rparr>"
  by (simp add: report_def Let_def on_state_message_def)

lemma report_same_managers: "(report now i st d)\<lparr> dn_managers := dn_managers d \<rparr> = report now i st d"
  using report_managers [where x = "dn_managers d" and d = d] by (cases d) simp

lemma reports_managers:
  "fold (report now i) sts (d\<lparr> dn_managers := x \<rparr>) = (fold (report now i) sts d)\<lparr> dn_managers := x \<rparr>"
  by (induction sts arbitrary: d) (simp_all add: report_managers)

lemma reports_ok:
  assumes "\<And>j. j \<noteq> i \<Longrightarrow> entry_ok d j" and "dn_keys d i \<noteq> None \<longrightarrow> st_listening (dn_store d)"
    and "sts \<noteq> []" and "\<And>m. mo = Some m \<Longrightarrow> manager_ok m \<and> bm_state m = last sts"
  shows "drone_ok ((fold (report now i) sts d)\<lparr> dn_managers := (dn_managers d)(i := mo) \<rparr>)"
    (is "drone_ok ?d")
  unfolding drone_ok_def
proof
  fix j
  show "entry_ok ?d j"
  proof (cases "j = i")
    case True
    then show ?thesis using assms(2-4) by (auto simp: entry_ok_def reports_state reports_keys)
  next
    case False
    then show ?thesis using assms(1) [of j] by (auto simp: entry_ok_def reports_state reports_keys)
  qed
qed

lemma reports_ok':
  assumes "drone_ok d" and "sts \<noteq> []" and "\<And>m. mo = Some m \<Longrightarrow> manager_ok m \<and> bm_state m = last sts"
  shows "drone_ok ((fold (report now i) sts d)\<lparr> dn_managers := (dn_managers d)(i := mo) \<rparr>)"
  by (rule reports_ok) (use assms in \<open>auto simp: drone_ok_def entry_ok_def\<close>)

lemma set_state_reports:
  "new_reports m (set_state cb st m) \<noteq> []"
  "last (new_reports m (set_state cb st m)) = bm_state (set_state cb st m)"
  by (simp_all add: new_reports_def set_state_cases)

lemma terminate_reports:
  "new_reports m (terminate cb k r m) \<noteq> []"
  "last (new_reports m (terminate cb k r m)) = bm_state (terminate cb k r m)"
  by (simp_all add: terminate_def set_state_reports)

lemma managed_ok: "\<lbrakk> drone_ok d; dn_managers d i = Some m \<rbrakk> \<Longrightarrow> manager_ok m"
  by (simp add: drone_ok_def entry_ok_def)

lemma spawn_manager:
  "bm_reported (manager_new always default_state) = [Scheduled, Loading]"
  "bm_state (manager_new always default_state) = Loading"
  by (simp_all add: manager_new_def default_state_def set_state_cases)

lemma spawn_ok:
  assumes "drone_ok d" and "st_listening (dn_store d)"
    and "apply_action rt now i (Spawn e k t) (d\<lparr> dn_keys := (dn_keys d)(i \<mapsto> k) \<rparr>) = Inr d'"
  shows "drone_ok d'"
proof -
  have *: "j \<noteq> i \<Longrightarrow> entry_ok (d\<lparr> dn_keys := (dn_keys d)(i \<mapsto> k) \<rparr>) j" for j
    using assms(1) by (simp add: drone_ok_def entry_ok_def)
  show ?thesis
    using reports_ok [of i "d\<lparr> dn_keys := (dn_keys d)(i \<mapsto> k) \<rparr>" "[Scheduled, Loading]"
        "Some (manager_new always default_state)" now, OF *] assms(2,3) manager_new_ok [of always]
    by (simp add: Let_def spawn_manager)
qed

lemma terminate_ok:
  assumes "drone_ok d" and "apply_action rt now i (Terminate k r) d = Inr d'"
  shows "drone_ok d'"
proof (cases "dn_managers d i")
  case None
  have "(dn_managers d)(i := None) = dn_managers d" using None by auto
  then show ?thesis using reports_ok' [OF assms(1), where sts = "[lost_state]" and mo = None and now = now and i = i] None assms(2)
    by (simp add: report_same_managers split: if_splits)
next
  case (Some m)
  have "manager_ok (terminate always k r m)"
    using manager_step_ok [of m always "[]" "TerminateRequest k r"] managed_ok [OF assms(1) Some] by simp
  moreover have "d' = (fold (report now i) (new_reports m (terminate always k r m)) d)
      \<lparr> dn_managers := (dn_managers d)(i \<mapsto> terminate always k r m) \<rparr>"
    using assms(2) Some by (simp add: Let_def reports_managers)
  ultimately show ?thesis
    using reports_ok' [OF assms(1) terminate_reports(1), where mo = "Some (terminate always k r m)"]
    by (simp add: terminate_reports)
qed

lemma task_completed_ok:
  assumes "drone_ok d"
  shows "drone_ok (task_completed ip now i out d)"
proof (cases "dn_managers d i")
  case None
  then show ?thesis using assms by (simp add: task_completed_def)
next
  case (Some m)
  have ok: "manager_ok (complete always ip out m)"
    using manager_step_ok [of m always ip "Completed out"] managed_ok [OF assms Some] by simp
  have "complete always ip out m = m \<or> (\<exists>st. complete always ip out m = set_state always st m)"
    by (auto simp: complete_def split: option.split)
  then consider "complete always ip out m = m" | st where "complete always ip out m = set_state always st m"
    by blast
  then show ?thesis
  proof cases
    case 1
    have "(dn_managers d)(i \<mapsto> m) = dn_managers d" using Some by auto
    then show ?thesis using 1 assms Some by (simp add: task_completed_def new_reports_def)
  next
    case 2
    then show ?thesis
      using reports_ok' [OF assms set_state_reports(1), where mo = "Some (complete always ip out m)"] ok Some
      by (simp add: task_completed_def Let_def reports_managers set_state_reports)
  qed
qed

lemma container_exited_ok:
  assumes "drone_ok d"
  shows "drone_ok (container_exited now i code d)"
proof (cases "dn_managers d i")
  case None
  then show ?thesis using assms by (simp add: container_exited_def)
next
  case (Some m)
  then show ?thesis
    using reports_ok' [OF assms set_state_reports(1), where mo = None]
    by (simp add: container_exited_def Let_def reports_managers set_state_reports mark_terminated_def)
qed

lemma drone_ok_outbox: "drone_ok (d\<lparr> dn_outbox := x \<rparr>) = drone_ok d"
  by (simp add: drone_ok_def entry_ok_def)

lemma on_state_messages_simps [simp]:
  "dn_managers (fold on_state_message ms d) = dn_managers d"
  "dn_store (fold on_state_message ms d) = dn_store d"
  "dn_outbox (fold on_state_message ms d) = dn_outbox d @ map BackendEvent ms"
  by (induction ms arbitrary: d) (simp_all add: on_state_message_def)

lemma on_state_messages_keys:
  "dn_keys (fold on_state_message ms d) i =
     (if \<exists>m\<in>set ms. sm_backend_id m = i \<and> status (sm_state m) = StTerminated then None else dn_keys d i)"
  by (induction ms arbitrary: d) (auto simp: on_state_message_def unregister_key_def)

lemma register_listener_Inr:
  "register_listener order s = Inr s' \<longleftrightarrow>
     (\<exists>ms. unacked_events order s = Inr ms \<and> s' = s\<lparr> st_sent := ms, st_listening := True \<rparr>)"
  by (auto simp: register_listener_def bind_result_def split: sum.splits)

lemma store_backend_state_listen [simp]:
  "store_backend_state i (s\<lparr> st_sent := ms \<rparr>) = store_backend_state i s"
  "store_backend_state i (s\<lparr> st_listening := b \<rparr>) = store_backend_state i s"
  by (simp_all add: store_backend_state_def)

lemma connect_ok:
  assumes "drone_ok d" and "drone_connect order d = Inr d'"
  shows "drone_ok d'"
  unfolding drone_ok_def
proof
  fix i
  have "entry_ok d i" using assms(1) by (simp add: drone_ok_def)
  then show "entry_ok d' i" using assms(2)
    by (auto simp: drone_connect_def bind_result_def register_listener_Inr entry_ok_def
        on_state_messages_keys split: sum.splits if_splits)
qed

lemma update_deadlines_None: "update_deadlines b dl ks i = None \<longleftrightarrow> ks i = None"
  by (simp add: update_deadlines_def split: option.split)

lemma handle_message_ok:
  assumes "drone_ok d" and "st_listening (dn_store d)"
  shows "drone_ok (handle_message rt now m d)"
proof (cases m)
  case (Action a)
  show ?thesis
  proof (cases "am_action a")
    case (Spawn e k t)
    show ?thesis
    proof (cases "dn_keys d (am_backend_id a)")
      case None
      obtain d2 where d2: "apply_action rt now (am_backend_id a) (Spawn e k t)
          (d\<lparr> dn_keys := (dn_keys d)(am_backend_id a \<mapsto> k) \<rparr>) = Inr d2" by (simp add: Let_def)
      show ?thesis using spawn_ok [OF assms d2] None d2 Action Spawn
        by (simp add: register_key_def Let_def drone_ok_outbox del: apply_action.simps)
    next
      case (Some k')
      then show ?thesis using assms Action Spawn by (simp add: register_key_def)
    qed
  next
    case (Terminate k r)
    then show ?thesis using assms terminate_ok [OF assms(1)] Action
      by (auto simp: drone_ok_outbox simp del: apply_action.simps split: sum.split)
  qed
next
  case (AckEvent e)
  then show ?thesis using assms by (simp add: drone_ok_def entry_ok_def ack_event_def store_backend_state_def)
next
  case (RenewKeyResponse b dl)
  then show ?thesis using assms
    by (cases dl) (simp_all add: drone_ok_def entry_ok_def update_deadlines_None del: not_None_eq)
qed

lemma drone_react_ok:
  assumes "drone_ok d"
  shows "drone_ok (drone_react rt order ip x d)"
proof (cases x)
  case (Pair now e)
  show ?thesis
  proof (cases e)
    case Connect
    then show ?thesis using assms connect_ok [OF assms] by (simp add: Pair split: sum.split)
  next
    case (KeyLoop i k)
    then show ?thesis using assms terminate_ok [OF assms]
      by (simp add: Pair key_loop_terminate_def del: apply_action.simps split: sum.split)
  qed (use assms in \<open>simp_all add: Pair handle_message_ok task_completed_ok container_exited_ok\<close>)
qed

lemma drone_run_ok: "drone_ok d \<Longrightarrow> drone_ok (fold (drone_react rt order ip) inputs d)"
  by (induction inputs arbitrary: d) (simp_all add: drone_react_ok)

text \<open>A restart.\<close>

lemma executor_new_Inr:
  "executor_new now s = Inr d \<longleftrightarrow> (\<exists>bs. active_backends s = Inr bs
     \<and> d = fold (terminate_preexisting now) bs (new_drone (s\<lparr> st_listening := False \<rparr>)))"
  by (auto simp: executor_new_def bind_result_def split: sum.splits)

lemma terminate_preexisting_simps [simp]:
  "dn_managers (fold (terminate_preexisting now) bs d) = dn_managers d"
  "st_listening (dn_store (fold (terminate_preexisting now) bs d)) = st_listening (dn_store d)"
  by (induction bs arbitrary: d) (auto simp: terminate_preexisting_def)

lemma terminate_preexisting_keys:
  "\<not> st_listening (dn_store d) \<Longrightarrow> dn_keys (fold (terminate_preexisting now) bs d) = dn_keys d"
  by (induction bs arbitrary: d) (auto simp: terminate_preexisting_def)

lemma executor_new_ok: "executor_new now s = Inr d \<Longrightarrow> drone_ok d"
  by (auto simp: executor_new_Inr drone_ok_def entry_ok_def terminate_preexisting_keys new_drone_def)

lemma terminate_preexisting_store:
  "\<not> st_listening (dn_store d) \<Longrightarrow> dn_store (terminate_preexisting now (i, st) d) =
     register_event i (to_terminated st None) now
       (register_event i (to_hard_terminating st KeyExpired) now (dn_store d))"
  by (simp add: terminate_preexisting_def report_def Let_def register_event_def)

definition preexisting_ops :: "time \<Rightarrow> (BackendName \<times> BackendState) list \<Rightarrow> store_op list" where
  "preexisting_ops now bs = concat (map (\<lambda>(i, st).
     [Register i (to_hard_terminating st KeyExpired) now, Register i (to_terminated st None) now]) bs)"

lemma terminate_preexisting_ops:
  "\<not> st_listening (dn_store d) \<Longrightarrow> dn_store (fold (terminate_preexisting now) bs d) =
     fold store_step (preexisting_ops now bs) (dn_store d)"
proof (induction bs arbitrary: d)
  case (Cons b bs)
  obtain i st where b: "b = (i, st)" by (cases b)
  have "\<not> st_listening (dn_store (terminate_preexisting now b d))"
    using Cons.prems terminate_preexisting_simps(2) [of now "[b]" d] by simp
  from Cons.IH [OF this] show ?case using terminate_preexisting_store [OF Cons.prems, of now i st]
    by (simp add: b preexisting_ops_def)
qed (simp add: preexisting_ops_def)

lemma latest_preexisting:
  "latest i (preexisting_ops now bs) =
     (case filter (\<lambda>b. fst b = i) bs of [] \<Rightarrow> None | bs' \<Rightarrow> Some (to_terminated (snd (last bs')) None))"
  by (induction bs) (auto simp: preexisting_ops_def split: list.splits option.splits)

lemma pending_preexisting:
  "P \<subseteq> pending_after (preexisting_ops now bs) n P
   \<and> (\<forall>(i, st)\<in>set bs. \<exists>k\<ge>n. (k, i, to_hard_terminating st KeyExpired) \<in> pending_after (preexisting_ops now bs) n P
        \<and> (k + 1, i, to_terminated st None) \<in> pending_after (preexisting_ops now bs) n P)"
proof (induction bs arbitrary: n P)
  case (Cons b bs)
  obtain i st where b: "b = (i, st)" by (cases b)
  let ?P = "insert (n + 1, i, to_terminated st None) (insert (n, i, to_hard_terminating st KeyExpired) P)"
  have eq: "pending_after (preexisting_ops now (b # bs)) n P = pending_after (preexisting_ops now bs) (n + 2) ?P"
    by (simp add: b preexisting_ops_def add.commute)
  note IH = Cons.IH [of ?P "n + 2"]
  have "\<exists>k\<ge>n. (k, i', to_hard_terminating st' KeyExpired) \<in> pending_after (preexisting_ops now bs) (n + 2) ?P
      \<and> (k + 1, i', to_terminated st' None) \<in> pending_after (preexisting_ops now bs) (n + 2) ?P"
    if "(i', st') \<in> set (b # bs)" for i' st'
  proof (cases "(i', st') = b")
    case True
    then show ?thesis using conjunct1 [OF IH] by (intro exI [of _ n]) (simp add: b)
  next
    case False
    with that have "(i', st') \<in> set bs" by simp
    from bspec [OF conjunct2 [OF IH] this] obtain k where "n + 2 \<le> k"
      "(k, i', to_hard_terminating st' KeyExpired) \<in> pending_after (preexisting_ops now bs) (n + 2) ?P"
      "(k + 1, i', to_terminated st' None) \<in> pending_after (preexisting_ops now bs) (n + 2) ?P" by auto
    then show ?thesis by (intro exI [of _ k]) simp
  qed
  moreover have "P \<subseteq> pending_after (preexisting_ops now bs) (n + 2) ?P"
    using conjunct1 [OF IH] by simp
  ultimately show ?case unfolding eq by (intro conjI ballI) (auto simp del: set_simps)
qed (simp add: preexisting_ops_def)

lemma store_rows_state:
  assumes "store_ok s" and "(i, st) \<in> set (st_backends s)"
  shows "store_backend_state i s = Inr st"
  using find_row_key [of fst "st_backends s" "(i, st)"] assms
  by (simp add: store_ok_def store_backend_state_def)

lemma active_backends_ok:
  assumes "store_ok s"
  shows "active_backends s = Inr (filter (\<lambda>r. status (snd r) \<noteq> StTerminated) (st_backends s))"
  using assms by (simp add: active_backends_def collect_active_eq store_ok_def)

lemma preexisting_ops_valid:
  "\<forall>b\<in>set bs. valid_name backend_prefix (fst b) \<Longrightarrow> list_all valid_op (preexisting_ops now bs)"
  by (induction bs) (auto simp: preexisting_ops_def)

section \<open>Properties\<close>



text \<open>
  What a spawn action does. While the key of the backend is registered the action is ignored,
  and not acknowledged. Otherwise the key is registered, the backend is started - its states are
  reported, starting with scheduled and loading - and the action is acknowledged last. This is so
  for every deadline of the key, also for one that has passed.
\<close>

theorem spawn_action_effect:
  assumes "st_listening (dn_store d)"
    and "msg = Action \<lparr> am_action_id = a, am_backend_id = i, am_drone_id = dr, am_action = Spawn e k t \<rparr>"
  shows "(dn_keys d i \<noteq> None \<longrightarrow> handle_message rt now msg d = d)
    \<and> (dn_keys d i = None \<longrightarrow>
         dn_keys (handle_message rt now msg d) = (dn_keys d)(i \<mapsto> k)
       \<and> map_option bm_state (dn_managers (handle_message rt now msg d) i) = Some Loading
       \<and> (\<exists>id1 id2. dn_outbox (handle_message rt now msg d) = dn_outbox d @
             [BackendEvent \<lparr> sm_event_id = id1, sm_backend_id = i, sm_state = Scheduled, sm_timestamp = now \<rparr>,
              BackendEvent \<lparr> sm_event_id = id2, sm_backend_id = i, sm_state = Loading, sm_timestamp = now \<rparr>,
              AckAction a]))"
  using assms
  by (simp add: register_key_def Let_def spawn_manager report_def on_state_message_def register_event_def)

text \<open>
  A spawn action that is delivered again after its backend has terminated - the controller
  repeats an action until it receives the acknowledgement, which a broken connection loses - starts
  the backend again, and the next connection takes its key away: the replayed event of the first
  termination unregisters the key of the second run. That run goes on with nobody renewing its key
  or terminating it when the key expires.
\<close>

theorem redelivered_spawn_runs_without_key:
  assumes "st_listening (dn_store d)" and "store_ok (dn_store d)" and "valid_name backend_prefix i"
    and "dn_keys d i = None" and "\<And>es. mset (order es) = mset es"
    and "msg = Action \<lparr> am_action_id = a, am_backend_id = i, am_drone_id = dr, am_action = Spawn e k t \<rparr>"
    and "d' = fold (drone_react rt order ip)
          [(t1, Receive msg), (t2, ContainerExit i code), (t3, Receive msg), (t4, Connect)] d"
  shows "map_option bm_state (dn_managers d' i) = Some Loading \<and> dn_keys d' i = None"
proof -
  let ?st = "to_terminated Loading code"
  let ?ops = "[Register i Scheduled t1, Register i Loading t1, Register i ?st t2, Register i Scheduled t3,
    Register i Loading t3]"
  define d3 where "d3 = fold (drone_react rt order ip)
    [(t1, Receive msg), (t2, ContainerExit i code), (t3, Receive msg)] d"
  have st: "status ?st = StTerminated" by (simp add: status_to_terminated)
  have rep: "bm_reported (mark_terminated always code (manager_new always default_state)) = [Scheduled, Loading, ?st]"
    using st by (auto simp: mark_terminated_def spawn_manager set_state_cases)
  have d3: "dn_store d3 = fold store_step ?ops (dn_store d)"
    "map_option bm_state (dn_managers d3 i) = Some Loading" "st_listening (dn_store d3)"
    using assms(1,4) st rep
    by (simp_all add: d3_def assms(6) register_key_def Let_def spawn_manager container_exited_def
        new_reports_def report_managers dn_store_report)
  have ok: "store_ok (dn_store d3)" unfolding d3(1) using assms(2,3) by (intro store_ok_run) simp_all
  have "(st_next_id (dn_store d) + 2, i, ?st) \<in> pending_set (dn_store d3)"
    unfolding d3(1) pending_run by (simp add: add.assoc)
  then obtain ev where ev: "ev \<in> set (st_events (dn_store d3))" "se_backend_id ev = i" "se_event ev = ?st"
    by (auto simp: pending_set_def)
  obtain ms where ms: "unacked_events order (dn_store d3) = Inr ms"
    "\<exists>m\<in>set ms. sm_backend_id m = i \<and> sm_state m = ?st"
    using ev ok mset_eq_setD [OF assms(5)]
    by (auto simp: unacked_events_def collect_events_eq store_ok_def)
  have "d' = drone_react rt order ip (t4, Connect) d3" by (simp only: assms(7) d3_def fold_simps)
  then have "d' = fold on_state_message ms
      (d3\<lparr> dn_store := (dn_store d3)\<lparr> st_sent := ms, st_listening := True \<rparr>, dn_outbox := [] \<rparr>)"
    using ms(1) by (simp add: drone_connect_def register_listener_def)
  then show ?thesis using d3(2) ms(2) st by (auto simp: on_state_messages_keys)
qed

section \<open>Witnesses\<close>

definition drone_example_key :: AcquiredKey where
  "drone_example_key = \<lparr> ak_key = \<lparr> kc_name = ''k'', kc_namespace = [], kc_tag = [] \<rparr>,
     ak_deadlines = \<lparr> kd_renew_at = 1, kd_soft_terminate_at = 2, kd_hard_terminate_at = 3 \<rparr>,
     ak_token = 1 \<rparr>"

definition drone_example_spawn :: MessageToDrone where
  "drone_example_spawn = Action \<lparr> am_action_id = ''ak1'', am_backend_id = ''b1'', am_drone_id = 1,
     am_action = Spawn JNull drone_example_key None \<rparr>"

lemma drone_example_store: "store_ok (new_store\<lparr> st_listening := b \<rparr>)"
  by (simp add: store_ok_def new_store_def)

lemma drone_example_start: "executor_new 0 new_store = Inr (new_drone new_store)"
  by (simp add: executor_new_def active_backends_def new_store_def)

lemma drone_example_name: "valid_name backend_prefix ''b1''"
  by (simp add: valid_name_def prefix_defs MAX_NAME_LENGTH_def name_char_def ascii_class_defs)



theorem spawn_action_effect_witness:
  "handle_message (\<lambda>_. True) 9 drone_example_spawn (new_drone (new_store\<lparr> st_listening := True \<rparr>)\<lparr> dn_keys := [''b1'' \<mapsto> drone_example_key] \<rparr>)
     = new_drone (new_store\<lparr> st_listening := True \<rparr>)\<lparr> dn_keys := [''b1'' \<mapsto> drone_example_key] \<rparr>
   \<and> map_option bm_state (dn_managers (handle_message (\<lambda>_. True) 9 drone_example_spawn
        (new_drone (new_store\<lparr> st_listening := True \<rparr>))) ''b1'') = Some Loading"
proof -
  note eff = spawn_action_effect [OF _ drone_example_spawn_def, of _ "\<lambda>_. True" 9]
  show ?thesis
    using eff [of "new_drone (new_store\<lparr> st_listening := True \<rparr>)\<lparr> dn_keys := [''b1'' \<mapsto> drone_example_key] \<rparr>"]
      eff [of "new_drone (new_store\<lparr> st_listening := True \<rparr>)"]
    by (simp add: new_drone_def del: handle_message.simps)
qed

theorem redelivered_spawn_runs_without_key_witness:
  "map_option bm_state (dn_managers (fold (drone_react (\<lambda>_. True) (\<lambda>es. es) ''ip'')
      [(1, Receive drone_example_spawn), (2, ContainerExit ''b1'' None), (3, Receive drone_example_spawn), (4, Connect)]
      (new_drone (new_store\<lparr> st_listening := True \<rparr>))) ''b1'') = Some Loading"
  using redelivered_spawn_runs_without_key [OF _ _ drone_example_name _ _ drone_example_spawn_def refl,
      of "new_drone (new_store\<lparr> st_listening := True \<rparr>)" "\<lambda>es. es" "\<lambda>_. True" "''ip''" 1 2 None 3 4] drone_example_store [of True]
  by (simp add: new_drone_def del: drone_react.simps fold_simps)

end
