(* ===== verification/Controller_Drone.thy ===== *)
theory Controller_Drone
  imports Db_System
begin

text \<open>
  The side of a controller that talks to drones, from \<open>plane/src/controller/core.rs\<close> and
  \<open>plane/src/controller/drone.rs\<close>: registration of a node and its handle, the messages of a drone,
  the sweep of expired backends and the delivery of pending actions. A handler returns the database
  it leaves and the messages it sends; an error leaves both as they are. The name of a node is
  parsed from the handshake.
\<close>

section \<open>Definitions\<close>

subsection \<open>Nodes\<close>

record NodeHandle =
  nh_id :: NodeId
  nh_controller :: ControllerName
  nh_connection_start_time :: time

record Handshake =
  hs_name :: string
  hs_version :: PlaneVersionInfo

definition register_node ::
  "time \<Rightarrow> ControllerName \<Rightarrow> Handshake \<Rightarrow> ClusterName option \<Rightarrow> string \<Rightarrow> db \<Rightarrow> (NodeHandle \<times> db) sql" where
  "register_node now controller handshake cluster ip d =
     bind_result (map_err (\<lambda>_. Decode ''Failed to decode node name from handshake.'')
                    (any_try_from (hs_name handshake))) (\<lambda>name.
     bind_result (register now cluster name (any_kind name) controller (hs_version handshake) ip d)
       (\<lambda>((node_id, start), d'). Inr (\<lparr> nh_id = node_id, nh_controller = controller,
                                        nh_connection_start_time = start \<rparr>, d')))"

definition drop_node_handle :: "time \<Rightarrow> NodeHandle \<Rightarrow> db \<Rightarrow> db" where
  "drop_node_handle now h d = mark_offline now (nh_id h) (nh_controller h) (nh_connection_start_time h) d"

subsection \<open>Messages of a drone\<close>

definition renewed_deadlines :: "time \<Rightarrow> KeyDeadlines" where
  "renewed_deadlines local_time =
     \<lparr> kd_renew_at = local_time + KEY_LEASE_RENEW_AFTER,
       kd_soft_terminate_at = local_time + KEY_LEASE_SOFT_TERMINATE_AFTER,
       kd_hard_terminate_at = local_time + KEY_LEASE_HARD_TERMINATE_AFTER \<rparr>"

fun handle_message_from_drone ::
  "time \<Rightarrow> NodeId \<Rightarrow> MessageFromDrone \<Rightarrow> db \<Rightarrow> (db \<times> MessageToDrone list) sql" where
  "handle_message_from_drone now drone_id (BackendMetrics metrics) d = Inr (publish_metrics now metrics d, [])"
| "handle_message_from_drone now drone_id (DroneHeartbeat local_time) d =
     Inr (drone_heartbeat now drone_id local_time d, [])"
| "handle_message_from_drone now drone_id (BackendEvent event) d =
     bind_result (update_state now (sm_backend_id event) (sm_state event) d) (\<lambda>(_, d').
       Inr (d', [AckEvent (sm_event_id event)]))"
| "handle_message_from_drone now drone_id (AckAction action_id) d =
     Inr (ack_pending_action now action_id drone_id d, [])"
| "handle_message_from_drone now drone_id (RenewKey backend local_time) d =
     bind_result (renew_key now backend d) (\<lambda>d'.
       Inr (d', [RenewKeyResponse backend (Some (renewed_deadlines local_time))]))"

subsection \<open>Sweeping\<close>

text \<open>One round of the sweep: the samples of the action ids and the times of the statements are
  \<open>samples k\<close> and \<open>clock k\<close>; a failed insertion is logged.\<close>

definition sweep_one ::
  "(NodeId \<Rightarrow> string) \<Rightarrow> nat list \<Rightarrow> time \<Rightarrow> NodeId \<Rightarrow> TerminationCandidate \<Rightarrow> db \<Rightarrow> db" where
  "sweep_one show_id samples now drone_id candidate d =
     (case create_pending_action show_id samples now (tc_backend_id candidate) drone_id
             (Terminate Soft Swept) d of
        Inl _ \<Rightarrow> d | Inr d' \<Rightarrow> d')"

fun sweep_all ::
  "(NodeId \<Rightarrow> string) \<Rightarrow> (nat \<Rightarrow> nat list) \<Rightarrow> (nat \<Rightarrow> time) \<Rightarrow> NodeId \<Rightarrow> nat \<Rightarrow> TerminationCandidate list
     \<Rightarrow> db \<Rightarrow> db" where
  "sweep_all show_id samples clock drone_id k [] d = d"
| "sweep_all show_id samples clock drone_id k (c # cs) d =
     sweep_all show_id samples clock drone_id (Suc k) cs (sweep_one show_id (samples k) (clock k) drone_id c d)"

definition sweep ::
  "(NodeId \<Rightarrow> string) \<Rightarrow> (nat \<Rightarrow> nat list) \<Rightarrow> (nat \<Rightarrow> time) \<Rightarrow> time \<Rightarrow> NodeId \<Rightarrow> db \<Rightarrow> db" where
  "sweep show_id samples clock now drone_id d =
     (case termination_candidates now drone_id d of
        Inl _ \<Rightarrow> d
      | Inr candidates \<Rightarrow> sweep_all show_id samples clock drone_id 0 candidates d)"

subsection \<open>The socket of a drone\<close>

definition PENDING_ACTIONS_LIMIT :: nat where "PENDING_ACTIONS_LIMIT = 50"

definition process_pending_actions :: "NodeId \<Rightarrow> db \<Rightarrow> string + MessageToDrone list" where
  "process_pending_actions drone_id d =
     bind_result (pending_actions drone_id PENDING_ACTIONS_LIMIT d) (\<lambda>ms. Inr (map Action ms))"

datatype socket_event =
    Tick
  | ActionNotified BackendActionMessage
  | FromDrone MessageFromDrone

text \<open>One turn of the loop; \<open>Inl\<close> ends the connection.\<close>

fun drone_socket_step :: "time \<Rightarrow> NodeId \<Rightarrow> socket_event \<Rightarrow> db \<Rightarrow> string + db \<times> MessageToDrone list" where
  "drone_socket_step now drone_id Tick d =
     bind_result (process_pending_actions drone_id d) (\<lambda>ms. Inr (d, ms))"
| "drone_socket_step now drone_id (ActionNotified m) d = Inr (d, [Action m])"
| "drone_socket_step now drone_id (FromDrone msg) d =
     (case handle_message_from_drone now drone_id msg d of
        Inl _ \<Rightarrow> Inr (d, []) | Inr r \<Rightarrow> Inr r)"

definition drone_socket_start ::
  "time \<Rightarrow> ControllerName \<Rightarrow> Handshake \<Rightarrow> ClusterName \<Rightarrow> string \<Rightarrow> DronePoolName \<Rightarrow> db
     \<Rightarrow> string + NodeHandle \<times> db \<times> MessageToDrone list" where
  "drone_socket_start now controller handshake cluster ip pool d =
     bind_result (map_err (\<lambda>_. ''database error'') (register_node now controller handshake (Some cluster) ip d)) (\<lambda>(h, d1).
     bind_result (map_err (\<lambda>_. ''database error'') (register_drone (nh_id h) True pool d1)) (\<lambda>d2.
     bind_result (process_pending_actions (nh_id h) d2) (\<lambda>ms. Inr (h, d2, ms))))"

section \<open>Lemmas\<close>

lemma drone_message_step:
  assumes "handle_message_from_drone now drone_id msg d = Inr (d', ms)"
  shows "db_step now d d'"
proof (cases msg)
  case (BackendEvent e)
  then show ?thesis using assms step_update_state [of now "sm_backend_id e" "sm_state e" d]
    by (auto simp: bind_result_Inr_iff)
next
  case (RenewKey b t)
  then show ?thesis using assms step_renew_key [of now b d] by (auto simp: bind_result_Inr_iff)
qed (use assms in \<open>auto intro: step_other other_step.intros\<close>)

lemma sweep_one_reaches: "db_reaches d (sweep_one show_id samples now drone_id c d)"
  unfolding sweep_one_def
  by (auto split: sum.split intro: reaches_step step_other step_action)

lemma sweep_all_reaches: "db_reaches d (sweep_all show_id samples clock drone_id k cs d)"
proof (induction cs arbitrary: k d)
  case (Cons c cs)
  show ?case using reaches_trans [OF sweep_one_reaches Cons.IH] by simp
qed simp

lemma decode_all_map:
  "\<lbrakk> decode_all f xs = Inr ys; \<And>x y. f x = Inr y \<Longrightarrow> g y = h x \<rbrakk> \<Longrightarrow> map g ys = map h xs"
  by (simp add: decode_all_Inr list_eq_iff_nth_eq)

lemma decode_backend_name_Inr: "decode_backend_name s = Inr i \<Longrightarrow> i = s"
  by (simp add: decode_backend_name_def name_try_from_Inr)

lemma candidates_ids:
  assumes "termination_candidates now drone_id d = Inr cs"
  shows "map tc_backend_id cs = map b_id (filter (\<lambda>b. b_drone_id b = drone_id
    \<and> b_last_status b \<notin> {''scheduled'', ''terminated''}
    \<and> (idle_expired now b \<or> lifetime_expired now b)) (backends d))"
proof -
  have str: "status_to_string StScheduled = ''scheduled''" "status_to_string StTerminated = ''terminated''"
    by (simp_all add: status_to_string_def)
  show ?thesis
    using assms unfolding termination_candidates_def str
    by (rule decode_all_map) (auto simp: bind_result_Inr_iff dest: decode_backend_name_Inr)
qed

text \<open>The actions that a sweep creates.\<close>

definition swept :: "nat list \<Rightarrow> NodeId \<Rightarrow> BackendName \<Rightarrow> BackendActionMessage" where
  "swept samples drone_id i = \<lparr> am_action_id = name_new_random action_prefix samples, am_backend_id = i,
     am_drone_id = drone_id, am_action = Terminate Soft Swept \<rparr>"

lemma sweep_one_effect:
  assumes "exists_row (\<lambda>r. d_id r = drone_id) (drones d)"
    and "exists_row (\<lambda>b. b_id b = tc_backend_id c) (backends d)"
    and "name_new_random action_prefix samples \<notin> a_id ` set (backend_actions d)"
    and d'_def: "d' = sweep_one show_id samples now drone_id c d"
  shows "backends d' = backends d" "drones d' = drones d" "backend_keys d' = backend_keys d"
    "a_id ` set (backend_actions d') = insert (name_new_random action_prefix samples) (a_id ` set (backend_actions d))"
    "unacked dr d' = unacked dr d \<union> (if dr = drone_id then {swept samples drone_id (tc_backend_id c)} else {})"
proof -
  have "\<not> exists_row (\<lambda>a. a_id a = name_new_random action_prefix samples) (backend_actions d)"
    using assms(3) by (auto simp: exists_row_iff intro: rev_image_eqI)
  then obtain d1 where d1: "create_pending_action show_id samples now (tc_backend_id c) drone_id (Terminate Soft Swept) d = Inr d1"
    using assms(1,2) by (simp add: create_pending_action_def emit_with_key_def Let_def)
  then have d': "d' = d1" by (simp add: d'_def sweep_one_def)
  show "backends d' = backends d" "drones d' = drones d" "backend_keys d' = backend_keys d"
    "a_id ` set (backend_actions d') = insert (name_new_random action_prefix samples) (a_id ` set (backend_actions d))"
    using d1 unfolding d' by (auto simp: create_pending_action_def emit_with_key_def Let_def split: if_splits)
  show "unacked dr d' = unacked dr d \<union> (if dr = drone_id then {swept samples drone_id (tc_backend_id c)} else {})"
    unfolding d' using unacked_create [OF d1, of dr] by (simp add: swept_def)
qed

lemma sweep_all_effect:
  assumes "exists_row (\<lambda>r. d_id r = drone_id) (drones d)"
    and "\<forall>c\<in>set cs. exists_row (\<lambda>b. b_id b = tc_backend_id c) (backends d)"
    and "distinct (map (\<lambda>j. name_new_random action_prefix (samples j)) [k..<k + length cs])"
    and "\<forall>j\<in>{k..<k + length cs}. name_new_random action_prefix (samples j) \<notin> a_id ` set (backend_actions d)"
    and d'_def: "d' = sweep_all show_id samples clock drone_id k cs d"
  shows "backends d' = backends d \<and> backend_keys d' = backend_keys d \<and>
    unacked dr d' = unacked dr d \<union> (if dr = drone_id
      then (\<lambda>j. swept (samples (k + j)) drone_id (tc_backend_id (cs ! j))) ` {..<length cs} else {})"
  using assms(1-4) unfolding d'_def
proof (induction cs arbitrary: k d)
  case (Cons c cs)
  let ?d = "sweep_one show_id (samples k) (clock k) drone_id c d"
  let ?id = "\<lambda>j. name_new_random action_prefix (samples j)"
  have fresh: "?id k \<notin> a_id ` set (backend_actions d)" using Cons.prems(4) by simp
  note eff = sweep_one_effect [OF Cons.prems(1) _ fresh refl, where c = c and show_id = show_id and now = "clock k"]
  have ex: "exists_row (\<lambda>b. b_id b = tc_backend_id c) (backends d)" using Cons.prems(2) by simp
  have upt: "[k..<k + length (c # cs)] = k # [Suc k..<Suc k + length cs]" using upt_rec [of k "k + length (c # cs)"] by (simp del: upt_Suc)
  have ne: "?id j \<noteq> ?id k" if "j \<in> {Suc k..<Suc k + length cs}" for j
    using Cons.prems(3) that unfolding upt by (auto simp: image_iff)
  have IH: "backends (sweep_all show_id samples clock drone_id (Suc k) cs ?d) = backends ?d
      \<and> backend_keys (sweep_all show_id samples clock drone_id (Suc k) cs ?d) = backend_keys ?d
      \<and> unacked dr (sweep_all show_id samples clock drone_id (Suc k) cs ?d) = unacked dr ?d \<union> (if dr = drone_id
        then (\<lambda>j. swept (samples (Suc k + j)) drone_id (tc_backend_id (cs ! j))) ` {..<length cs} else {})"
  proof (rule Cons.IH)
    show "exists_row (\<lambda>r. d_id r = drone_id) (drones ?d)" using Cons.prems(1) eff [OF ex] by simp
    show "\<forall>c\<in>set cs. exists_row (\<lambda>b. b_id b = tc_backend_id c) (backends ?d)" using Cons.prems(2) eff [OF ex] by simp
    show "distinct (map ?id [Suc k..<Suc k + length cs])" using Cons.prems(3) unfolding upt by simp
    show "\<forall>j\<in>{Suc k..<Suc k + length cs}. ?id j \<notin> a_id ` set (backend_actions ?d)"
      using Cons.prems(4) eff(4) [OF ex] ne by auto
  qed
  have img: "(\<lambda>j. swept (samples (k + j)) drone_id (tc_backend_id ((c # cs) ! j))) ` {..<length (c # cs)}
    = insert (swept (samples k) drone_id (tc_backend_id c))
        ((\<lambda>j. swept (samples (Suc k + j)) drone_id (tc_backend_id (cs ! j))) ` {..<length cs})"
    by (simp add: lessThan_Suc_eq_insert_0 image_image)
  show ?case using IH eff [OF ex] unfolding img by auto
qed (simp add: distinct_map)

text \<open>The actions that a sweep creates, for the candidates.\<close>

lemma sweep_effect:
  assumes "termination_candidates now drone_id d = Inr cs"
    and "exists_row (\<lambda>r. d_id r = drone_id) (drones d)"
    and "distinct (map (\<lambda>j. name_new_random action_prefix (samples j)) [0..<length cs])"
    and "\<forall>j<length cs. name_new_random action_prefix (samples j) \<notin> a_id ` set (backend_actions d)"
    and "d' = sweep show_id samples clock now drone_id d"
  obtains ms where "am_backend_id ` ms = {b_id b | b. b \<in> set (backends d) \<and> b_drone_id b = drone_id
      \<and> (idle_expired now b \<or> lifetime_expired now b) \<and> b_last_status b \<notin> {''scheduled'', ''terminated''}}"
    and "\<forall>m\<in>ms. am_action m = Terminate Soft Swept"
    and "\<And>x. unacked x d' = unacked x d \<union> (if x = drone_id then ms else {})"
    and "backends d' = backends d" and "backend_keys d' = backend_keys d"
proof -
  let ?P = "\<lambda>b. b_drone_id b = drone_id \<and> b_last_status b \<notin> {''scheduled'', ''terminated''}
      \<and> (idle_expired now b \<or> lifetime_expired now b)"
  define ms where "ms = (\<lambda>j. swept (samples j) drone_id (tc_backend_id (cs ! j))) ` {..<length cs}"
  have cs: "map tc_backend_id cs = map b_id (filter ?P (backends d))"
    using assms(1) candidates_ids [of now drone_id d cs] by simp
  have set: "tc_backend_id ` set cs = b_id ` {b \<in> set (backends d). ?P b}"
    using arg_cong [OF cs, of set] by auto
  have ex: "\<forall>c\<in>set cs. exists_row (\<lambda>b. b_id b = tc_backend_id c) (backends d)"
  proof
    fix c
    assume "c \<in> set cs"
    then have "tc_backend_id c \<in> b_id ` {b \<in> set (backends d). ?P b}" unfolding set [symmetric] by (rule imageI)
    then show "exists_row (\<lambda>b. b_id b = tc_backend_id c) (backends d)" by (auto simp: exists_row_iff)
  qed
  have d': "d' = sweep_all show_id samples clock drone_id 0 cs d" using assms(1,5) by (simp add: sweep_def)
  have eff: "backends d' = backends d \<and> backend_keys d' = backend_keys d \<and>
    unacked x d' = unacked x d \<union> (if x = drone_id
      then (\<lambda>j. swept (samples (0 + j)) drone_id (tc_backend_id (cs ! j))) ` {..<length cs} else {})" for x
    by (rule sweep_all_effect [OF assms(2) ex _ _ d']) (use assms(3,4) in auto)
  have mem: "(\<lambda>j. tc_backend_id (cs ! j)) ` {..<length cs} = tc_backend_id ` set cs"
    by (force simp: in_set_conv_nth image_iff)
  have "am_backend_id ` ms = b_id ` {b \<in> set (backends d). ?P b}"
    by (simp add: ms_def image_image swept_def mem set)
  also have "\<dots> = {b_id b | b. b \<in> set (backends d) \<and> b_drone_id b = drone_id
      \<and> (idle_expired now b \<or> lifetime_expired now b) \<and> b_last_status b \<notin> {''scheduled'', ''terminated''}}" by auto
  finally show ?thesis using that [of ms] eff by (auto simp: ms_def swept_def)
qed

text \<open>What a state report leaves of its backend.\<close>

lemma state_step_recorded:
  assumes "db_ok d" and b: "find_row (\<lambda>b. b_id b = i) (backends (state_step (now, i, st) d)) = Some b"
  shows "\<exists>st'. b_state b = Some st' \<and> status st \<le> status st'"
proof -
  obtain b0 where b0: "find_row (\<lambda>b. b_id b = i) (backends d) = Some b0"
    and eq: "b = (if may_advance st b0 then set_row_state now st b0 else b0)"
    using b unfolding find_row_state_step by auto
  obtain st0 where st0: "b_state b0 = Some st0" using row_rank_consistent [OF assms(1) b0] by blast
  have "b_last_status_number b0 = Some (as_int (status st0))"
    using assms(1) find_row_SomeD [OF b0] st0 by (auto simp: db_ok_def row_consistent_def status_int_def)
  then show ?thesis using eq st0 as_int_less [of "status st0" "status st"]
    by (auto simp: may_advance_def not_less)
qed

section \<open>Properties\<close>


text \<open>
  C15: A state event of a drone is acknowledged only once it is recorded: the acknowledgement is
  sent, alone, by a handler after which the backend, if it is still in the database, is recorded in
  the state of the event or in one with a later status; and no other message of a drone is answered
  by an acknowledgement of an event.
\<close>

theorem acked_event_is_recorded:
  assumes "db_ok d" and "handle_message_from_drone now drone_id msg d = Inr (d', ms)"
    and "AckEvent event_id \<in> set ms"
  shows "\<exists>event. msg = BackendEvent event \<and> sm_event_id event = event_id \<and> ms = [AckEvent event_id]
    \<and> (\<forall>b. find_row (\<lambda>b. b_id b = sm_backend_id event) (backends d') = Some b \<longrightarrow>
         (\<exists>st. b_state b = Some st \<and> status (sm_state event) \<le> status st))"
proof (cases msg)
  case (BackendEvent e)
  obtain r where u: "update_state now (sm_backend_id e) (sm_state e) d = Inr (r, d')"
    and ms: "ms = [AckEvent (sm_event_id e)]"
    using assms(2) by (auto simp: BackendEvent bind_result_Inr_iff)
  have step: "d' = state_step (now, sm_backend_id e, sm_state e) d" using u by simp
  have "\<exists>st. b_state b = Some st \<and> status (sm_state e) \<le> status st"
    if "find_row (\<lambda>b. b_id b = sm_backend_id e) (backends d') = Some b" for b
    using state_step_recorded [OF assms(1)] that unfolding step .
  then show ?thesis using BackendEvent ms assms(3) by auto
qed (use assms(2,3) in \<open>auto simp: bind_result_Inr_iff\<close>)

text \<open>
  What a sweep does. For every backend of the drone that is past its lifetime or idle for too
  long, and neither scheduled nor terminated, a soft termination is left pending for the drone; no
  other action is created and nothing else of backends and keys changes. The ids drawn for the
  actions are taken to be new.
\<close>

theorem sweep_terminates_expired:
  assumes "termination_candidates now drone_id d = Inr cs"
    and "exists_row (\<lambda>r. d_id r = drone_id) (drones d)"
    and "distinct (map (\<lambda>j. name_new_random action_prefix (samples j)) [0..<length cs])"
    and "\<forall>j<length cs. name_new_random action_prefix (samples j) \<notin> a_id ` set (backend_actions d)"
    and "d' = sweep show_id samples clock now drone_id d"
  shows "am_backend_id ` (unacked drone_id d' - unacked drone_id d) \<subseteq>
      {b_id b | b. b \<in> set (backends d) \<and> b_drone_id b = drone_id \<and> (idle_expired now b \<or> lifetime_expired now b)
         \<and> b_last_status b \<notin> {''scheduled'', ''terminated''}}
    \<and> (\<forall>b\<in>set (backends d). b_drone_id b = drone_id \<and> (idle_expired now b \<or> lifetime_expired now b)
         \<and> b_last_status b \<notin> {''scheduled'', ''terminated''} \<longrightarrow>
           (\<exists>m\<in>unacked drone_id d'. am_backend_id m = b_id b \<and> am_action m = Terminate Soft Swept))
    \<and> unacked drone_id d \<subseteq> unacked drone_id d'
    \<and> (dr \<noteq> drone_id \<longrightarrow> unacked dr d' = unacked dr d)
    \<and> backends d' = backends d \<and> backend_keys d' = backend_keys d"
proof -
  obtain ms where ids: "am_backend_id ` ms = {b_id b | b. b \<in> set (backends d) \<and> b_drone_id b = drone_id
      \<and> (idle_expired now b \<or> lifetime_expired now b) \<and> b_last_status b \<notin> {''scheduled'', ''terminated''}}"
    and act: "\<forall>m\<in>ms. am_action m = Terminate Soft Swept"
    and un: "\<And>x. unacked x d' = unacked x d \<union> (if x = drone_id then ms else {})"
    and same: "backends d' = backends d" "backend_keys d' = backend_keys d"
    using sweep_effect [OF assms] by blast
  have 1: "am_backend_id ` (unacked drone_id d' - unacked drone_id d) \<subseteq> am_backend_id ` ms"
    by (rule image_mono) (auto simp: un)
  have 2: "\<exists>m\<in>unacked drone_id d'. am_backend_id m = b_id b \<and> am_action m = Terminate Soft Swept"
    if "b \<in> set (backends d)" "b_drone_id b = drone_id \<and> (idle_expired now b \<or> lifetime_expired now b)
         \<and> b_last_status b \<notin> {''scheduled'', ''terminated''}" for b
  proof -
    have "b_id b \<in> am_backend_id ` ms" unfolding ids using that by blast
    then obtain m where "m \<in> ms" "am_backend_id m = b_id b" by auto
    then show ?thesis using act by (auto simp: un)
  qed
  show ?thesis using 1 2 same unfolding ids by (auto simp: un)
qed

section \<open>Witnesses\<close>

definition swept_db :: db where
  "swept_db = example_backend_db\<lparr> backends := [example_backend\<lparr> b_expiration_time := Some 5 \<rparr>] \<rparr>"


theorem acked_event_is_recorded_witness:
  "\<exists>d' b st. handle_message_from_drone 9 1 (BackendEvent \<lparr> sm_event_id = 4, sm_backend_id = ''b1'',
        sm_state = Terminating StReady Soft External, sm_timestamp = 8 \<rparr>) example_backend_db = Inr (d', [AckEvent 4])
     \<and> find_row (\<lambda>b. b_id b = ''b1'') (backends d') = Some b \<and> b_state b = Some st
     \<and> StTerminating \<le> status st"
proof -
  let ?st = "Terminating StReady Soft External"
  let ?msg = "BackendEvent \<lparr> sm_event_id = 4, sm_backend_id = ''b1'', sm_state = ?st, sm_timestamp = 8 \<rparr>"
  let ?d = "state_step (9, ''b1'', ?st) example_backend_db"
  have adv: "exists_row (\<lambda>b. b_id b = ''b1'' \<and> may_advance ?st b) (backends example_backend_db)"
    by (simp add: example_backend_db_def example_backend_def exists_row_def may_advance_def)
  then have h: "handle_message_from_drone 9 1 ?msg example_backend_db = Inr (?d, [AckEvent 4])"
    by (simp add: update_state_eq)
  obtain b where b: "find_row (\<lambda>b. b_id b = ''b1'') (backends ?d) = Some b"
    using example_backend_row find_row_state_step [of "''b1''" 9 "''b1''" ?st example_backend_db]
    by (auto simp del: state_step.simps)
  from acked_event_is_recorded [OF example_backend_db_ok h, of 4] b obtain st
    where "b_state b = Some st" "status ?st \<le> status st" by auto
  with h b show ?thesis by (intro exI [of _ ?d] exI [of _ b] exI [of _ st]) (auto simp del: state_step.simps)
qed

theorem sweep_terminates_expired_witness:
  "\<exists>m\<in>unacked 1 (sweep (\<lambda>_. ''1'') (\<lambda>k. replicate 14 0) (\<lambda>k. 9) 9 1 swept_db).
     am_backend_id m = ''b1'' \<and> am_action m = Terminate Soft Swept"
proof -
  have swept_name: "name_try_from backend_prefix ''b1'' = Inr ''b1''"
    by (simp add: name_try_from_Inr valid_name_def prefix_defs MAX_NAME_LENGTH_def name_char_def ascii_class_defs)
  obtain c where c: "termination_candidates 9 1 swept_db = Inr [c]"
    using swept_name by (simp add: termination_candidates_def swept_db_def example_backend_defs idle_expired_def
        lifetime_expired_def status_to_string_def decode_backend_name_def)
  show ?thesis
    using sweep_terminates_expired [OF c, of "\<lambda>k. replicate 14 0", OF _ _ _ refl, of "\<lambda>_. ''1''" "\<lambda>k. 9" 1]
    by (simp add: swept_db_def example_backend_defs exists_row_def idle_expired_def lifetime_expired_def)
qed

end
