(* ===== verification/Controller_Proxy.thy ===== *)
theory Controller_Proxy
  imports Controller_Drone
begin

text \<open>
  The side of a controller that talks to proxies and DNS servers, from
  \<open>plane/src/controller/proxy.rs\<close> and \<open>plane/src/controller/dns.rs\<close>. A request for a route queries the
  database, and when the backend is still starting it subscribes to the state of the backend, queries
  again and then waits; \<open>d1\<close> and \<open>d2\<close> are the database at the two queries and \<open>updates\<close> what the
  subscription yields until it ends or times out.
\<close>

section \<open>Definitions\<close>

fun wait_for_route :: "BearerToken \<Rightarrow> PartialRouteInfo \<Rightarrow> BackendState list \<Rightarrow> MessageToProxy list" where
  "wait_for_route token partial [] = []"
| "wait_for_route token partial (Ready a # updates) = [RouteInfoResponse token (Some (set_address partial a))]"
| "wait_for_route token partial (Terminated _ _ _ _ # updates) = [RouteInfoResponse token None]"
| "wait_for_route token partial (Terminating _ _ _ # updates) = [RouteInfoResponse token None]"
| "wait_for_route token partial (HardTerminating _ _ # updates) = [RouteInfoResponse token None]"
| "wait_for_route token partial (_ # updates) = wait_for_route token partial updates"

definition handle_route_info_request ::
  "(string \<Rightarrow> bool) \<Rightarrow> BearerToken \<Rightarrow> db \<Rightarrow> db \<Rightarrow> BackendState list \<Rightarrow> MessageToProxy list sql" where
  "handle_route_info_request host_parse token d1 d2 updates =
     (case route_info_for_token host_parse token d1 of
        Inr (Available route_info) \<Rightarrow> Inr [RouteInfoResponse token (Some route_info)]
      | Inr (Pending partial) \<Rightarrow>
          bind_result (route_info_for_token host_parse token d2) (\<lambda>r. case r of
            Available route_info \<Rightarrow> Inr [RouteInfoResponse token (Some route_info)]
          | NotFound \<Rightarrow> Inr [RouteInfoResponse token None]
          | Pending _ \<Rightarrow> Inr (wait_for_route token partial updates))
      | Inr NotFound \<Rightarrow> Inr [RouteInfoResponse token None]
      | Inl _ \<Rightarrow> Inr [])"

text \<open>The other messages of a proxy.\<close>

fun handle_cert_request ::
  "time \<Rightarrow> ClusterName \<Rightarrow> NodeId \<Rightarrow> CertManagerRequest \<Rightarrow> db \<Rightarrow> db \<times> MessageToProxy list" where
  "handle_cert_request now cluster node_id CertLeaseRequest d =
     (case lease_cluster_dns now cluster node_id d of
        Inr (accepted, d') \<Rightarrow> (d', [ToCertManager (CertLeaseResponse accepted)])
      | Inl _ \<Rightarrow> (d, [ToCertManager (CertLeaseResponse False)]))"
| "handle_cert_request now cluster node_id (SetTxtRecord txt_value) d =
     (let (accepted, d') = set_cluster_dns cluster node_id txt_value d
      in (d', [ToCertManager (SetTxtRecordResponse accepted)]))"
| "handle_cert_request now cluster node_id ReleaseCertLease d = (release_cluster_lease cluster node_id d, [])"

definition handle_keepalive :: "time \<Rightarrow> BackendName \<Rightarrow> db \<Rightarrow> db \<times> MessageToProxy list" where
  "handle_keepalive now backend_id d =
     (let (updated, d') = update_keepalive now backend_id d
      in (d', if updated then [] else [BackendRemoved backend_id]))"

text \<open>Notifications of terminated backends are forwarded to every proxy.\<close>

fun forward_state :: "Notification \<Rightarrow> MessageToProxy list" where
  "forward_state n = (case (nt_key n, nt_payload n) of
     (Some backend_id, PState (Terminated _ _ _ _)) \<Rightarrow>
       (case name_try_from backend_prefix backend_id of Inr i \<Rightarrow> [BackendRemoved i] | Inl _ \<Rightarrow> [])
   | _ \<Rightarrow> [])"

definition handle_message_from_dns :: "MessageFromDns \<Rightarrow> db \<Rightarrow> MessageToDns" where
  "handle_message_from_dns msg d = (case msg of
     TxtRecordRequest cluster \<Rightarrow> TxtRecordResponse cluster (txt_record_for_cluster cluster d))"

section \<open>Lemmas\<close>

definition starting :: "BackendState \<Rightarrow> bool" where
  "starting st \<longleftrightarrow> status st < StReady"

definition route_answer :: "PartialRouteInfo \<Rightarrow> BackendState \<Rightarrow> RouteInfo option" where
  "route_answer partial st = (case st of Ready a \<Rightarrow> Some (set_address partial a) | _ \<Rightarrow> None)"

lemma wait_for_route_eq:
  "wait_for_route token partial updates =
     (case filter (\<lambda>st. \<not> starting st) updates of
        [] \<Rightarrow> [] | st # _ \<Rightarrow> [RouteInfoResponse token (route_answer partial st)])"
  by (induction token partial updates rule: wait_for_route.induct)
     (simp_all add: starting_def route_answer_def status_order_defs)

lemma sorted_status_last:
  assumes "sorted_wrt (<) (map status hs)" and "st \<in> set hs" and "st \<noteq> last hs"
  shows "status st < status (last hs)"
  using assms by (cases hs rule: rev_cases) (auto simp: sorted_wrt_append)

lemma starting_prefix:
  assumes "sorted_wrt (<) (map status hs)" and "starting (last hs)" and "st \<in> set hs"
  shows "starting st"
proof -
  have "status st \<le> status (last hs)"
    using assms(1,3) by (cases hs rule: rev_cases) (auto simp: sorted_wrt_append)
  then show ?thesis using assms(2) by (simp add: starting_def)
qed

lemma lease_granted:
  assumes "lease_cluster_dns now cluster node d = Inr (True, d')"
  shows "\<exists>e\<in>set (acme_txt_entries d'). e_cluster e = cluster \<and> e_leased_by e = node \<and> e_leased_at e = now"
proof -
  let ?P = "\<lambda>e. e_cluster e = cluster \<and> e_leased_at e + ACME_LEASE < now"
  consider (upd) "rows_affected ?P (acme_txt_entries d) = 1"
      "d' = d\<lparr> acme_txt_entries := update_where ?P (\<lambda>e. e\<lparr> e_leased_at := now, e_leased_by := node \<rparr>) (acme_txt_entries d) \<rparr>"
    | (ins) "d' = d\<lparr> acme_txt_entries := acme_txt_entries d @
             [\<lparr> e_cluster = cluster, e_leased_at = now, e_leased_by = node, e_txt_value = None \<rparr>] \<rparr>"
    using assms by (auto simp: lease_cluster_dns_def Let_def split: if_splits)
  then show ?thesis
  proof cases
    case upd
    then have "filter ?P (acme_txt_entries d) \<noteq> []" by (auto simp: rows_affected_def)
    then obtain e where "e \<in> set (acme_txt_entries d)" "?P e" by (auto simp: filter_empty_conv)
    then have "e\<lparr> e_leased_at := now, e_leased_by := node \<rparr> \<in> set (acme_txt_entries d')"
      using upd(2) by (auto simp: update_where_def image_iff intro: bexI [of _ e])
    with \<open>?P e\<close> show ?thesis by (intro bexI [of _ "e\<lparr> e_leased_at := now, e_leased_by := node \<rparr>"]) simp_all
  qed simp
qed

text \<open>The row of the backend that a token leads to.\<close>

definition token_backend :: "BearerToken \<Rightarrow> db \<Rightarrow> backend_row option" where
  "token_backend token d =
     (if is_static token then find_row (\<lambda>b. b_static_token b = Some token) (backends d)
      else Option.bind (find_row (\<lambda>t. t_token t = token) (tokens d))
             (\<lambda>t. find_row (\<lambda>b. b_id b = t_backend_id t) (backends d)))"

lemma route_info_token_backend:
  "\<exists>secret user data. route_info_for_token hp token d =
     (case token_backend token d of None \<Rightarrow> Inr NotFound | Some b \<Rightarrow> route_of_row hp b secret user data)"
proof (cases "is_static token")
  case True
  then show ?thesis
    by (intro exI [of _ "[]"] exI [of _ None])
       (simp add: route_info_for_token_def route_info_for_static_token_def token_backend_def)
next
  case False
  then show ?thesis
    by (cases "find_row (\<lambda>t. t_token t = token) (tokens d)")
       (auto simp: route_info_for_token_def token_backend_def)
qed

lemma token_backend_mem: "token_backend token d = Some b \<Longrightarrow> b \<in> set (backends d)"
  by (auto simp: token_backend_def bind_eq_Some_conv split: if_splits dest: find_row_SomeD)

lemma route_of_row_cases:
  assumes "row_consistent b" and "b_state b = Some st" and "route_of_row hp b secret user data = Inr r"
  shows "(starting st \<and> (\<exists>p. r = Pending p \<and> pr_backend_id p = b_id b))
    \<or> (\<exists>a p. st = Ready a \<and> r = Available (set_address p a) \<and> pr_backend_id p = b_id b)
    \<or> (StTerminating \<le> status st \<and> r = NotFound)"
  using assms
  by (cases st)
     (auto simp: route_of_row_def row_consistent_def status_to_string_def finish_route_def Let_def
        status_order_defs starting_def bind_result_Inr_iff dest!: decode_backend_name_Inr)

lemma history_state:
  assumes "db_ok d" and "b \<in> set (backends d)"
  shows "row_consistent b" "history d (b_id b) \<noteq> []" "b_state b = Some (last (history d (b_id b)))"
    "sorted_wrt (<) (map status (history d (b_id b)))"
  using assms by (auto simp: db_ok_def history_ok_def)

text \<open>The two ways in which a request for a starting backend is answered: after waiting, and by the second
  query. \<open>h\<close> is the whole history of the backend.\<close>

lemma waiting_answers:
  assumes "sorted_wrt (<) (map status h)" and "h \<noteq> []"
    and "filter (\<lambda>st. \<not> starting st) updates = filter (\<lambda>st. \<not> starting st) h"
  shows "(starting (last h) \<longrightarrow> wait_for_route token p updates = [])
    \<and> (\<not> starting (last h) \<longrightarrow> (\<exists>ri. wait_for_route token p updates = [RouteInfoResponse token ri]
         \<and> (\<forall>i. ri = Some i \<longrightarrow> ri_backend_id i = pr_backend_id p \<and> Ready (ri_address i) \<in> set h)
         \<and> (\<forall>a. last h = Ready a \<longrightarrow> map_option ri_address ri = Some a)))"
proof (cases "filter (\<lambda>st. \<not> starting st) h")
  case Nil
  then have "starting (last h)" using assms(2) by (auto simp: filter_empty_conv)
  then show ?thesis using assms(3) Nil by (simp add: wait_for_route_eq)
next
  case (Cons st sts)
  then have st: "st \<in> set h" "\<not> starting st" using filter_set [of "\<lambda>st. \<not> starting st" h] by auto
  then have "\<not> starting (last h)" using starting_prefix [OF assms(1)] by auto
  moreover have "st = last h" if "last h = Ready a" for a
    using sorted_status_last [OF assms(1) st(1)] that st(2) by (auto simp: starting_def)
  ultimately show ?thesis using assms(3) Cons st
    by (cases st) (auto simp: wait_for_route_eq route_answer_def set_address_def)
qed

section \<open>Properties\<close>

text \<open>
  C25: A route request is answered as soon as the answer is known, and never missed. Let a token
  lead to a backend that is starting at the first query (\<open>d1\<close>); let the subscription begin at \<open>dS\<close>,
  the second query see \<open>d2\<close>, and the subscription yield the states recorded from \<open>dS\<close> up to \<open>dF\<close>. If
  the backend is still starting in \<open>dF\<close>, nothing has been sent. Otherwise exactly one answer has been
  sent: an address that the backend was ready at, or that there is no route; and it is the address
  if the backend is ready in \<open>dF\<close>.
\<close>

theorem route_request_answered_once:
  assumes "db_ok d1" and "db_ok d2" and "db_ok dF"
    and "token_backend token d1 = Some b1" and "token_backend token d2 = Some b2" and "b_id b1 = b_id b2"
    and "route_info_for_token hp token d1 = Inr (Pending p1)"
    and "route_info_for_token hp token d2 = Inr r2"
    and "exists_row (\<lambda>b. b_id b = b_id b2) (backends dF)"
    and "prefix (history dS (b_id b2)) (history d2 (b_id b2))"
    and "prefix (history d2 (b_id b2)) (history dF (b_id b2))"
    and "updates = drop (length (history dS (b_id b2))) (history dF (b_id b2))"
  defines "result \<equiv> handle_route_info_request hp token d1 d2 updates"
    and "final \<equiv> last (history dF (b_id b2))"
  shows "(starting final \<longrightarrow> result = Inr [])
    \<and> (\<not> starting final \<longrightarrow> (\<exists>ri. result = Inr [RouteInfoResponse token ri]
         \<and> (\<forall>i. ri = Some i \<longrightarrow> ri_backend_id i = b_id b2 \<and> Ready (ri_address i) \<in> set (history dF (b_id b2)))
         \<and> (\<forall>a. final = Ready a \<longrightarrow> map_option ri_address ri = Some a)))"
proof -
  let ?h = "history dF (b_id b2)" and ?h2 = "history d2 (b_id b2)" and ?hS = "history dS (b_id b2)"
  obtain bF where bF: "bF \<in> set (backends dF)" "b_id bF = b_id b2" using assms(9) by (auto simp: exists_row_iff)
  have sortF: "sorted_wrt (<) (map status ?h)" and neF: "?h \<noteq> []"
    using history_state [OF assms(3) bF(1)] bF(2) by auto
  note h2 = history_state [OF assms(2) token_backend_mem [OF assms(5)]]
  obtain h where h: "?h = ?h2 @ h" using assms(11) by (auto simp: prefix_def)
  obtain h' where h': "?h2 = ?hS @ h'" using assms(10) by (auto simp: prefix_def)
  have upd: "updates = h' @ h" using assms(12) h h' by simp
  obtain s2 u2 x2 where "route_of_row hp b2 s2 u2 x2 = Inr r2"
    using route_info_token_backend [of hp token d2] assms(5,8) by auto
  note r2 = route_of_row_cases [OF h2(1,3) this]
  obtain s1 u1 x1 where "route_of_row hp b1 s1 u1 x1 = Inr (Pending p1)"
    using route_info_token_backend [of hp token d1] assms(4,7) by auto
  note r1 = route_of_row_cases [OF history_state(1,3) [OF assms(1) token_backend_mem [OF assms(4)]] this]
  then have p1: "pr_backend_id p1 = b_id b2" using assms(6) by auto
  show ?thesis
  proof (cases "starting (last ?h2)")
    case True
    then have "\<exists>p. r2 = Pending p" using r2 by (auto simp: starting_def status_order_defs)
    then have res: "result = Inr (wait_for_route token p1 updates)"
      using assms(7,8) by (auto simp: result_def handle_route_info_request_def)
    have "\<forall>st\<in>set ?h2. starting st" using starting_prefix [OF h2(4) True] by blast
    then have "filter (\<lambda>st. \<not> starting st) updates = filter (\<lambda>st. \<not> starting st) ?h"
      by (simp add: upd h h' filter_empty_conv)
    from waiting_answers [OF sortF neF this, of token p1] show ?thesis unfolding res final_def p1 by auto
  next
    case False
    have mem: "last ?h2 \<in> set ?h" using h2(2) h by simp
    then have nf: "\<not> starting final" using False starting_prefix [OF sortF] by (auto simp: final_def)
    have ready: "last ?h2 = final" if "final = Ready a" for a
      using sorted_status_last [OF sortF mem] that False by (auto simp: final_def starting_def)
    have "result = Inr [RouteInfoResponse token (case r2 of Available ri \<Rightarrow> Some ri | _ \<Rightarrow> None)]"
      using assms(7,8) r2 False
      by (auto simp: result_def handle_route_info_request_def split: RouteInfoResult.splits)
    then show ?thesis using nf r2 False mem ready
      by (auto simp: set_address_def status_order_defs)
  qed
qed

text \<open>
  The other messages of a proxy. Each of them is one database step or leaves the database as it
  is. A proxy is told that a backend was removed only when no row of it is left that is not
  terminated, or upon the notification that it terminated; and it is told that it holds the lease of
  its cluster only when the row of the lease carries its id and the time of the request.
\<close>

theorem proxy_messages_sound:
  "db_step now d (fst (handle_keepalive now i d))
   \<and> (fst (handle_cert_request now cluster node request d) = d
      \<or> db_step now d (fst (handle_cert_request now cluster node request d)))
   \<and> (BackendRemoved j \<in> set (snd (handle_keepalive now i d)) \<longrightarrow>
        j = i \<and> (\<forall>b\<in>set (backends d). b_id b = j \<longrightarrow> b_last_status b = ''terminated''))
   \<and> (BackendRemoved j \<in> set (forward_state n) \<longrightarrow>
        nt_key n = Some j \<and> (\<exists>st. nt_payload n = PState st \<and> status st = StTerminated))
   \<and> (ToCertManager (CertLeaseResponse True) \<in> set (snd (handle_cert_request now cluster node request d)) \<longrightarrow>
        (\<exists>e\<in>set (acme_txt_entries (fst (handle_cert_request now cluster node request d))).
           e_cluster e = cluster \<and> e_leased_by e = node \<and> e_leased_at e = now))"
proof -
  have 1: "db_step now d (fst (handle_keepalive now i d))"
    using step_other [OF step_keepalive [of now d i]] by (simp add: handle_keepalive_def case_prod_beta)
  have 2: "fst (handle_cert_request now cluster node request d) = d
      \<or> db_step now d (fst (handle_cert_request now cluster node request d))"
    using step_other [OF step_lease_dns [of now cluster node d]]
      step_other [OF step_set_dns [of now d cluster node]] step_other [OF step_release_dns [of now d cluster node]]
    by (cases request) (auto simp: Let_def case_prod_beta split: sum.split)
  have 3: "j = i \<and> (\<forall>b\<in>set (backends d). b_id b = j \<longrightarrow> b_last_status b = ''terminated'')"
    if "BackendRemoved j \<in> set (snd (handle_keepalive now i d))"
    using that by (auto simp: handle_keepalive_def update_keepalive_def Let_def rows_affected_def filter_empty_conv
        split: if_splits)
  have 4: "nt_key n = Some j \<and> (\<exists>st. nt_payload n = PState st \<and> status st = StTerminated)"
    if "BackendRemoved j \<in> set (forward_state n)"
    using that by (cases "nt_key n"; cases "nt_payload n")
      (auto split: BackendState.splits sum.splits simp: name_try_from_Inr dest!: sym [of "Inr j"])
  have 5: "\<exists>e\<in>set (acme_txt_entries (fst (handle_cert_request now cluster node request d))).
           e_cluster e = cluster \<and> e_leased_by e = node \<and> e_leased_at e = now"
    if a: "ToCertManager (CertLeaseResponse True) \<in> set (snd (handle_cert_request now cluster node request d))"
  proof (cases request)
    case CertLeaseRequest
    then obtain d' where d': "lease_cluster_dns now cluster node d = Inr (True, d')"
      using a by (auto split: sum.splits prod.splits)
    show ?thesis using lease_granted [OF d'] d' by (simp add: CertLeaseRequest)
  qed (use a in \<open>auto simp: Let_def split: prod.splits\<close>)
  show ?thesis using 1 2 3 4 5 by blast
qed

section \<open>Witnesses\<close>

definition starting_db :: db where
  "starting_db = example_backend_db\<lparr>
     backends := [example_backend\<lparr> b_last_status := ''scheduled'', b_last_status_number := Some 10,
                    b_cluster_address := None, b_state := Some Scheduled \<rparr>],
     backend_states := [hd example_history], next_state_id := 2 \<rparr>"

lemma starting_db_ok: "db_ok starting_db"
  by (simp add: db_ok_def schema_ok_def terminated_unkeyed_def history_ok_def ids_ok_def history_def
      row_consistent_def status_int_def status_to_string_def unique_on_def example_backend_defs
      starting_db_def)

theorem route_request_answered_once_witness:
  "\<exists>ri. handle_route_info_request (\<lambda>_. True) ''tok'' starting_db starting_db [Ready (''a'', 80)]
      = Inr [RouteInfoResponse ''tok'' ri] \<and> map_option ri_address ri = Some (''a'', 80)"
proof -
  have name: "name_try_from backend_prefix ''b1'' = Inr ''b1''"
    by (simp add: name_try_from_Inr valid_name_def prefix_defs MAX_NAME_LENGTH_def name_char_def ascii_class_defs)
  obtain p where p: "route_info_for_token (\<lambda>_. True) ''tok'' starting_db = Inr (Pending p)"
    using name by (simp add: route_info_for_token_def is_static_def STATIC_TOKEN_PREFIX_def starts_with_def find_row_def
        starting_db_def example_backend_defs route_of_row_def decode_backend_name_def cluster_from_str_def
        decode_subdomain_def Let_def)
  obtain b where b: "token_backend ''tok'' starting_db = Some b" "b_id b = ''b1''"
    by (simp add: token_backend_def is_static_def STATIC_TOKEN_PREFIX_def starts_with_def find_row_def
        starting_db_def example_backend_defs)
  have h: "history starting_db ''b1'' = [Scheduled]" "history example_backend_db ''b1'' = [Scheduled, Ready (''a'', 80)]"
    by (simp_all add: history_def starting_db_def example_backend_defs)
  have ns: "\<not> starting (Ready (''a'', 80))" by (simp add: starting_def)
  have ex: "exists_row (\<lambda>x. b_id x = ''b1'') (backends example_backend_db)"
    by (simp add: exists_row_def example_backend_defs)
  note answered = route_request_answered_once [OF starting_db_ok starting_db_ok example_backend_db_ok b(1) b(1)
      refl p p, of starting_db "[Ready (''a'', 80)]", unfolded b(2) h]
  have "\<exists>ri. handle_route_info_request (\<lambda>_. True) ''tok'' starting_db starting_db [Ready (''a'', 80)]
      = Inr [RouteInfoResponse ''tok'' ri] \<and> (\<forall>a. Ready (''a'', 80) = Ready a \<longrightarrow> map_option ri_address ri = Some a)"
    using answered [OF ex] ns by (auto simp del: BackendState.inject)
  then show ?thesis by simp
qed

theorem proxy_messages_sound_witness:
  "\<forall>b\<in>set (backends empty_db). b_id b = ''b1'' \<longrightarrow> b_last_status b = ''terminated''"
  using proxy_messages_sound [of 5 empty_db "''b1''" "''c''" 1 CertLeaseRequest "''b1''"]
  by (simp add: handle_keepalive_def update_keepalive_def empty_db_def rows_affected_def Let_def)

end
