(* ===== verification/Controller_Api.thy ===== *)
theory Controller_Api
  imports Controller_Proxy
begin

text \<open>
  The HTTP interface of a controller, from \<open>plane/src/controller\<close>: error responses, the handlers of
  connect, revoke, terminate, drain, status and cluster state, the table of routes with the optional
  forward authorization, and the requests that \<open>PlaneClient\<close> of \<open>common/src/lib.rs\<close> makes. Also the
  periodic cleanup of \<open>plane/src/cleanup.rs\<close>. The random id of an error response is the parameter
  \<open>err_id\<close>.
\<close>

section \<open>Definitions\<close>

subsection \<open>Errors\<close>

record ApiError =
  ae_id :: string
  ae_message :: string
  ae_kind :: ApiErrorKind

type_synonym response = "nat \<times> ApiError"

definition err_to_response :: "string \<Rightarrow> nat \<Rightarrow> string \<Rightarrow> ApiErrorKind \<Rightarrow> response" where
  "err_to_response err_id st user_message code =
     (st, \<lparr> ae_id = err_id, ae_message = user_message, ae_kind = code \<rparr>)"

definition or_not_found :: "string \<Rightarrow> string \<Rightarrow> 'a option \<Rightarrow> response + 'a" where
  "or_not_found err_id user_message r = ok_or r (err_to_response err_id 404 user_message ANotFound)"

definition or_internal_error :: "string \<Rightarrow> string \<Rightarrow> 'e + 'a \<Rightarrow> response + 'a" where
  "or_internal_error err_id user_message r = map_err (\<lambda>_. err_to_response err_id 500 user_message AOther) r"

fun connect_error_to_response :: "string \<Rightarrow> ConnectError \<Rightarrow> response" where
  "connect_error_to_response err_id FailedToAcquireKey =
     err_to_response err_id 500 ''Failed to acquire lock.'' AFailedToAcquireKey"
| "connect_error_to_response err_id KeyUnheldNoSpawnConfig =
     err_to_response err_id 409 ''Lock is unheld but no spawn config was provided.'' AKeyUnheldNoSpawnConfig"
| "connect_error_to_response err_id KeyHeldUnhealthy =
     err_to_response err_id 500 ''Lock is held but unhealthy.'' AKeyHeldUnhealthy"
| "connect_error_to_response err_id (KeyHeld _ _) =
     err_to_response err_id 409 ''Lock is held but tag does not match.'' AKeyHeld"
| "connect_error_to_response err_id NoDroneAvailable =
     err_to_response err_id 500 ''No active drone available.'' ANoDroneAvailable"
| "connect_error_to_response err_id FailedToRemoveKey =
     err_to_response err_id 409 ''Failed to remove lock.'' AFailedToRemoveKey"
| "connect_error_to_response err_id (DatabaseError _) = err_to_response err_id 500 ''Internal error.'' AOther"
| "connect_error_to_response err_id Serialization = err_to_response err_id 500 ''Internal error.'' AOther"
| "connect_error_to_response err_id NoClusterProvided = err_to_response err_id 400
     ''No cluster provided, and no default cluster for this controller.'' ANoClusterProvided"
| "connect_error_to_response err_id (Other _) = err_to_response err_id 500 ''Internal error.'' AOther"

subsection \<open>Handlers\<close>

definition handle_connect ::
  "string \<Rightarrow> connect_ctx \<Rightarrow> attempts \<Rightarrow> ConnectRequest \<Rightarrow> db \<Rightarrow> (response + ConnectResponse) \<times> db" where
  "handle_connect err_id cx runs request d =
     (let (r, d') = connect cx runs request d in (map_err (connect_error_to_response err_id) r, d'))"

definition handle_terminate ::
  "string \<Rightarrow> (NodeId \<Rightarrow> string) \<Rightarrow> nat list \<Rightarrow> time \<Rightarrow> BackendName \<Rightarrow> bool \<Rightarrow> db \<Rightarrow> response + db" where
  "handle_terminate err_id show_id samples now backend_id hard d =
     bind_result (or_internal_error err_id ''Database error'' (get_backend now backend_id d)) (\<lambda>found.
     bind_result (or_not_found err_id ''Backend does not exist'' found) (\<lambda>backend.
     or_internal_error err_id ''Database error''
       (create_pending_action show_id samples now backend_id (br_drone_id backend)
          (Terminate (if hard then Hard else Soft) External) d)))"

definition handle_drain :: "string \<Rightarrow> ClusterName \<Rightarrow> DroneName \<Rightarrow> db \<Rightarrow> response + bool \<times> db" where
  "handle_drain err_id cluster drone d =
     bind_result (or_not_found err_id ''Drone does not exist'' (get_id cluster drone d)) (\<lambda>drone_id.
     or_internal_error err_id ''Database error'' (drain drone_id d))"

definition backend_status :: "string \<Rightarrow> time \<Rightarrow> BackendName \<Rightarrow> db \<Rightarrow> response + BackendStatusStreamEntry" where
  "backend_status err_id now backend_id d =
     bind_result (or_internal_error err_id ''Database error'' (get_backend now backend_id d)) (\<lambda>found.
     bind_result (or_not_found err_id ''Backend does not exist'' found) (\<lambda>backend.
     Inr (from_state (br_state backend) (br_last_status_time backend))))"

text \<open>The stream of the states of a backend, continued after the status in the header
  \<open>Last-Event-ID\<close>; every item carries its status as its id.\<close>

definition handle_backend_status_stream ::
  "string option \<Rightarrow> BackendName \<Rightarrow> db \<Rightarrow> (BackendState \<times> time) list \<Rightarrow> (string \<times> BackendStatusStreamEntry) list" where
  "handle_backend_status_stream last_event_id backend_id d received =
     (let last_status = Option.bind last_event_id status_try_from
      in map (\<lambda>e. (status_to_string (se_status e), e))
           (filter (\<lambda>e. case last_status of Some l \<Rightarrow> \<not> se_status e \<le> l | None \<Rightarrow> True)
              (status_stream backend_id d received)))"

definition handle_cluster_state :: "string \<Rightarrow> time \<Rightarrow> ClusterName \<Rightarrow> db \<Rightarrow> response + ClusterState" where
  "handle_cluster_state err_id now cluster d =
     or_internal_error err_id ''Database error'' (cluster_state now cluster d)"

subsection \<open>Cleanup\<close>

definition DEFAULT_BATCH_SIZE :: nat where "DEFAULT_BATCH_SIZE = 100"

definition run_cleanup :: "time \<Rightarrow> int option \<Rightarrow> nat option \<Rightarrow> db \<Rightarrow> bool \<times> db" where
  "run_cleanup now min_age_days batch_size d =
     (case min_age_days of
        None \<Rightarrow> (True, clean_up_tokens now d)
      | Some days \<Rightarrow>
          (case cleanup now days (case batch_size of Some n \<Rightarrow> n | None \<Rightarrow> DEFAULT_BATCH_SIZE) d of
             Inl _ \<Rightarrow> (False, d)
           | Inr d1 \<Rightarrow> (True, clean_up_tokens now (clean_up_events now days d1))))"

subsection \<open>Routes\<close>

datatype http_method = GET | POST

datatype segment = Seg string | Param

datatype handler =
    HStatus | HClusterState | HDroneSocket | HProxySocket | HDnsSocket | HConnect | HDrain
  | HSoftTerminate | HHardTerminate | HRevoke | HBackendStatus | HStatusStream | HHealth

definition control_routes :: "(http_method \<times> segment list \<times> handler) list" where
  "control_routes =
    [(GET, [Seg ''status''], HStatus),
     (GET, [Seg ''c'', Param, Seg ''state''], HClusterState),
     (GET, [Seg ''c'', Param, Seg ''drone-socket''], HDroneSocket),
     (GET, [Seg ''c'', Param, Seg ''proxy-socket''], HProxySocket),
     (GET, [Seg ''dns-socket''], HDnsSocket),
     (POST, [Seg ''connect''], HConnect),
     (POST, [Seg ''c'', Param, Seg ''d'', Param, Seg ''drain''], HDrain),
     (POST, [Seg ''b'', Param, Seg ''soft-terminate''], HSoftTerminate),
     (POST, [Seg ''b'', Param, Seg ''hard-terminate''], HHardTerminate),
     (POST, [Seg ''b'', Seg ''revoke''], HRevoke)]"

definition public_routes :: "(http_method \<times> segment list \<times> handler) list" where
  "public_routes =
    [(GET, [Seg ''b'', Param, Seg ''status''], HBackendStatus),
     (GET, [Seg ''b'', Param, Seg ''status-stream''], HStatusStream),
     (GET, [Seg ''health''], HHealth)]"

fun segments_match :: "segment list \<Rightarrow> string list \<Rightarrow> bool" where
  "segments_match [] [] = True"
| "segments_match (Seg s # ps) (x # xs) = (x = s \<and> segments_match ps xs)"
| "segments_match (Param # ps) (x # xs) = (x \<noteq> [] \<and> segments_match ps xs)"
| "segments_match _ _ = False"

definition find_route :: "http_method \<Rightarrow> string list \<Rightarrow> (http_method \<times> segment list \<times> handler) list \<Rightarrow> handler option" where
  "find_route meth path routes =
     map_option (\<lambda>(_, _, h). h) (find (\<lambda>(m, ps, _). m = meth \<and> segments_match ps path) routes)"

text \<open>What becomes of a request: a handler runs, or a response with the given status is sent.
  \<open>auth\<close> is the answer of the authorization server to a forwarded request: no server is configured,
  the request to it failed, or the status of its response.\<close>

datatype auth_reply = NoForwardAuth | AuthFailed | AuthStatus nat

datatype served = Run handler | Respond nat

definition forward_layer :: "auth_reply \<Rightarrow> served \<Rightarrow> served" where
  "forward_layer auth inner = (case auth of
     NoForwardAuth \<Rightarrow> inner
   | AuthFailed \<Rightarrow> Respond 502
   | AuthStatus st \<Rightarrow> if 200 \<le> st \<and> st < 300 then inner else Respond 401)"

definition route_or_404 :: "handler option \<Rightarrow> (served \<Rightarrow> served) \<Rightarrow> served" where
  "route_or_404 h layer = (case h of Some h \<Rightarrow> layer (Run h) | None \<Rightarrow> Respond 404)"

definition serve :: "auth_reply \<Rightarrow> http_method \<Rightarrow> string \<Rightarrow> served" where
  "serve auth meth target =
     (case split_char CHR ''/'' (hd (split_char CHR ''?'' target)) of
        e # root # path \<Rightarrow>
          if e \<noteq> [] then Respond 404
          else if root = ''pub'' then route_or_404 (find_route meth path public_routes) (\<lambda>x. x)
          else if root = ''ctrl'' then route_or_404 (find_route meth path control_routes) (forward_layer auth)
          else Respond 404
      | _ \<Rightarrow> Respond 404)"

subsection \<open>The requests of the client\<close>

datatype client_call =
    ClientStatus
  | ClientDrone ClusterName DronePoolName
  | ClientProxy ClusterName
  | ClientDns
  | ClientConnect
  | ClientDrain ClusterName DroneName
  | ClientSoftTerminate BackendName
  | ClientHardTerminate BackendName
  | ClientRevoke
  | ClientBackendStatus BackendName
  | ClientStatusStream BackendName
  | ClientClusterState ClusterName
  | ClientHealth

text \<open>The default pool has the empty name; \<open>encode\<close> is the percent encoding of a form value.\<close>

fun client_request :: "(string \<Rightarrow> string) \<Rightarrow> client_call \<Rightarrow> http_method \<times> string" where
  "client_request encode ClientStatus = (GET, ''/ctrl/status'')"
| "client_request encode (ClientDrone cluster pool) =
     (GET, ''/ctrl/c/'' @ cluster @ ''/drone-socket'' @ (if pool = [] then [] else ''?pool='' @ encode pool))"
| "client_request encode (ClientProxy cluster) = (GET, ''/ctrl/c/'' @ cluster @ ''/proxy-socket'')"
| "client_request encode ClientDns = (GET, ''/ctrl/dns-socket'')"
| "client_request encode ClientConnect = (POST, ''/ctrl/connect'')"
| "client_request encode (ClientDrain cluster drone) =
     (POST, ''/ctrl/c/'' @ cluster @ ''/d/'' @ drone @ ''/drain'')"
| "client_request encode (ClientSoftTerminate b) = (POST, ''/ctrl/b/'' @ b @ ''/soft-terminate'')"
| "client_request encode (ClientHardTerminate b) = (POST, ''/ctrl/b/'' @ b @ ''/hard-terminate'')"
| "client_request encode ClientRevoke = (POST, ''/ctrl/revoke'')"
| "client_request encode (ClientBackendStatus b) = (GET, ''/pub/b/'' @ b @ ''/status'')"
| "client_request encode (ClientStatusStream b) = (GET, ''/pub/b/'' @ b @ ''/status-stream'')"
| "client_request encode (ClientClusterState cluster) = (GET, ''/ctrl/c/'' @ cluster @ ''/state'')"
| "client_request encode ClientHealth = (GET, ''/pub/health'')"

fun intended_handler :: "client_call \<Rightarrow> handler" where
  "intended_handler ClientStatus = HStatus"
| "intended_handler (ClientDrone _ _) = HDroneSocket"
| "intended_handler (ClientProxy _) = HProxySocket"
| "intended_handler ClientDns = HDnsSocket"
| "intended_handler ClientConnect = HConnect"
| "intended_handler (ClientDrain _ _) = HDrain"
| "intended_handler (ClientSoftTerminate _) = HSoftTerminate"
| "intended_handler (ClientHardTerminate _) = HHardTerminate"
| "intended_handler ClientRevoke = HRevoke"
| "intended_handler (ClientBackendStatus _) = HBackendStatus"
| "intended_handler (ClientStatusStream _) = HStatusStream"
| "intended_handler (ClientClusterState _) = HClusterState"
| "intended_handler ClientHealth = HHealth"

text \<open>The answer of the server as the client reports it; \<open>body\<close> is what decoding the body gives.\<close>

datatype 'a client_result = ClientOk 'a | ClientJson | ClientApiError ApiError nat | ClientUnexpected nat

definition get_response :: "nat \<Rightarrow> 'a option \<Rightarrow> ApiError option \<Rightarrow> 'a client_result" where
  "get_response st body err =
     (if 200 \<le> st \<and> st < 300 then (case body of Some x \<Rightarrow> ClientOk x | None \<Rightarrow> ClientJson)
      else (case err of Some e \<Rightarrow> ClientApiError e st | None \<Rightarrow> ClientUnexpected st))"

section \<open>Lemmas\<close>

fun call_args :: "client_call \<Rightarrow> string list" where
  "call_args (ClientDrone cluster _) = [cluster]"
| "call_args (ClientProxy cluster) = [cluster]"
| "call_args (ClientDrain cluster drone) = [cluster, drone]"
| "call_args (ClientSoftTerminate b) = [b]"
| "call_args (ClientHardTerminate b) = [b]"
| "call_args (ClientBackendStatus b) = [b]"
| "call_args (ClientStatusStream b) = [b]"
| "call_args (ClientClusterState cluster) = [cluster]"
| "call_args _ = []"

definition plain_segment :: "string \<Rightarrow> bool" where
  "plain_segment s \<longleftrightarrow> s \<noteq> [] \<and> CHR ''/'' \<notin> set s \<and> CHR ''?'' \<notin> set s"

lemmas serve_path = serve_def [unfolded hd_split_char]

lemmas serve_simps = serve_path takeWhile_plain split_char_append plain_segment_def
  find_route_def control_routes_def public_routes_def route_or_404_def

section \<open>Properties\<close>

text \<open>
  C34: The requests of the client reach the handlers they are meant for, for all names that are not
  empty and have neither a slash nor a question mark, but for one: the path that the client uses to
  revoke a token is not routed, and is answered with 404.
\<close>

theorem client_calls_reach_handlers:
  assumes "list_all plain_segment (call_args call)"
  shows "case_prod (serve NoForwardAuth) (client_request encode call) =
    (if call = ClientRevoke then Respond 404 else Run (intended_handler call))"
  using assms by (cases call) (simp_all add: serve_simps forward_layer_def)

text \<open>
  C33: With an authorization server, a handler of the control routes runs only when the server
  answered with success; then requests are served as without it. The public routes do not depend on
  it.
\<close>

theorem forward_auth_guards_control:
  "(serve auth meth target = Run h \<and> h \<notin> {HBackendStatus, HStatusStream, HHealth} \<longrightarrow>
      auth = NoForwardAuth \<or> (\<exists>st. auth = AuthStatus st \<and> 200 \<le> st \<and> st < 300))
   \<and> (200 \<le> st \<and> st < 300 \<longrightarrow> serve (AuthStatus st) meth target = serve NoForwardAuth meth target)
   \<and> (h \<in> {HBackendStatus, HStatusStream, HHealth} \<longrightarrow>
      (serve auth meth target = Run h \<longleftrightarrow> serve NoForwardAuth meth target = Run h))"
proof -
  have pub: "h \<in> {HBackendStatus, HStatusStream, HHealth}"
    if "find_route meth path public_routes = Some h" for path h
    using that by (auto simp: find_route_def public_routes_def split: if_splits)
  have ctrl: "h \<notin> {HBackendStatus, HStatusStream, HHealth}"
    if "find_route meth path control_routes = Some h" for path h
    using that by (auto simp: find_route_def control_routes_def split: if_splits)
  have 1: "auth = NoForwardAuth \<or> (\<exists>st. auth = AuthStatus st \<and> 200 \<le> st \<and> st < 300)"
    if "serve auth meth target = Run h" "h \<notin> {HBackendStatus, HStatusStream, HHealth}"
    using that pub
    by (auto simp: serve_def route_or_404_def forward_layer_def split: list.splits if_splits option.splits auth_reply.splits)
  have 2: "serve (AuthStatus st) meth target = serve NoForwardAuth meth target" if "200 \<le> st" "st < 300"
    using that by (simp add: serve_def route_or_404_def forward_layer_def split: list.splits option.splits)
  have 3: "serve auth meth target = Run h \<longleftrightarrow> serve NoForwardAuth meth target = Run h"
    if "h \<in> {HBackendStatus, HStatusStream, HHealth}"
    using that ctrl
    by (auto simp: serve_def route_or_404_def forward_layer_def split: list.splits if_splits option.splits auth_reply.splits)
  show ?thesis using 1 2 3 by blast
qed

text \<open>
  A client that reconnects to the stream of a backend with the id of the last item it has seen
  gets exactly the items after it, and nothing twice, however the updates are divided between the
  database and the subscription; without an id it gets them all.
\<close>

theorem status_stream_resumes:
  assumes "db_ok d" and "exists_row (\<lambda>b. b_id b = i) (backends d)"
    and "handle_backend_status_stream None i d received = seen @ (last_id, e) # rest"
  shows "handle_backend_status_stream (Some last_id) i d received = rest
    \<and> map snd (seen @ (last_id, e) # rest) = status_stream i d received"
proof -
  let ?item = "\<lambda>e. (status_to_string (se_status e), e)"
  have all: "map ?item (status_stream i d received) = seen @ (last_id, e) # rest"
    using assms(3) by (simp add: handle_backend_status_stream_def)
  have snd: "map snd (seen @ (last_id, e) # rest) = status_stream i d received"
    unfolding all [symmetric] by (simp add: comp_def)
  have id: "last_id = status_to_string (se_status e)" using arg_cong [OF all, of set] by auto
  have "sorted_wrt (<) (map se_status (map snd (seen @ (last_id, e) # rest)))"
    unfolding snd by (rule status_stream_statuses(5) [OF assms(1,2)])
  then have srt: "\<forall>x\<in>set seen. se_status (snd x) < se_status e" "\<forall>x\<in>set rest. se_status e < se_status (snd x)"
    by (auto simp: sorted_wrt_append)
  have "handle_backend_status_stream (Some last_id) i d received
      = filter (\<lambda>x. \<not> se_status (snd x) \<le> se_status e) (map ?item (status_stream i d received))"
    by (simp add: handle_backend_status_stream_def id status_try_from_Some_iff [THEN iffD2] filter_map comp_def)
  also have "\<dots> = rest" unfolding all using srt by (auto simp: filter_empty_conv not_le intro!: filter_True)
  finally show ?thesis using snd by simp
qed

text \<open>
  A request to terminate a backend is refused with 404 when the backend is unknown. Otherwise,
  if it is accepted, exactly one action is added to the pending ones: to terminate that backend, of
  the requested kind, for the drone that runs it; this is one step of the database. A request that is
  refused changes nothing, and so does a failed cleanup.
\<close>

theorem terminate_request_effect:
  "(find_row (\<lambda>b. b_id b = i) (backends d) = None \<longrightarrow>
      handle_terminate err_id show_id samples now i hard d
        = Inl (err_to_response err_id 404 ''Backend does not exist'' ANotFound))
   \<and> (handle_terminate err_id show_id samples now i hard d = Inr d' \<longrightarrow> db_step now d d'
        \<and> (\<exists>b. find_row (\<lambda>b. b_id b = i) (backends d) = Some b
             \<and> unacked dr d' = unacked dr d \<union> (if dr = b_drone_id b
                  then {\<lparr> am_action_id = name_new_random action_prefix samples, am_backend_id = i,
                          am_drone_id = dr, am_action = Terminate (if hard then Hard else Soft) External \<rparr>} else {})))
   \<and> (run_cleanup now days batch d = (ok, d'') \<longrightarrow> db_reaches d d'' \<and> (\<not> ok \<longrightarrow> d'' = d))"
proof -
  have 1: "handle_terminate err_id show_id samples now i hard d
        = Inl (err_to_response err_id 404 ''Backend does not exist'' ANotFound)"
    if "find_row (\<lambda>b. b_id b = i) (backends d) = None"
    using that by (simp add: handle_terminate_def get_backend_def or_internal_error_def or_not_found_def ok_or_def)
  have 2: "db_step now d d' \<and> (\<exists>b. find_row (\<lambda>b. b_id b = i) (backends d) = Some b
             \<and> unacked dr d' = unacked dr d \<union> (if dr = b_drone_id b
                  then {\<lparr> am_action_id = name_new_random action_prefix samples, am_backend_id = i,
                          am_drone_id = dr, am_action = Terminate (if hard then Hard else Soft) External \<rparr>} else {}))"
    if t: "handle_terminate err_id show_id samples now i hard d = Inr d'"
  proof -
    from t obtain row where row: "get_backend now i d = Inr (Some row)"
      and c: "create_pending_action show_id samples now i (br_drone_id row)
                (Terminate (if hard then Hard else Soft) External) d = Inr d'"
      by (auto simp: handle_terminate_def bind_result_Inr_iff or_internal_error_def or_not_found_def ok_or_def
          split: option.splits)
    from row obtain b where b: "find_row (\<lambda>b. b_id b = i) (backends d) = Some b" "br_drone_id row = b_drone_id b"
      by (auto simp: get_backend_def decode_backend_row_def bind_result_Inr_iff split: option.splits)
    show ?thesis using b step_other [OF step_action [OF c]] unacked_create [OF c, of dr] by auto
  qed
  have 3: "db_reaches d d'' \<and> (\<not> ok \<longrightarrow> d'' = d)" if c: "run_cleanup now days batch d = (ok, d'')"
  proof (cases days)
    case None
    then show ?thesis using c reaches_step [OF step_other [OF step_clean_tokens [of now d]]]
      by (simp add: run_cleanup_def)
  next
    case (Some n)
    show ?thesis
    proof (cases "cleanup now n (case batch of Some n \<Rightarrow> n | None \<Rightarrow> DEFAULT_BATCH_SIZE) d")
      case (Inl e)
      then show ?thesis using c Some by (simp add: run_cleanup_def)
    next
      case (Inr d1)
      have "db_reaches d d1" by (rule reaches_step [OF step_cleanup [OF Inr]])
      moreover have "db_reaches d1 (clean_up_events now n d1)"
        by (rule reaches_step [OF step_other [OF step_clean_events [where now = now]]])
      moreover have "db_reaches (clean_up_events now n d1) (clean_up_tokens now (clean_up_events now n d1))"
        by (rule reaches_step [OF step_other [OF step_clean_tokens [where now = now]]])
      ultimately have "db_reaches d (clean_up_tokens now (clean_up_events now n d1))"
        using reaches_trans by blast
      then show ?thesis using c Some Inr by (simp add: run_cleanup_def)
    qed
  qed
  show ?thesis using 1 2 3 by blast
qed

section \<open>Witnesses\<close>

theorem client_calls_reach_handlers_witness:
  "list_all plain_segment (call_args (ClientDrain ''c:80'' ''dr-1'')) \<and>
   serve NoForwardAuth POST ''/ctrl/c/c:80/d/dr-1/drain'' = Run HDrain"
  using client_calls_reach_handlers [of "ClientDrain ''c:80'' ''dr-1''" id]
  by (simp add: plain_segment_def)

theorem forward_auth_guards_control_witness:
  "serve (AuthStatus 204) POST ''/ctrl/connect'' = serve NoForwardAuth POST ''/ctrl/connect''"
  using forward_auth_guards_control [of NoForwardAuth POST "''/ctrl/connect''" HConnect 204] by simp

theorem status_stream_resumes_witness:
  "handle_backend_status_stream (Some ''scheduled'') ''b1'' example_backend_db []
     = [(''ready'', from_state (Ready (''a'', 80)) 0)]"
proof -
  have 1: "exists_row (\<lambda>b. b_id b = ''b1'') (backends example_backend_db)"
    by (simp add: exists_row_def example_backend_db_def example_backend_def)
  have 2: "handle_backend_status_stream None ''b1'' example_backend_db []
      = [] @ (''scheduled'', from_state Scheduled 0) # [(''ready'', from_state (Ready (''a'', 80)) 0)]"
    by (simp add: handle_backend_status_stream_def status_stream_def example_backend_db_def example_history_def
        from_state_def status_to_string_def)
  from status_stream_resumes [OF example_backend_db_ok 1 2] show ?thesis by simp
qed

theorem terminate_request_effect_witness:
  "handle_terminate ''e'' (\<lambda>_. ''1'') (replicate 14 0) 3 ''b2'' True example_backend_db
     = Inl (err_to_response ''e'' 404 ''Backend does not exist'' ANotFound)"
proof -
  have "find_row (\<lambda>b. b_id b = ''b2'') (backends example_backend_db) = None"
    by (simp add: find_row_def example_backend_db_def example_backend_def)
  then show ?thesis
    using terminate_request_effect [of "''b2''" example_backend_db "''e''" "\<lambda>_. ''1''" "replicate 14 0" 3 True]
    by blast
qed

end
