(* ===== verification/Sse.thy ===== *)
theory Sse
  imports Plane_Prelude
begin

text \<open>
  The client side of event streams, from \<open>common/src/sse.rs\<close>, with the exponential backoff of
  \<open>common/src/exponential_backoff.rs\<close>. A connection is the list of the chunks of its body. Bytes are
  characters; whether the bytes of an id are valid UTF-8 is the parameter \<open>utf8\<close>, and decoding a
  payload is the parameter \<open>parse\<close>. The floating point product of a backoff, cut to milliseconds, is
  the parameter \<open>scaled\<close>.
\<close>

section \<open>Definitions\<close>

record RawSseStream =
  ss_buffer :: string
  ss_data :: "string option"
  ss_id :: "string option"

definition new_raw_stream :: RawSseStream where
  "new_raw_stream = \<lparr> ss_buffer = [], ss_data = None, ss_id = None \<rparr>"

abbreviation newline :: char where "newline \<equiv> CHR 0x0A"

text \<open>One complete line; \<open>Some\<close> is a returned event.\<close>

definition sse_line ::
  "(string \<Rightarrow> bool) \<Rightarrow> string \<Rightarrow> RawSseStream \<Rightarrow> (string option \<times> string) option \<times> RawSseStream" where
  "sse_line utf8 line s =
     (case strip_prefix line ''data:'' of
        Some result \<Rightarrow>
          (None, s\<lparr> ss_data := Some (case ss_data s of Some d \<Rightarrow> d @ [newline] @ result | None \<Rightarrow> result) \<rparr>)
      | None \<Rightarrow>
          (case strip_prefix line ''id:'' of
             Some result \<Rightarrow> (None, if utf8 result then s\<lparr> ss_id := Some result \<rparr> else s)
           | None \<Rightarrow>
               (case ss_data s of
                  Some d \<Rightarrow> if line = [] then (Some (ss_id s, d), s\<lparr> ss_data := None, ss_id := None \<rparr>)
                            else (None, s)
                | None \<Rightarrow> (None, s))))"

text \<open>The lines of a chunk. A returned event ends the work on the chunk.\<close>

function sse_chunk ::
  "(string \<Rightarrow> bool) \<Rightarrow> string \<Rightarrow> RawSseStream \<Rightarrow> (string option \<times> string) option \<times> RawSseStream" where
  "sse_chunk utf8 chunk s =
     (case split_once newline chunk of
        Some (current_line, rest) \<Rightarrow>
          (case sse_line utf8 (ss_buffer s @ current_line) (s\<lparr> ss_buffer := [] \<rparr>) of
             (Some event, s') \<Rightarrow> (Some event, s')
           | (None, s') \<Rightarrow> sse_chunk utf8 rest s')
      | None \<Rightarrow> (None, s\<lparr> ss_buffer := ss_buffer s @ chunk \<rparr>))"
  by pat_completeness auto
termination
proof (relation "measure (\<lambda>(_, chunk, _). length chunk)", goal_cases)
  case (2 utf8 chunk s x2 current_line rest)
  then have "split_once newline chunk = Some (current_line, rest)" by simp
  from split_once_length [OF this] show ?case by simp
qed simp

fun raw_next ::
  "(string \<Rightarrow> bool) \<Rightarrow> string list \<Rightarrow> RawSseStream
     \<Rightarrow> (string option \<times> string) option \<times> RawSseStream \<times> string list" where
  "raw_next utf8 [] s = (None, s, [])"
| "raw_next utf8 (chunk # chunks) s =
     (case sse_chunk utf8 chunk s of
        (Some event, s') \<Rightarrow> (Some event, s', chunks)
      | (None, s') \<Rightarrow> raw_next utf8 chunks s')"

text \<open>All events of one connection.\<close>

fun raw_all :: "(string \<Rightarrow> bool) \<Rightarrow> string list \<Rightarrow> RawSseStream \<Rightarrow> (string option \<times> string) list" where
  "raw_all utf8 [] s = []"
| "raw_all utf8 (chunk # chunks) s =
     (case sse_chunk utf8 chunk s of
        (Some event, s') \<Rightarrow> event # raw_all utf8 chunks s'
      | (None, s') \<Rightarrow> raw_all utf8 chunks s')"

text \<open>The values of a stream over its connections, each of which fails or has a body, with the header
  \<open>Last-Event-ID\<close> that each connection was requested with.\<close>

fun last_event_id :: "string option \<Rightarrow> (string option \<times> string) list \<Rightarrow> string option" where
  "last_event_id l [] = l"
| "last_event_id l ((i, _) # events) = last_event_id i events"

fun sse_stream ::
  "(string \<Rightarrow> bool) \<Rightarrow> (string \<Rightarrow> 'a option) \<Rightarrow> (string list) option list \<Rightarrow> string option
     \<Rightarrow> 'a list \<times> string option list" where
  "sse_stream utf8 parse [] last_id = ([], [])"
| "sse_stream utf8 parse (None # conns) last_id =
     (let (vs, ids) = sse_stream utf8 parse conns last_id in (vs, last_id # ids))"
| "sse_stream utf8 parse (Some chunks # conns) last_id =
     (let events = raw_all utf8 chunks new_raw_stream;
          (vs, ids) = sse_stream utf8 parse conns (last_event_id last_id events)
      in (List.map_filter (\<lambda>(_, d). parse d) events @ vs, last_id # ids))"

subsection \<open>Backoff\<close>

record ExponentialBackoff =
  eb_initial_millis :: nat
  eb_max :: time
  eb_defer :: time
  eb_step :: nat
  eb_deferred_reset :: "time option"

definition default_backoff :: ExponentialBackoff where
  "default_backoff = \<lparr> eb_initial_millis = 1000, eb_max = secs 60, eb_defer = secs 60, eb_step = 0,
     eb_deferred_reset = None \<rparr>"

definition defer_reset :: "time \<Rightarrow> ExponentialBackoff \<Rightarrow> ExponentialBackoff" where
  "defer_reset now b = b\<lparr> eb_deferred_reset := Some (now + eb_defer b) \<rparr>"

definition reset :: "ExponentialBackoff \<Rightarrow> ExponentialBackoff" where
  "reset b = b\<lparr> eb_deferred_reset := None, eb_step := 0 \<rparr>"

text \<open>The time slept and the new backoff.\<close>

definition wait :: "(nat \<Rightarrow> nat \<Rightarrow> nat) \<Rightarrow> time \<Rightarrow> ExponentialBackoff \<Rightarrow> time \<times> ExponentialBackoff" where
  "wait scaled now b =
     (if (case eb_deferred_reset b of Some t \<Rightarrow> now > t | None \<Rightarrow> False) then (0, reset b)
      else (min (1000 * int (scaled (eb_initial_millis b) (eb_step b))) (eb_max b),
            b\<lparr> eb_deferred_reset := None, eb_step := eb_step b + 1 \<rparr>))"

section \<open>Lemmas\<close>

declare sse_chunk.simps [simp del]

text \<open>The text of an event.\<close>

definition encode_event :: "string option \<times> string \<Rightarrow> string" where
  "encode_event = (\<lambda>(i, d). ''data:'' @ d @ [newline]
     @ (case i of Some i \<Rightarrow> ''id:'' @ i @ [newline] | None \<Rightarrow> []) @ [newline])"

definition event_ok :: "(string \<Rightarrow> bool) \<Rightarrow> string option \<times> string \<Rightarrow> bool" where
  "event_ok utf8 e \<longleftrightarrow> newline \<notin> set (snd e) \<and> (\<forall>i. fst e = Some i \<longrightarrow> newline \<notin> set i \<and> utf8 i)"

lemma sse_chunk_none:
  "split_once newline chunk = None \<Longrightarrow> sse_chunk utf8 chunk s = (None, s\<lparr> ss_buffer := ss_buffer s @ chunk \<rparr>)"
  by (subst sse_chunk.simps) simp

lemma sse_chunk_some:
  "split_once newline chunk = Some (a, b) \<Longrightarrow> sse_chunk utf8 chunk s =
     (case sse_line utf8 (ss_buffer s @ a) (s\<lparr> ss_buffer := [] \<rparr>) of
        (Some event, s') \<Rightarrow> (Some event, s') | (None, s') \<Rightarrow> sse_chunk utf8 b s')"
  by (subst sse_chunk.simps) simp

lemma sse_chunk_append:
  "sse_chunk utf8 (p @ q) s = (case sse_chunk utf8 p s of
     (Some e, s') \<Rightarrow> (Some e, s') | (None, s') \<Rightarrow> sse_chunk utf8 q s')"
proof (induction utf8 p s rule: sse_chunk.induct)
  case (1 utf8 p s)
  show ?case
  proof (cases "split_once newline p")
    case None
    show ?thesis
    proof (cases "split_once newline q")
      case None
      then show ?thesis using \<open>split_once newline p = None\<close>
        by (simp add: sse_chunk_none split_once_append)
    next
      case (Some x)
      then show ?thesis using None
        by (cases x) (simp add: sse_chunk_none sse_chunk_some split_once_append)
    qed
  next
    case (Some x)
    obtain a b where x: "x = (a, b)" by (cases x)
    obtain r s' where line: "sse_line utf8 (ss_buffer s @ a) (s\<lparr> ss_buffer := [] \<rparr>) = (r, s')"
      by (cases "sse_line utf8 (ss_buffer s @ a) (s\<lparr> ss_buffer := [] \<rparr>)")
    show ?thesis
    proof (cases r)
      case None
      then show ?thesis using 1 [OF Some x [symmetric] line [symmetric]] Some x line
        by (simp add: sse_chunk_some split_once_append)
    next
      case (Some e)
      then show ?thesis using \<open>split_once newline p = Some x\<close> x line
        by (simp add: sse_chunk_some split_once_append)
    qed
  qed
qed

lemma sse_chunk_Nil: "sse_chunk utf8 [] s = (None, s)"
  by (simp add: sse_chunk_none)

lemma raw_all_Nils: "raw_all utf8 (replicate n [] @ chunks) s = raw_all utf8 chunks s"
  by (induction n) (simp_all add: sse_chunk_Nil)

lemma raw_all_next:
  "raw_all utf8 chunks s = (case raw_next utf8 chunks s of
     (Some event, s', rest) \<Rightarrow> event # raw_all utf8 rest s' | (None, _, _) \<Rightarrow> [])"
  by (induction chunks arbitrary: s) (auto split: prod.split option.split)

text \<open>Every connection asks for the events after the last one that was read, if that one had an id.\<close>

lemma sse_stream_requests:
  "sse_stream utf8 parse (Some chunks # conns) last_id =
     (List.map_filter (\<lambda>(_, d). parse d) (raw_all utf8 chunks new_raw_stream)
        @ fst (sse_stream utf8 parse conns
            (if raw_all utf8 chunks new_raw_stream = [] then last_id
             else fst (last (raw_all utf8 chunks new_raw_stream)))),
      last_id # snd (sse_stream utf8 parse conns
            (if raw_all utf8 chunks new_raw_stream = [] then last_id
             else fst (last (raw_all utf8 chunks new_raw_stream)))))"
proof -
  have "last_event_id l events = (if events = [] then l else fst (last events))" for l events
    by (induction l events rule: last_event_id.induct) auto
  then show ?thesis by (simp add: Let_def case_prod_beta)
qed

text \<open>An event may be cut into chunks anywhere, as long as no chunk goes on after its end.\<close>

lemma raw_all_pieces:
  assumes "concat pieces = r @ [newline]" and "sse_chunk utf8 r s = (None, s')"
    and "sse_chunk utf8 [newline] s' = (Some e, s'')"
  shows "raw_all utf8 (pieces @ chunks) s = e # raw_all utf8 chunks s''"
  using assms
proof (induction pieces arbitrary: r s)
  case (Cons p ps)
  show ?case
  proof (cases "concat ps")
    case Nil
    then have "p = r @ [newline]" using Cons.prems(1) by (simp del: concat_eq_Nil_conv)
    then have "sse_chunk utf8 p s = (Some e, s'')" using Cons.prems(2,3) by (simp add: sse_chunk_append)
    moreover have "ps = replicate (length ps) []" using Nil by (simp add: replicate_length_same)
    ultimately show ?thesis using raw_all_Nils [of utf8 "length ps" chunks s''] by simp
  next
    case (Cons c cs)
    then obtain r2 y where "concat ps = r2 @ [y]" by (metis list.distinct(1) rev_exhaust)
    then have r2: "concat ps = r2 @ [newline]" "r = p @ r2" using Cons.prems(1) by simp_all
    then obtain s1 where "sse_chunk utf8 p s = (None, s1)" "sse_chunk utf8 r2 s1 = (None, s')"
      using Cons.prems(2) by (auto simp: sse_chunk_append split: prod.splits option.splits)
    with Cons.IH [OF r2(1) _ Cons.prems(3)] show ?thesis by simp
  qed
qed simp

lemma sse_data_line:
  assumes "newline \<notin> set d"
  shows "sse_chunk utf8 (''data:'' @ d @ newline # t) new_raw_stream
    = sse_chunk utf8 t (new_raw_stream\<lparr> ss_data := Some d \<rparr>)"
proof -
  have "split_once newline (''data:'' @ d @ newline # t) = Some (''data:'' @ d, t)"
    using split_once_here [of newline "''data:'' @ d" t] assms by simp
  from sse_chunk_some [OF this] show ?thesis
    by (simp add: sse_line_def strip_prefix_def starts_with_def new_raw_stream_def)
qed

lemma sse_id_line:
  assumes "newline \<notin> set i" and "utf8 i" and "ss_buffer s = []"
  shows "sse_chunk utf8 (''id:'' @ i @ newline # t) s = sse_chunk utf8 t (s\<lparr> ss_id := Some i \<rparr>)"
proof -
  have "split_once newline (''id:'' @ i @ newline # t) = Some (''id:'' @ i, t)"
    using split_once_here [of newline "''id:'' @ i" t] assms by simp
  then show ?thesis using assms(2,3)
    by (cases s) (simp add: sse_chunk_some sse_line_def strip_prefix_def starts_with_def)
qed

lemma sse_end_line:
  "sse_chunk utf8 [newline] (new_raw_stream\<lparr> ss_data := Some d, ss_id := i \<rparr>) = (Some (i, d), new_raw_stream)"
  by (simp add: sse_chunk_some sse_line_def strip_prefix_def starts_with_def new_raw_stream_def)

lemma encode_event_read:
  assumes "event_ok utf8 e"
  shows "\<exists>r s'. encode_event e = r @ [newline] \<and> sse_chunk utf8 r new_raw_stream = (None, s')
    \<and> sse_chunk utf8 [newline] s' = (Some e, new_raw_stream)"
proof -
  obtain i d where e: "e = (i, d)" by (cases e)
  have d: "newline \<notin> set d" using assms by (simp add: e event_ok_def)
  show ?thesis
  proof (cases i)
    case None
    have "new_raw_stream\<lparr> ss_data := Some d, ss_id := None \<rparr> = new_raw_stream\<lparr> ss_data := Some d \<rparr>"
      by (simp add: new_raw_stream_def)
    then show ?thesis
      using sse_data_line [OF d, of utf8 "[]"] sse_end_line [where d = d and i = None]
      by (intro exI [of _ "''data:'' @ d @ [newline]"] exI [of _ "new_raw_stream\<lparr> ss_data := Some d \<rparr>"])
         (simp add: encode_event_def e None sse_chunk_Nil)
  next
    case (Some x)
    have "newline \<notin> set x" "utf8 x" using assms by (simp_all add: e Some event_ok_def)
    then have "sse_chunk utf8 (''data:'' @ d @ newline # ''id:'' @ x @ [newline]) new_raw_stream
        = (None, new_raw_stream\<lparr> ss_data := Some d, ss_id := Some x \<rparr>)"
      using sse_data_line [OF d, of utf8 "''id:'' @ x @ [newline]"]
        sse_id_line [of x utf8 "new_raw_stream\<lparr> ss_data := Some d \<rparr>" "[]"]
      by (simp add: sse_chunk_Nil new_raw_stream_def)
    then show ?thesis using sse_end_line [where d = d and i = "Some x"]
      by (intro exI [of _ "''data:'' @ d @ newline # ''id:'' @ x @ [newline]"]
            exI [of _ "new_raw_stream\<lparr> ss_data := Some d, ss_id := Some x \<rparr>"])
         (simp add: encode_event_def e Some)
  qed
qed

section \<open>Properties\<close>


text \<open>
  When two events arrive in one chunk, the second one is lost: the rest of a chunk after an
  event is dropped.
\<close>

theorem sse_second_event_lost:
  assumes "event_ok utf8 e1"
  shows "raw_all utf8 [encode_event e1 @ encode_event e2] new_raw_stream = [e1]"
proof -
  have "sse_chunk utf8 (encode_event e1) new_raw_stream = (Some e1, new_raw_stream)"
    using encode_event_read [OF assms] by (auto simp: sse_chunk_append)
  then show ?thesis by (simp add: sse_chunk_append)
qed

text \<open>
  A backoff never sleeps longer than its maximum, and counts its waits; a reset that was
  deferred takes effect only when the next wait comes later than the deferred time, and then there
  is no sleep.
\<close>

theorem backoff_bounded:
  "fst (wait scaled now b) \<le> max 0 (eb_max b)
   \<and> eb_step (snd (wait scaled now b)) \<in> {0, eb_step b + 1}
   \<and> (eb_step (snd (wait scaled now b)) = 0 \<longleftrightarrow> (\<exists>t. eb_deferred_reset b = Some t \<and> t < now))
   \<and> (now \<le> t + eb_defer b \<longrightarrow> eb_step (snd (wait scaled now (defer_reset t b))) = eb_step b + 1)
   \<and> (t + eb_defer b < now \<longrightarrow> wait scaled now (defer_reset t b) = (0, reset b))"
  by (auto simp: wait_def reset_def defer_reset_def split: option.splits)


theorem sse_second_event_lost_witness:
  "raw_all (\<lambda>_. True) [encode_event (None, ''x'') @ encode_event (None, ''y'')] new_raw_stream = [(None, ''x'')]"
  by (rule sse_second_event_lost) (simp add: event_ok_def)

theorem backoff_bounded_witness:
  "eb_step (snd (wait (\<lambda>i n. i) 5 (defer_reset 0 default_backoff))) = 1"
  using backoff_bounded [of "\<lambda>i n. i" 5 default_backoff 0] by (simp add: default_backoff_def secs_def)

end
