(* ===== verification/Dynamic_Proxy.thy ===== *)
theory Dynamic_Proxy
  imports Plane_Types
begin

text \<open>
  The generic proxy, from \<open>dynamic-proxy/src\<close>: mutable requests, upgrades, the client that sends a
  request upstream, the redirection to HTTPS and the headers that describe the client. A header map
  is a list of lower-case names with values, in order. What the HTTP libraries accept is a parameter:
  \<open>valid_value\<close> for header values, \<open>to_str\<close> for values that are visible text, \<open>host_of\<close> for authorities,
  and \<open>upstream\<close> for the answer of a server.
\<close>

section \<open>Definitions\<close>

type_synonym headers = "(string \<times> string) list"

definition header_get :: "string \<Rightarrow> headers \<Rightarrow> string option" where
  "header_get name hs = map_option snd (find (\<lambda>h. fst h = name) hs)"

definition header_values :: "string \<Rightarrow> headers \<Rightarrow> string list" where
  "header_values name hs = map snd (filter (\<lambda>h. fst h = name) hs)"

definition header_remove :: "string \<Rightarrow> headers \<Rightarrow> headers" where
  "header_remove name hs = filter (\<lambda>h. fst h \<noteq> name) hs"

definition header_insert :: "string \<Rightarrow> string \<Rightarrow> headers \<Rightarrow> headers" where
  "header_insert name v hs = header_remove name hs @ [(name, v)]"

definition header_append :: "string \<Rightarrow> string \<Rightarrow> headers \<Rightarrow> headers" where
  "header_append name v hs = hs @ [(name, v)]"

record http_request =
  rq_scheme :: "string option"
  rq_authority :: "string option"
  rq_path :: string
  rq_query :: "string option"
  rq_headers :: headers
  rq_body :: string

record http_response =
  rp_status :: nat
  rp_headers :: headers
  rp_body :: string

subsection \<open>Requests\<close>

definition set_upstream_address :: "string \<Rightarrow> http_request \<Rightarrow> http_request" where
  "set_upstream_address addr r = r\<lparr> rq_scheme := Some ''http'', rq_authority := Some addr \<rparr>"

definition add_header :: "(string \<Rightarrow> bool) \<Rightarrow> string \<Rightarrow> string \<Rightarrow> http_request \<Rightarrow> http_request" where
  "add_header valid_value key v r =
     (if valid_value v then r\<lparr> rq_headers := header_append key v (rq_headers r) \<rparr> else r)"

definition ascii_lower :: "char \<Rightarrow> char" where
  "ascii_lower c = (if is_ascii_uppercase c then char_of (of_char c + 32 :: nat) else c)"

definition trim :: "string \<Rightarrow> string" where
  "trim s = (let ws = (\<lambda>c. c \<in> {CHR '' '', CHR 0x09, CHR 0x0A, CHR 0x0D})
             in rev (dropWhile ws (rev (dropWhile ws s))))"

definition should_upgrade :: "(string \<Rightarrow> bool) \<Rightarrow> http_request \<Rightarrow> bool" where
  "should_upgrade to_str r = (case header_get ''connection'' (rq_headers r) of
     None \<Rightarrow> False
   | Some v \<Rightarrow> to_str v \<and> list_ex (\<lambda>s. trim s = ''upgrade'') (split_char CHR '','' (map ascii_lower v)))"

subsection \<open>The client\<close>

definition split_request :: "http_request \<Rightarrow> http_request \<times> http_request" where
  "split_request r = (r\<lparr> rq_body := [] \<rparr>, r)"

definition split_response :: "http_response \<Rightarrow> http_response \<times> http_response" where
  "split_response r = (r\<lparr> rp_body := [] \<rparr>, r)"

type_synonym upgrade_handler = "http_request \<times> http_response"

text \<open>\<open>None\<close> is a failed request upstream.\<close>

definition proxy_client_request ::
  "(string \<Rightarrow> bool) \<Rightarrow> (http_request \<Rightarrow> http_response option) \<Rightarrow> http_request
     \<Rightarrow> http_response \<times> upgrade_handler option" where
  "proxy_client_request to_str upstream r =
     (let bad_gateway = (\<lparr> rp_status = 502, rp_headers = [], rp_body = [] \<rparr>, None)
      in if should_upgrade to_str r
         then (let (upstream_request, request_with_body) = split_request r
               in case upstream upstream_request of
                    None \<Rightarrow> bad_gateway
                  | Some res \<Rightarrow> (let (response, response_with_body) = split_response res
                                 in (response, Some (request_with_body, response_with_body))))
         else (case upstream r of None \<Rightarrow> bad_gateway | Some res \<Rightarrow> (res, None)))"

subsection \<open>Servers\<close>

definition wrapped_call :: "string \<Rightarrow> string \<Rightarrow> http_request \<Rightarrow> http_request" where
  "wrapped_call forwarded_for forwarded_proto r =
     r\<lparr> rq_headers := header_insert ''x-forwarded-proto'' forwarded_proto
          (header_insert ''x-forwarded-for'' forwarded_for (rq_headers r)) \<rparr>"

definition redirect_location :: "string \<Rightarrow> http_request \<Rightarrow> string" where
  "redirect_location host r =
     ''https://'' @ host @ rq_path r @ (case rq_query r of Some q \<Rightarrow> ''?'' @ q | None \<Rightarrow> [])"

definition https_redirect ::
  "(string \<Rightarrow> bool) \<Rightarrow> (string \<Rightarrow> string option) \<Rightarrow> http_request \<Rightarrow> http_response" where
  "https_redirect to_str host_of r =
     (let bad = \<lparr> rp_status = 400, rp_headers = [], rp_body = [] \<rparr>
      in case header_get ''host'' (rq_headers r) of
           None \<Rightarrow> bad
         | Some v \<Rightarrow>
             if \<not> to_str v then bad
             else case host_of v of
                    None \<Rightarrow> bad
                  | Some host \<Rightarrow> \<lparr> rp_status = 301,
                      rp_headers = [(''location'', redirect_location host r)], rp_body = [] \<rparr>)"

section \<open>Lemmas\<close>

lemma header_values_simps [simp]:
  "header_values name (header_append n v hs) = header_values name hs @ (if n = name then [v] else [])"
  "header_values name (header_insert n v hs) = (if n = name then [v] else header_values name hs)"
  "header_values name (header_remove n hs) = (if n = name then [] else header_values name hs)"
  by (auto simp: header_values_def header_append_def header_insert_def header_remove_def filter_filter
      intro!: arg_cong [where f = "map snd"] filter_cong)

lemma header_get_values: "header_get name hs = (case header_values name hs of [] \<Rightarrow> None | v # _ \<Rightarrow> Some v)"
  by (induction hs) (auto simp: header_get_def header_values_def)

text \<open>A client cannot set the headers that describe it.\<close>

lemma wrapped_call_headers:
  "header_values ''x-forwarded-for'' (rq_headers (wrapped_call ip proto r)) = [ip]"
  "header_values ''x-forwarded-proto'' (rq_headers (wrapped_call ip proto r)) = [proto]"
  "n \<notin> {''x-forwarded-for'', ''x-forwarded-proto''} \<Longrightarrow>
     header_values n (rq_headers (wrapped_call ip proto r)) = header_values n (rq_headers r)"
  by (auto simp: wrapped_call_def)

text \<open>A client is only ever redirected to HTTPS, at the host it asked for and with path and query kept.\<close>

lemma https_redirect_cases:
  "https_redirect to_str host_of r = \<lparr> rp_status = 400, rp_headers = [], rp_body = [] \<rparr>
   \<or> (\<exists>v host. header_get ''host'' (rq_headers r) = Some v \<and> host_of v = Some host
        \<and> https_redirect to_str host_of r =
            \<lparr> rp_status = 301, rp_headers = [(''location'', redirect_location host r)], rp_body = [] \<rparr>)"
  by (auto simp: https_redirect_def Let_def split: option.splits)

lemma proxy_client_request_upgrade:
  "snd (proxy_client_request to_str upstream r) \<noteq> None \<longleftrightarrow>
     should_upgrade to_str r \<and> upstream (r\<lparr> rq_body := [] \<rparr>) \<noteq> None"
  by (auto simp: proxy_client_request_def split_request_def split_response_def Let_def split: option.splits)

end
