(* ===== verification/Proxy_Request.thy ===== *)
theory Proxy_Request
  imports Dynamic_Proxy
begin

text \<open>
  The handling of a request by a proxy, from \<open>plane/src/proxy/request.rs\<close> and
  \<open>plane/src/proxy/proxy_server.rs\<close>: the bearer token in the path, the check of the host against the
  cluster and subdomain of the route, the headers that tell the backend who is calling, and the
  responses. The lookup of a route and the client are parameters of the service; \<open>to_json\<close> prints user
  data, \<open>show_addr\<close> an address.
\<close>

section \<open>Definitions\<close>

definition HTTPS_PORT_SUFFIX :: string where "HTTPS_PORT_SUFFIX = '':443''"

definition subdomain_from_host :: "string \<Rightarrow> ClusterName \<Rightarrow> unit + Subdomain option" where
  "subdomain_from_host host cluster =
     (let host' = (case strip_suffix host HTTPS_PORT_SUFFIX of Some h \<Rightarrow> h | None \<Rightarrow> host)
      in case strip_suffix host' cluster of
           Some subdomain \<Rightarrow>
             if subdomain = [] then Inr None
             else (case strip_suffix subdomain ''.'' of Some sd \<Rightarrow> Inr (Some sd) | None \<Rightarrow> Inl ())
         | None \<Rightarrow> Inl ())"

text \<open>The path and query of a URI; the new ones are returned with the token.\<close>

definition get_and_maybe_remove_bearer_token ::
  "(string \<times> string option) option \<Rightarrow> (BearerToken \<times> (string \<times> string option)) option" where
  "get_and_maybe_remove_bearer_token path_and_query =
     (case path_and_query of
        None \<Rightarrow> None
      | Some (p, query) \<Rightarrow>
          (case strip_prefix p ''/'' of
             None \<Rightarrow> None
           | Some full_path \<Rightarrow>
               (let (token, path) = (case split_once CHR ''/'' full_path of
                                       Some (token, path) \<Rightarrow> (token, path) | None \<Rightarrow> (full_path, []))
                in if token = [] then None
                   else if is_static token then Some (token, (p, query))
                   else Some (token, (''/'' @ path, query)))))"

definition remove_verified :: "headers \<Rightarrow> headers" where
  "remove_verified hs = fold header_remove
     (map fst (filter (\<lambda>h. starts_with (fst h) ''x-verified-'') hs)) hs"

definition add_header_opt ::
  "(string \<Rightarrow> bool) \<Rightarrow> string \<Rightarrow> string option \<Rightarrow> http_request \<Rightarrow> http_request" where
  "add_header_opt valid_value key v r = (case v of Some x \<Rightarrow> add_header valid_value key x r | None \<Rightarrow> r)"

definition prepare_request ::
  "(string \<Rightarrow> bool) \<Rightarrow> (string \<Rightarrow> bool) \<Rightarrow> (json \<Rightarrow> string) \<Rightarrow> (socket_addr \<Rightarrow> string) \<Rightarrow> RouteInfo \<Rightarrow> string
     \<Rightarrow> http_request \<Rightarrow> nat + http_request" where
  "prepare_request to_str valid_value to_json show_addr route_info original_path r =
     (case header_get ''host'' (rq_headers r) of
        None \<Rightarrow> Inl 400
      | Some host \<Rightarrow>
          if \<not> to_str host then Inl 400
          else case subdomain_from_host host (ri_cluster route_info) of
            Inl _ \<Rightarrow> Inl 403
          | Inr request_subdomain \<Rightarrow>
              if (case ri_subdomain route_info of Some sd \<Rightarrow> request_subdomain \<noteq> Some sd | None \<Rightarrow> False)
              then Inl 403
              else
                let r1 = set_upstream_address (show_addr (ri_address route_info)) r;
                    r2 = r1\<lparr> rq_headers := remove_verified (rq_headers r1) \<rparr>;
                    r3 = add_header_opt valid_value ''x-verified-username'' (ri_user route_info) r2;
                    r4 = add_header_opt valid_value ''x-verified-user-data''
                           (map_option to_json (ri_user_data route_info)) r3;
                    r5 = add_header valid_value ''x-verified-path'' original_path r4;
                    r6 = add_header valid_value ''x-verified-backend'' (ri_backend_id route_info) r5;
                    r7 = add_header valid_value ''x-verified-secret'' (ri_secret_token route_info) r6
                in Inr r7)"

text \<open>The value of the server header has the version of the build.\<close>

definition apply_general_headers :: "string \<Rightarrow> http_response \<Rightarrow> http_response" where
  "apply_general_headers server_name r =
     (let hs = rp_headers r;
          present = (\<lambda>n. header_get n hs \<noteq> None);
          hs1 = (if present ''access-control-allow-origin'' \<or> present ''access-control-allow-methods''
                    \<or> present ''access-control-allow-headers'' then hs
                 else header_insert ''access-control-allow-headers'' ''*, Authorization''
                        (header_insert ''access-control-allow-methods'' ''*''
                          (header_insert ''access-control-allow-origin'' ''*'' hs)))
      in r\<lparr> rp_headers := header_insert ''server'' server_name hs1 \<rparr>)"

definition status_code_to_response :: "string \<Rightarrow> nat \<Rightarrow> http_response" where
  "status_code_to_response server_name st = apply_general_headers server_name \<lparr> rp_status = st, rp_headers = [], rp_body = [] \<rparr>"

subsection \<open>The service\<close>

record proxy_env =
  pe_ready :: bool
  pe_root_redirect :: "string option"
  pe_lookup :: "BearerToken \<Rightarrow> RouteInfo option"
  pe_upstream :: "http_request \<Rightarrow> http_response option"
  pe_to_str :: "string \<Rightarrow> bool"
  pe_valid_value :: "string \<Rightarrow> bool"
  pe_to_json :: "json \<Rightarrow> string"
  pe_server_name :: string
  pe_show_addr :: "socket_addr \<Rightarrow> string"

text \<open>What a request does to the connection monitor: the backend is touched, or a connection to it is
  counted until its upgraded stream ends.\<close>

datatype monitor_effect = NoEffect | Touch BackendName | Upgraded BackendName

definition proxy_call :: "proxy_env \<Rightarrow> http_request \<Rightarrow> http_response \<times> monitor_effect" where
  "proxy_call e request =
     (if rq_path request = ''/ready''
      then (status_code_to_response (pe_server_name e) (if pe_ready e then 200 else 503), NoEffect)
      else if rq_path request = ''/''
      then (case pe_root_redirect e of
              Some url \<Rightarrow> (apply_general_headers (pe_server_name e) \<lparr> rp_status = 301, rp_headers = [(''location'', url)], rp_body = [] \<rparr>, NoEffect)
            | None \<Rightarrow> (status_code_to_response (pe_server_name e) 400, NoEffect))
      else
        case get_and_maybe_remove_bearer_token (Some (rq_path request, rq_query request)) of
          None \<Rightarrow> (status_code_to_response (pe_server_name e) 400, NoEffect)
        | Some (token, (path, query)) \<Rightarrow>
            (case pe_lookup e token of
               None \<Rightarrow> (status_code_to_response (pe_server_name e) 410, NoEffect)
             | Some route_info \<Rightarrow>
                 (case prepare_request (pe_to_str e) (pe_valid_value e) (pe_to_json e) (pe_show_addr e) route_info
                         (rq_path request) (request\<lparr> rq_path := path, rq_query := query \<rparr>) of
                    Inl st \<Rightarrow> (status_code_to_response (pe_server_name e) st, NoEffect)
                  | Inr r \<Rightarrow>
                      (let (res, upgrade) = proxy_client_request (pe_to_str e) (pe_upstream e) r;
                           res' = apply_general_headers (pe_server_name e) res
                       in (res'\<lparr> rp_headers := header_insert ''x-plane-backend-id'' (ri_backend_id route_info) (rp_headers res') \<rparr>,
                           if upgrade = None then Touch (ri_backend_id route_info)
                           else Upgraded (ri_backend_id route_info))))))"

section \<open>Lemmas\<close>

lemma fold_header_remove: "fold header_remove ns hs = filter (\<lambda>h. fst h \<notin> set ns) hs"
  by (induction ns arbitrary: hs) (auto simp: header_remove_def filter_filter intro: filter_cong)

lemma remove_verified_eq: "remove_verified hs = filter (\<lambda>h. \<not> starts_with (fst h) ''x-verified-'') hs"
  unfolding remove_verified_def fold_header_remove by (rule filter_cong) (auto intro: rev_image_eqI)

lemma strip_suffix_dot: "strip_suffix (sd @ ''.'') ''.'' = Some sd"
  by (simp add: strip_suffix_Some_iff)

lemma no_port_suffix:
  assumes "\<not> suffix '':443'' cluster"
  shows "\<not> suffix '':443'' (sd @ ''.'' @ cluster)"
proof
  assume "suffix '':443'' (sd @ ''.'' @ cluster)"
  then obtain t where t: "'':443'' = t @ cluster" "suffix t (sd @ ''.'')"
    using assms suffix_append [of "'':443''" "sd @ ''.''" cluster] by auto
  have "t \<noteq> []" using t(1) assms by auto
  then have "last t = CHR ''.''" using t(2) by (auto simp: suffix_def dest!: arg_cong [where f = last])
  then have "CHR ''.'' \<in> set '':443''" unfolding t(1) using \<open>t \<noteq> []\<close> last_in_set [of t] by auto
  then show False by simp
qed

lemma add_header_simps [simp]:
  "rq_headers (add_header vv k v r) = rq_headers r @ (if vv v then [(k, v)] else [])"
  "rq_authority (add_header vv k v r) = rq_authority r" "rq_scheme (add_header vv k v r) = rq_scheme r"
  "rq_path (add_header vv k v r) = rq_path r" "rq_query (add_header vv k v r) = rq_query r"
  "rq_body (add_header vv k v r) = rq_body r"
  by (simp_all add: add_header_def header_append_def)

lemma add_header_opt_simps [simp]:
  "rq_headers (add_header_opt vv k v r) = rq_headers r @ (case v of Some x \<Rightarrow> if vv x then [(k, x)] else [] | None \<Rightarrow> [])"
  "rq_authority (add_header_opt vv k v r) = rq_authority r" "rq_scheme (add_header_opt vv k v r) = rq_scheme r"
  "rq_path (add_header_opt vv k v r) = rq_path r" "rq_query (add_header_opt vv k v r) = rq_query r"
  "rq_body (add_header_opt vv k v r) = rq_body r"
  by (simp_all add: add_header_opt_def split: option.split)

text \<open>The headers that a route gives to a request.\<close>

definition route_headers :: "(json \<Rightarrow> string) \<Rightarrow> RouteInfo \<Rightarrow> string \<Rightarrow> headers" where
  "route_headers to_json ri original_path =
     (case ri_user ri of Some u \<Rightarrow> [(''x-verified-username'', u)] | None \<Rightarrow> [])
     @ (case ri_user_data ri of Some u \<Rightarrow> [(''x-verified-user-data'', to_json u)] | None \<Rightarrow> [])
     @ [(''x-verified-path'', original_path), (''x-verified-backend'', ri_backend_id ri),
        (''x-verified-secret'', ri_secret_token ri)]"

lemma route_headers_prefix: "h \<in> set (route_headers to_json ri p) \<Longrightarrow> starts_with (fst h) ''x-verified-''"
  by (auto simp: route_headers_def starts_with_def split: option.splits)

lemma prepare_request_host:
  assumes "prepare_request to_str vv to_json show_addr ri path r = Inr r'"
  shows "\<exists>host sd. header_get ''host'' (rq_headers r) = Some host \<and> to_str host
    \<and> subdomain_from_host host (ri_cluster ri) = Inr sd \<and> (\<forall>x. ri_subdomain ri = Some x \<longrightarrow> sd = Some x)"
  using assms unfolding prepare_request_def by (auto split: option.splits sum.splits if_splits)

lemma prepare_request_Inr:
  assumes "prepare_request to_str vv to_json show_addr ri path r = Inr r'"
  shows "rq_headers r' = remove_verified (rq_headers r) @ filter (\<lambda>h. vv (snd h)) (route_headers to_json ri path)"
    "rq_authority r' = Some (show_addr (ri_address ri))" "rq_scheme r' = Some ''http''" "rq_path r' = rq_path r"
    "rq_query r' = rq_query r" "rq_body r' = rq_body r"
proof -
  obtain host sd where h: "header_get ''host'' (rq_headers r) = Some host" "to_str host"
    "subdomain_from_host host (ri_cluster ri) = Inr sd" "\<forall>x. ri_subdomain ri = Some x \<longrightarrow> sd = Some x"
    using prepare_request_host [OF assms] by blast
  then have c: "\<not> (case ri_subdomain ri of Some x \<Rightarrow> sd \<noteq> Some x | None \<Rightarrow> False)" by (simp split: option.split)
  let ?r2 = "(set_upstream_address (show_addr (ri_address ri)) r)\<lparr> rq_headers := remove_verified (rq_headers r) \<rparr>"
  have r': "r' = add_header vv ''x-verified-secret'' (ri_secret_token ri)
      (add_header vv ''x-verified-backend'' (ri_backend_id ri)
      (add_header vv ''x-verified-path'' path
      (add_header_opt vv ''x-verified-user-data'' (map_option to_json (ri_user_data ri))
      (add_header_opt vv ''x-verified-username'' (ri_user ri) ?r2))))"
    using assms h c by (simp add: prepare_request_def Let_def set_upstream_address_def)
  show "rq_headers r' = remove_verified (rq_headers r) @ filter (\<lambda>h. vv (snd h)) (route_headers to_json ri path)"
    unfolding r' by (cases "ri_user ri"; cases "ri_user_data ri") (simp_all add: route_headers_def)
  show "rq_authority r' = Some (show_addr (ri_address ri))" "rq_scheme r' = Some ''http''" "rq_path r' = rq_path r"
    "rq_query r' = rq_query r" "rq_body r' = rq_body r"
    unfolding r' by (simp_all add: set_upstream_address_def)
qed

lemma general_headers:
  "header_values ''server'' (rp_headers (apply_general_headers sn res)) = [sn]"
  "\<exists>n\<in>{''access-control-allow-origin'', ''access-control-allow-methods'', ''access-control-allow-headers''}.
     header_values n (rp_headers (apply_general_headers sn res)) \<noteq> []"
proof -
  have none: "header_get n hs = None \<longleftrightarrow> header_values n hs = []" for n hs
    by (simp add: header_get_values split: list.split)
  show "header_values ''server'' (rp_headers (apply_general_headers sn res)) = [sn]"
    by (simp add: apply_general_headers_def Let_def)
  show "\<exists>n\<in>{''access-control-allow-origin'', ''access-control-allow-methods'', ''access-control-allow-headers''}.
     header_values n (rp_headers (apply_general_headers sn res)) \<noteq> []"
    unfolding apply_general_headers_def Let_def none by simp
qed

text \<open>The request that is sent to the backend of a route, when there is one.\<close>

definition forwards :: "proxy_env \<Rightarrow> http_request \<Rightarrow> RouteInfo \<Rightarrow> http_request \<Rightarrow> bool" where
  "forwards e request ri r \<longleftrightarrow> rq_path request \<noteq> ''/ready'' \<and> rq_path request \<noteq> ''/'' \<and> (\<exists>token path query.
       get_and_maybe_remove_bearer_token (Some (rq_path request, rq_query request)) = Some (token, path, query)
     \<and> pe_lookup e token = Some ri
     \<and> prepare_request (pe_to_str e) (pe_valid_value e) (pe_to_json e) (pe_show_addr e) ri (rq_path request)
         (request\<lparr> rq_path := path, rq_query := query \<rparr>) = Inr r)"

lemma proxy_call_forwards:
  assumes "forwards e request ri r" and "proxy_client_request (pe_to_str e) (pe_upstream e) r = (res0, up)"
  shows "proxy_call e request =
    ((apply_general_headers (pe_server_name e) res0)\<lparr> rp_headers := header_insert ''x-plane-backend-id''
        (ri_backend_id ri) (rp_headers (apply_general_headers (pe_server_name e) res0)) \<rparr>,
     if up = None then Touch (ri_backend_id ri) else Upgraded (ri_backend_id ri))"
  using assms by (auto simp: forwards_def proxy_call_def Let_def)

lemma proxy_call_local:
  assumes "\<nexists>ri r. forwards e request ri r"
  shows "\<exists>res0. \<forall>u. proxy_call (e\<lparr> pe_upstream := u \<rparr>) request = (apply_general_headers (pe_server_name e) res0, NoEffect)"
proof (cases "rq_path request = ''/ready'' \<or> rq_path request = ''/''")
  case True
  then show ?thesis
    by (cases "pe_root_redirect e") (auto simp: proxy_call_def status_code_to_response_def)
next
  case path: False
  show ?thesis
  proof (cases "get_and_maybe_remove_bearer_token (Some (rq_path request, rq_query request))")
    case None
    then show ?thesis using path by (auto simp: proxy_call_def status_code_to_response_def)
  next
    case (Some t)
    obtain token p query where t: "t = (token, p, query)" by (cases t)
    have inl: "\<exists>st. prepare_request (pe_to_str e) (pe_valid_value e) (pe_to_json e) (pe_show_addr e) ri (rq_path request)
        (request\<lparr> rq_path := p, rq_query := query \<rparr>) = Inl st" if "pe_lookup e token = Some ri" for ri
    proof (cases "prepare_request (pe_to_str e) (pe_valid_value e) (pe_to_json e) (pe_show_addr e) ri (rq_path request)
        (request\<lparr> rq_path := p, rq_query := query \<rparr>)")
      case (Inr r)
      then have "forwards e request ri r" using path Some t that unfolding forwards_def by blast
      then show ?thesis using assms by blast
    qed blast
    show ?thesis
    proof (cases "pe_lookup e token")
      case None
      then show ?thesis using path Some t by (auto simp: proxy_call_def status_code_to_response_def)
    next
      case (Some ri)
      from inl [OF this] obtain st where "prepare_request (pe_to_str e) (pe_valid_value e) (pe_to_json e)
        (pe_show_addr e) ri (rq_path request) (request\<lparr> rq_path := p, rq_query := query \<rparr>) = Inl st" by blast
      then show ?thesis using path Some \<open>_ = Some t\<close> t
        by (auto simp: proxy_call_def status_code_to_response_def)
    qed
  qed
qed

section \<open>Properties\<close>

text \<open>
  C7: A backend can trust the headers that a proxy verified. Whatever headers a client sends, the
  headers with the prefix \<open>x-verified-\<close> of the request that is forwarded are those of the route and
  no others (values that are no valid header values are left out); all other headers, the path, the
  query and the body are passed on, and the request goes to the address of the route. It is only
  forwarded when its host is the cluster of the route, with the subdomain of the route if it has one.
\<close>

theorem verified_headers_authentic:
  assumes "prepare_request to_str valid_value to_json show_addr ri original_path r = Inr r'"
  shows "filter (\<lambda>h. starts_with (fst h) ''x-verified-'') (rq_headers r')
      = filter (\<lambda>h. valid_value (snd h)) (route_headers to_json ri original_path)
    \<and> filter (\<lambda>h. \<not> starts_with (fst h) ''x-verified-'') (rq_headers r')
      = filter (\<lambda>h. \<not> starts_with (fst h) ''x-verified-'') (rq_headers r)
    \<and> rq_authority r' = Some (show_addr (ri_address ri))
    \<and> (rq_path r', rq_query r', rq_body r') = (rq_path r, rq_query r, rq_body r)
    \<and> (\<exists>host sd. header_get ''host'' (rq_headers r) = Some host \<and> subdomain_from_host host (ri_cluster ri) = Inr sd
         \<and> (ri_subdomain ri = None \<or> sd = ri_subdomain ri))"
proof -
  note p = prepare_request_Inr [OF assms]
  have 1: "filter (\<lambda>h. starts_with (fst h) ''x-verified-'') (filter (\<lambda>h. valid_value (snd h)) (route_headers to_json ri original_path))
      = filter (\<lambda>h. valid_value (snd h)) (route_headers to_json ri original_path)"
    by (rule filter_True) (auto dest: route_headers_prefix)
  have 2: "filter (\<lambda>h. \<not> starts_with (fst h) ''x-verified-'') (filter (\<lambda>h. valid_value (snd h)) (route_headers to_json ri original_path)) = []"
    by (rule filter_False) (auto dest: route_headers_prefix)
  have 3: "filter (\<lambda>h. starts_with (fst h) ''x-verified-'') (remove_verified (rq_headers r)) = []"
    "filter (\<lambda>h. \<not> starts_with (fst h) ''x-verified-'') (remove_verified (rq_headers r))
      = filter (\<lambda>h. \<not> starts_with (fst h) ''x-verified-'') (rq_headers r)"
    by (simp_all add: remove_verified_eq)
  have 4: "\<exists>host sd. header_get ''host'' (rq_headers r) = Some host \<and> subdomain_from_host host (ri_cluster ri) = Inr sd
      \<and> (ri_subdomain ri = None \<or> sd = ri_subdomain ri)"
    using prepare_request_host [OF assms] by (cases "ri_subdomain ri") auto
  show ?thesis using 4 by (simp add: p 1 2 3 del: filter_filter)
qed

text \<open>
  C35: The URL that a client gets from a connect leads back to its token. The host and the path of
  the URL, also with the port 443 that some clients add to the host, are recognized by the proxies of
  the cluster: they yield the subdomain and the token of the response, and the rest of the path is
  what the backend sees (all of the path for a static token). The one exception are clusters that
  are named with the port 443, which no request matches.
\<close>

theorem connect_url_roundtrip:
  assumes "token \<noteq> []" and "CHR ''/'' \<notin> set token"
  shows "\<exists>host path. connect_url cluster subdomain token
      = (if is_https cluster then ''https'' else ''http'') @ ''://'' @ host @ path
    \<and> get_and_maybe_remove_bearer_token (Some (path, query))
      = Some (token, (if is_static token then path else ''/'', query))
    \<and> (\<not> suffix '':443'' cluster \<longrightarrow> subdomain_from_host host cluster = Inr subdomain
         \<and> subdomain_from_host (host @ '':443'') cluster = Inr subdomain)
    \<and> (suffix '':443'' cluster \<longrightarrow> subdomain_from_host cluster cluster = Inl ())"
proof -
  define host where "host = (case subdomain of Some sd \<Rightarrow> sd @ ''.'' @ cluster | None \<Rightarrow> cluster)"
  define path where "path = ''/'' @ token @ ''/''"
  have url: "connect_url cluster subdomain token
      = (if is_https cluster then ''https'' else ''http'') @ ''://'' @ host @ path"
    by (simp add: connect_url_def host_def path_def Let_def split: option.split)
  have "split_once CHR ''/'' (token @ ''/'') = Some (token, [])"
    using split_once_here [of "CHR ''/''" token "[]"] assms(2) by simp
  then have tok: "get_and_maybe_remove_bearer_token (Some (path, query))
      = Some (token, (if is_static token then path else ''/'', query))"
    using assms(1) by (simp add: get_and_maybe_remove_bearer_token_def path_def strip_prefix_def starts_with_def)
  have strip: "strip_suffix host cluster = Some (case subdomain of Some sd \<Rightarrow> sd @ ''.'' | None \<Rightarrow> [])"
    by (simp add: strip_suffix_Some_iff host_def split: option.split)
  have sub: "subdomain_from_host (host @ '':443'') cluster = Inr subdomain"
    using strip strip_suffix_Some_iff [of "host @ '':443''" "'':443''" host]
    by (cases subdomain) (simp_all add: subdomain_from_host_def HTTPS_PORT_SUFFIX_def Let_def strip_suffix_dot)
  have nosuf: "strip_suffix host '':443'' = None" if "\<not> suffix '':443'' cluster"
    using that no_port_suffix [OF that] by (cases subdomain) (simp_all add: host_def strip_suffix_None_iff)
  have bad: "subdomain_from_host cluster cluster = Inl ()" if "suffix '':443'' cluster"
  proof -
    from that obtain x where x: "cluster = x @ '':443''" by (auto simp: suffix_def)
    have "strip_suffix x cluster = None" unfolding strip_suffix_None_iff x using suffix_length_le by fastforce
    moreover have "strip_suffix cluster '':443'' = Some x" by (simp add: strip_suffix_Some_iff x)
    ultimately show ?thesis by (simp add: subdomain_from_host_def HTTPS_PORT_SUFFIX_def)
  qed
  have plain: "subdomain_from_host host cluster = Inr subdomain" if "\<not> suffix '':443'' cluster"
    using nosuf [OF that] strip
    by (cases subdomain) (simp_all add: subdomain_from_host_def HTTPS_PORT_SUFFIX_def Let_def strip_suffix_dot)
  show ?thesis using url tok sub plain bad by blast
qed


section \<open>Witnesses\<close>

definition example_route :: RouteInfo where
  "example_route = \<lparr> ri_backend_id = ''b1'', ri_address = (''10.0.0.1'', 80), ri_secret_token = ''sec'',
     ri_cluster = ''c.org'', ri_user = Some ''u'', ri_user_data = None, ri_subdomain = None \<rparr>"

definition example_http :: http_request where
  "example_http = \<lparr> rq_scheme = None, rq_authority = None, rq_path = ''/tok/x'', rq_query = None,
     rq_headers = [(''host'', ''c.org''), (''x-verified-username'', ''root'')], rq_body = [] \<rparr>"

definition example_env :: proxy_env where
  "example_env = \<lparr> pe_ready = True, pe_root_redirect = None, pe_lookup = [''tok'' \<mapsto> example_route],
     pe_upstream = (\<lambda>_. None), pe_to_str = (\<lambda>_. True), pe_valid_value = (\<lambda>_. True), pe_to_json = (\<lambda>_. []),
     pe_server_name = ''Plane'', pe_show_addr = (\<lambda>a. fst a @ '':80'') \<rparr>"

lemma example_host: "subdomain_from_host ''c.org'' ''c.org'' = Inr None"
  by (simp add: subdomain_from_host_def HTTPS_PORT_SUFFIX_def strip_suffix_def ends_with_def starts_with_def)

lemma example_prepare:
  "\<exists>r'. prepare_request (\<lambda>_. True) (\<lambda>_. True) (\<lambda>_. []) (\<lambda>a. fst a @ '':80'') example_route p
     (example_http\<lparr> rq_path := q, rq_query := None \<rparr>) = Inr r'"
  by (simp add: prepare_request_def example_http_def example_route_def header_get_def example_host Let_def)

theorem verified_headers_authentic_witness:
  "\<exists>r'. prepare_request (\<lambda>_. True) (\<lambda>_. True) (\<lambda>_. []) (\<lambda>a. fst a @ '':80'') example_route ''/tok/x''
      (example_http\<lparr> rq_path := ''/x'', rq_query := None \<rparr>) = Inr r'
     \<and> filter (\<lambda>h. starts_with (fst h) ''x-verified-'') (rq_headers r')
       = [(''x-verified-username'', ''u''), (''x-verified-path'', ''/tok/x''), (''x-verified-backend'', ''b1''),
          (''x-verified-secret'', ''sec'')]"
proof -
  obtain r' where r': "prepare_request (\<lambda>_. True) (\<lambda>_. True) (\<lambda>_. []) (\<lambda>a. fst a @ '':80'') example_route ''/tok/x''
      (example_http\<lparr> rq_path := ''/x'', rq_query := None \<rparr>) = Inr r'" using example_prepare by blast
  have "route_headers (\<lambda>_. []) example_route ''/tok/x'' = [(''x-verified-username'', ''u''),
      (''x-verified-path'', ''/tok/x''), (''x-verified-backend'', ''b1''), (''x-verified-secret'', ''sec'')]"
    by (simp add: route_headers_def example_route_def)
  with verified_headers_authentic [OF r'] r' show ?thesis by auto
qed

theorem connect_url_roundtrip_witness:
  "\<exists>host path. connect_url ''c.org'' (Some ''s'') ''tok'' = ''https://'' @ host @ path
    \<and> subdomain_from_host host ''c.org'' = Inr (Some ''s'')"
proof -
  have 1: "is_https ''c.org''" by (simp add: is_https_def)
  have 2: "\<not> suffix '':443'' ''c.org''" by (simp add: suffix_to_prefix)
  show ?thesis using connect_url_roundtrip [of "''tok''" "''c.org''" "Some ''s''" None] 1 2 by auto
qed


end
