(* ===== verification/Route_Map.thy ===== *)
theory Route_Map
  imports Plane_Types
begin

text \<open>
  The cache of routes of a proxy, from \<open>plane/src/proxy/route_map.rs\<close>. The bounded cache is the \<open>lru\<close>
  crate, which enters through its operations and what its documentation promises of them: \<open>get\<close>
  returns the value stored for a key and keeps all entries, \<open>push\<close> stores a value and may drop the
  entry of another key, \<open>iter_mut\<close> changes the values in place. A lookup that misses registers a
  listener, sends a request and waits; the end of the wait is a second step.
\<close>

section \<open>Definitions\<close>

record 'c lru_ops =
  lru_get :: "BearerToken \<Rightarrow> 'c \<Rightarrow> RouteInfo option option \<times> 'c"
  lru_push :: "BearerToken \<Rightarrow> RouteInfo option \<Rightarrow> 'c \<Rightarrow> 'c"
  lru_map_values :: "(RouteInfo option \<Rightarrow> RouteInfo option) \<Rightarrow> 'c \<Rightarrow> 'c"

text \<open>\<open>entries\<close> is the content of the cache.\<close>

definition lru_cache :: "'c lru_ops \<Rightarrow> ('c \<Rightarrow> BearerToken \<Rightarrow> RouteInfo option option) \<Rightarrow> bool" where
  "lru_cache ops entries \<longleftrightarrow>
     (\<forall>c k. fst (lru_get ops k c) = entries c k \<and> entries (snd (lru_get ops k c)) = entries c)
   \<and> (\<forall>c k v. entries (lru_push ops k v c) k = Some v
        \<and> (\<forall>k'. k' \<noteq> k \<longrightarrow> entries (lru_push ops k v c) k' \<in> {entries c k', None}))
   \<and> (\<forall>c f k. entries (lru_map_values ops f c) k = map_option f (entries c k))"

record 'c route_map =
  rm_routes :: 'c
  rm_has_sender :: bool
  rm_listeners :: "BearerToken set"
  rm_requests :: "BearerToken list"

definition CACHE_SIZE :: nat where "CACHE_SIZE = 1000"

datatype lookup_step = Found "RouteInfo option" | Pend

definition lookup_start :: "'c lru_ops \<Rightarrow> BearerToken \<Rightarrow> 'c route_map \<Rightarrow> lookup_step \<times> 'c route_map" where
  "lookup_start ops token m =
     (case lru_get ops token (rm_routes m) of
        (Some route_info, c) \<Rightarrow> (Found route_info, m\<lparr> rm_routes := c \<rparr>)
      | (None, c) \<Rightarrow>
          (let m1 = m\<lparr> rm_routes := c, rm_listeners := insert token (rm_listeners m) \<rparr>
           in if rm_has_sender m then (Pend, m1\<lparr> rm_requests := rm_requests m @ [token] \<rparr>)
              else (Found None, m1)))"

definition lookup_finish :: "'c lru_ops \<Rightarrow> BearerToken \<Rightarrow> 'c route_map \<Rightarrow> RouteInfo option \<times> 'c route_map" where
  "lookup_finish ops token m =
     (case lru_get ops token (rm_routes m) of
        (r, c) \<Rightarrow> (Option.bind r (\<lambda>x. x), m\<lparr> rm_routes := c \<rparr>))"

text \<open>The waiting lookups of the token are woken when it has a listener.\<close>

definition receive_route ::
  "'c lru_ops \<Rightarrow> BearerToken \<Rightarrow> RouteInfo option \<Rightarrow> 'c route_map \<Rightarrow> bool \<times> 'c route_map" where
  "receive_route ops token route_info m =
     (token \<in> rm_listeners m,
      m\<lparr> rm_routes := lru_push ops token route_info (rm_routes m),
         rm_listeners := rm_listeners m - {token} \<rparr>)"

definition clear_route :: "BackendName \<Rightarrow> RouteInfo option \<Rightarrow> RouteInfo option" where
  "clear_route backend r = (case r of
     Some route_info \<Rightarrow> if ri_backend_id route_info = backend then None else r | None \<Rightarrow> None)"

definition remove_backend_routes :: "'c lru_ops \<Rightarrow> BackendName \<Rightarrow> 'c route_map \<Rightarrow> 'c route_map" where
  "remove_backend_routes ops backend m =
     m\<lparr> rm_routes := lru_map_values ops (clear_route backend) (rm_routes m) \<rparr>"

definition set_sender :: "'c route_map \<Rightarrow> 'c route_map" where
  "set_sender m = m\<lparr> rm_has_sender := True \<rparr>"

section \<open>Runs\<close>

datatype route_event =
    Connected
  | Lookup BearerToken
  | Finish BearerToken
  | Response BearerToken "RouteInfo option"
  | Removed BackendName

fun route_step :: "'c lru_ops \<Rightarrow> route_event \<Rightarrow> 'c route_map \<Rightarrow> 'c route_map" where
  "route_step ops Connected m = set_sender m"
| "route_step ops (Lookup t) m = snd (lookup_start ops t m)"
| "route_step ops (Finish t) m = snd (lookup_finish ops t m)"
| "route_step ops (Response t r) m = snd (receive_route ops t r m)"
| "route_step ops (Removed b) m = remove_backend_routes ops b m"

text \<open>What the controller has told: the table that the cache stands for.\<close>

fun told :: "route_event list \<Rightarrow> BearerToken \<Rightarrow> RouteInfo option option" where
  "told [] t = None"
| "told (e # es) t = (case e of
     Response t' r \<Rightarrow> if t' = t then Some r else told es t
   | Removed b \<Rightarrow> map_option (clear_route b) (told es t)
   | _ \<Rightarrow> told es t)"

section \<open>Lemmas\<close>

lemma lru_get_eq:
  assumes "lru_cache ops entries"
  obtains c' where "lru_get ops k c = (entries c k, c')" and "entries c' = entries c"
  using assms unfolding lru_cache_def by (metis prod.collapse)

lemma lookup_start_entries:
  assumes "lru_cache ops entries"
  shows "entries (rm_routes (snd (lookup_start ops t m))) = entries (rm_routes m)"
    "fst (lookup_start ops t m) = (case entries (rm_routes m) t of
       Some r \<Rightarrow> Found r | None \<Rightarrow> if rm_has_sender m then Pend else Found None)"
    "rm_listeners (snd (lookup_start ops t m)) = (case entries (rm_routes m) t of
       Some _ \<Rightarrow> rm_listeners m | None \<Rightarrow> insert t (rm_listeners m))"
  using assms by (auto elim!: lru_get_eq [where k = t and c = "rm_routes m"]
      simp: lookup_start_def Let_def split: option.split if_splits)

lemma lookup_finish_entries:
  assumes "lru_cache ops entries"
  shows "entries (rm_routes (snd (lookup_finish ops t m))) = entries (rm_routes m)"
    "fst (lookup_finish ops t m) = Option.bind (entries (rm_routes m) t) (\<lambda>x. x)"
    "rm_listeners (snd (lookup_finish ops t m)) = rm_listeners m"
  using assms by (auto elim!: lru_get_eq [where k = t and c = "rm_routes m"] simp: lookup_finish_def)

lemma push_entries:
  assumes "lru_cache ops entries"
  shows "entries (lru_push ops k v c) k = Some v"
    "entries (lru_push ops k v c) k' = Some r \<Longrightarrow> k' \<noteq> k \<Longrightarrow> entries c k' = Some r"
  using assms unfolding lru_cache_def by (metis, metis insert_iff option.distinct(1) singletonD)

lemma map_values_entries:
  "lru_cache ops entries \<Longrightarrow> entries (lru_map_values ops f c) k = map_option f (entries c k)"
  by (simp add: lru_cache_def)

lemma routes_told:
  assumes "lru_cache ops entries" and "entries (rm_routes m) = (\<lambda>_. None)"
  shows "entries (rm_routes (fold (route_step ops) es m)) t = Some r \<Longrightarrow> told (rev es) t = Some r"
proof (induction es arbitrary: r rule: rev_induct)
  case Nil
  then show ?case using assms(2) by simp
next
  case (snoc e es)
  let ?m = "fold (route_step ops) es m"
  show ?case
  proof (cases e)
    case (Response t' x)
    then show ?thesis using snoc push_entries [OF assms(1), where k = t' and v = x and c = "rm_routes ?m"]
      by (cases "t' = t") (auto simp: receive_route_def)
  next
    case (Removed b)
    then show ?thesis using snoc map_values_entries [OF assms(1)] by (auto simp: remove_backend_routes_def)
  qed (use snoc lookup_start_entries [OF assms(1)] lookup_finish_entries [OF assms(1)] in
      \<open>auto simp: set_sender_def\<close>)
qed

lemma told_after_removed:
  assumes "\<forall>t ri. Response t (Some ri) \<in> set later \<longrightarrow> ri_backend_id ri \<noteq> b"
    and "told (later @ Removed b # es) t = Some (Some ri)"
  shows "ri_backend_id ri \<noteq> b"
  using assms
proof (induction later arbitrary: ri)
  case Nil
  then show ?case by (auto simp: clear_route_def split: option.splits if_splits)
next
  case (Cons e later)
  then show ?case
    by (cases e) (auto simp: clear_route_def split: option.splits if_splits)
qed

section \<open>Properties\<close>

text \<open>
  The cache of routes never contradicts the controller. After any sequence of lookups, responses
  and removals, a lookup that finds a route finds what the controller said last about its token, and
  never a route to a backend that was reported as removed, unless the controller named that backend
  in a later response; entries that the cache dropped are asked for again. A lookup that has to wait
  is woken by the response to its request and returns it.
\<close>

theorem routes_follow_controller:
  assumes "lru_cache ops entries" and "entries (rm_routes m0) = (\<lambda>_. None)"
    and "m = fold (route_step ops) es m0"
  shows "(fst (lookup_start ops t m) = Found (Some ri) \<or> fst (lookup_finish ops t m) = Some ri \<longrightarrow>
        told (rev es) t = Some (Some ri)
      \<and> (\<forall>es1 es2 b. es = es1 @ Removed b # es2 \<and> (\<forall>t ri. Response t (Some ri) \<in> set es2 \<longrightarrow> ri_backend_id ri \<noteq> b)
           \<longrightarrow> ri_backend_id ri \<noteq> b))
    \<and> (fst (lookup_start ops t m) = Pend \<longrightarrow>
        rm_requests (snd (lookup_start ops t m)) = rm_requests m @ [t]
      \<and> fst (receive_route ops t r (snd (lookup_start ops t m)))
      \<and> fst (lookup_finish ops t (snd (receive_route ops t r (snd (lookup_start ops t m))))) = r)"
proof -
  have "entries (rm_routes m) t = Some (Some ri)"
    if "fst (lookup_start ops t m) = Found (Some ri) \<or> fst (lookup_finish ops t m) = Some ri"
    using that lookup_start_entries(2) [OF assms(1), of t m] lookup_finish_entries(2) [OF assms(1), of t m]
    by (auto split: option.splits if_splits simp: bind_eq_Some_conv)
  then have 1: "told (rev es) t = Some (Some ri)"
    if "fst (lookup_start ops t m) = Found (Some ri) \<or> fst (lookup_finish ops t m) = Some ri"
    using that routes_told [OF assms(1,2)] assms(3) by blast
  have 2: "ri_backend_id ri \<noteq> b"
    if "told (rev es) t = Some (Some ri)" "es = es1 @ Removed b # es2"
      "\<forall>t ri. Response t (Some ri) \<in> set es2 \<longrightarrow> ri_backend_id ri \<noteq> b" for es1 es2 b
    using told_after_removed [of "rev es2" b "rev es1" t ri] that by simp
  have 3: "rm_requests (snd (lookup_start ops t m)) = rm_requests m @ [t]
      \<and> fst (receive_route ops t r (snd (lookup_start ops t m)))
      \<and> fst (lookup_finish ops t (snd (receive_route ops t r (snd (lookup_start ops t m))))) = r"
    if pend: "fst (lookup_start ops t m) = Pend"
  proof -
    have miss: "entries (rm_routes m) t = None" "rm_has_sender m"
      using pend lookup_start_entries(2) [OF assms(1), of t m] by (auto split: option.splits if_splits)
    obtain c' where "lru_get ops t (rm_routes m) = (None, c')" using lru_get_eq [OF assms(1)] miss(1) by metis
    then have "rm_requests (snd (lookup_start ops t m)) = rm_requests m @ [t]"
      "t \<in> rm_listeners (snd (lookup_start ops t m))"
      using miss(2) by (simp_all add: lookup_start_def)
    then show ?thesis using push_entries(1) [OF assms(1)]
      by (simp add: receive_route_def lookup_finish_entries(2) [OF assms(1)])
  qed
  show ?thesis using 1 2 3 by blast
qed

section \<open>A cache\<close>

text \<open>A bounded cache as the documentation describes it: entries in the order of their last use.\<close>

definition alist_lru :: "nat \<Rightarrow> (BearerToken \<times> RouteInfo option) list lru_ops" where
  "alist_lru n = \<lparr>
     lru_get = (\<lambda>k c. case map_of c k of
        Some v \<Rightarrow> (Some v, (k, v) # filter (\<lambda>e. fst e \<noteq> k) c) | None \<Rightarrow> (None, c)),
     lru_push = (\<lambda>k v c. take (Suc n) ((k, v) # filter (\<lambda>e. fst e \<noteq> k) c)),
     lru_map_values = (\<lambda>f c. map (\<lambda>(k, v). (k, f v)) c) \<rparr>"

lemma alist_lru_cache: "lru_cache (alist_lru n) map_of"
proof -
  have filt: "map_of (filter (\<lambda>e. fst e \<noteq> k) c) k' = (if k' = k then None else map_of c k')" for k k' :: BearerToken
      and c :: "(BearerToken \<times> RouteInfo option) list"
    by (induction c) auto
  have tk: "map_of (take n c) k \<in> {map_of c k, None}" for n k and c :: "(BearerToken \<times> RouteInfo option) list"
    by (induction c arbitrary: n) (auto simp: take_Cons' split: if_splits)
  have mp: "map_of (map (\<lambda>(k, v). (k, f v)) c) k = map_option f (map_of c k)" for f k
      and c :: "(BearerToken \<times> RouteInfo option) list"
    by (induction c) auto
  have 1: "fst (lru_get (alist_lru n) k c) = map_of c k \<and> map_of (snd (lru_get (alist_lru n) k c)) = map_of c" for k c
    by (auto simp: alist_lru_def filt fun_eq_iff split: option.split)
  have 2: "map_of (lru_push (alist_lru n) k v c) k' \<in> {map_of c k', None}" if "k' \<noteq> k" for k v c k'
    using tk [of n "filter (\<lambda>e. fst e \<noteq> k) c" k'] that by (simp add: alist_lru_def filt)
  show ?thesis unfolding lru_cache_def using 1 2 by (auto simp: alist_lru_def mp)
qed

theorem routes_follow_controller_witness:
  "fst (lookup_start (alist_lru 999) ''tok'' (fold (route_step (alist_lru 999)) [Connected]
      \<lparr> rm_routes = [], rm_has_sender = False, rm_listeners = {}, rm_requests = [] \<rparr>)) = Pend
   \<and> fst (receive_route (alist_lru 999) ''tok'' None (snd (lookup_start (alist_lru 999) ''tok''
        (fold (route_step (alist_lru 999)) [Connected]
          \<lparr> rm_routes = [], rm_has_sender = False, rm_listeners = {}, rm_requests = [] \<rparr>))))"
proof -
  let ?init = "\<lparr> rm_routes = [], rm_has_sender = False, rm_listeners = {}, rm_requests = [] \<rparr>
    :: (BearerToken \<times> RouteInfo option) list route_map"
  let ?m = "fold (route_step (alist_lru 999)) [Connected] ?init"
  have e: "map_of (rm_routes ?init) = (\<lambda>_. None)" by simp
  have p: "fst (lookup_start (alist_lru 999) ''tok'' ?m) = Pend"
    by (simp add: lookup_start_def alist_lru_def set_sender_def)
  show ?thesis using p routes_follow_controller [OF alist_lru_cache e refl, of 999 "''tok''" "[Connected]"] by blast
qed

end
