(* ===== verification/Connection_Monitor.thy ===== *)
theory Connection_Monitor
  imports Db_Nodes
begin

text \<open>
  The monitor of connections of a proxy, from \<open>plane/src/proxy/connection_monitor.rs\<close>. It tells the
  controller which backends are in use. Backends are visited in turn: an entry is taken from the
  queue, the loop sleeps until its time without the lock, and then the backend is looked at. The
  entry in between is \<open>mo_held\<close>; \<open>mo_sent\<close> is what the listener was called with. The number of
  connections has 32 bits and wraps around, as in a release build.
\<close>

section \<open>Definitions\<close>

record BackendEntry =
  be_active_connections :: "32 word"
  be_had_recent_connection :: bool

record ConnectionMonitor =
  mo_queue :: "(time \<times> BackendName) list"
  mo_backends :: "BackendName \<Rightarrow> BackendEntry option"
  mo_listener :: bool
  mo_held :: "(time \<times> BackendName) option"
  mo_sent :: "BackendName list"

definition new_monitor :: ConnectionMonitor where
  "new_monitor = \<lparr> mo_queue = [], mo_backends = (\<lambda>_. None), mo_listener = False, mo_held = None, mo_sent = [] \<rparr>"

definition set_listener :: "ConnectionMonitor \<Rightarrow> ConnectionMonitor" where
  "set_listener m = m\<lparr> mo_listener := True \<rparr>"

definition notify :: "BackendName \<Rightarrow> ConnectionMonitor \<Rightarrow> ConnectionMonitor" where
  "notify b m = (if mo_listener m then m\<lparr> mo_sent := mo_sent m @ [b] \<rparr> else m)"

definition remove_backend :: "BackendName \<Rightarrow> ConnectionMonitor \<Rightarrow> ConnectionMonitor" where
  "remove_backend b m = m\<lparr> mo_backends := (mo_backends m)(b := None) \<rparr>"

text \<open>The branch for a vacant entry of \<open>touch_backend\<close> and \<open>inc_connection\<close>.\<close>

definition insert_entry :: "time \<Rightarrow> BackendName \<Rightarrow> 32 word \<Rightarrow> ConnectionMonitor \<Rightarrow> ConnectionMonitor" where
  "insert_entry now b n m =
     (let m1 = notify b m
      in m1\<lparr> mo_queue := mo_queue m1 @ [(now + HEARTBEAT_INTERVAL, b)],
             mo_backends := (mo_backends m1)(b \<mapsto>
               \<lparr> be_active_connections = n, be_had_recent_connection = True \<rparr>) \<rparr>)"

definition touch_backend :: "time \<Rightarrow> BackendName \<Rightarrow> ConnectionMonitor \<Rightarrow> ConnectionMonitor" where
  "touch_backend now b m = (case mo_backends m b of
     Some e \<Rightarrow> m\<lparr> mo_backends := (mo_backends m)(b \<mapsto> e\<lparr> be_had_recent_connection := True \<rparr>) \<rparr>
   | None \<Rightarrow> insert_entry now b 0 m)"

definition inc_connection :: "time \<Rightarrow> BackendName \<Rightarrow> ConnectionMonitor \<Rightarrow> ConnectionMonitor" where
  "inc_connection now b m = (case mo_backends m b of
     Some e \<Rightarrow> m\<lparr> mo_backends := (mo_backends m)(b \<mapsto>
       e\<lparr> be_active_connections := be_active_connections e + 1, be_had_recent_connection := True \<rparr>) \<rparr>
   | None \<Rightarrow> insert_entry now b 1 m)"

definition dec_connection :: "BackendName \<Rightarrow> ConnectionMonitor \<Rightarrow> ConnectionMonitor" where
  "dec_connection b m = (case mo_backends m b of
     Some e \<Rightarrow> m\<lparr> mo_backends := (mo_backends m)(b \<mapsto>
       e\<lparr> be_active_connections := be_active_connections e - 1 \<rparr>) \<rparr>
   | None \<Rightarrow> m)"

text \<open>The two halves of a turn of the loop.\<close>

definition pop_visit :: "ConnectionMonitor \<Rightarrow> ConnectionMonitor" where
  "pop_visit m = (case (mo_held m, mo_queue m) of
     (None, x # q) \<Rightarrow> m\<lparr> mo_held := Some x, mo_queue := q \<rparr> | _ \<Rightarrow> m)"

definition visit :: "time \<Rightarrow> ConnectionMonitor \<Rightarrow> ConnectionMonitor" where
  "visit now m = (case mo_held m of
     None \<Rightarrow> m
   | Some (t, b) \<Rightarrow>
       if now < t then m
       else (let m1 = m\<lparr> mo_held := None \<rparr>
             in case mo_backends m b of
                  None \<Rightarrow> m1
                | Some e \<Rightarrow>
                    if be_active_connections e > 0 \<or> be_had_recent_connection e
                    then (let m2 = notify b (m1\<lparr> mo_backends := (mo_backends m1)(b \<mapsto>
                                      e\<lparr> be_had_recent_connection := False \<rparr>) \<rparr>)
                          in m2\<lparr> mo_queue := mo_queue m2 @ [(now + HEARTBEAT_INTERVAL, b)] \<rparr>)
                    else m1\<lparr> mo_backends := (mo_backends m1)(b := None) \<rparr>))"

datatype monitor_event =
    SetListener
  | TouchBackend BackendName
  | IncConnection BackendName
  | DecConnection BackendName
  | RemoveBackend BackendName
  | PopVisit
  | Visit

fun monitor_step :: "time \<times> monitor_event \<Rightarrow> ConnectionMonitor \<Rightarrow> ConnectionMonitor" where
  "monitor_step (now, SetListener) m = set_listener m"
| "monitor_step (now, TouchBackend b) m = touch_backend now b m"
| "monitor_step (now, IncConnection b) m = inc_connection now b m"
| "monitor_step (now, DecConnection b) m = dec_connection b m"
| "monitor_step (now, RemoveBackend b) m = remove_backend b m"
| "monitor_step (now, PopVisit) m = pop_visit m"
| "monitor_step (now, Visit) m = visit now m"

section \<open>Invariant\<close>

text \<open>Every backend that is tracked will be visited again.\<close>

definition will_visit :: "BackendName \<Rightarrow> ConnectionMonitor \<Rightarrow> bool" where
  "will_visit b m \<longleftrightarrow> b \<in> snd ` set (mo_queue m) \<or> (\<exists>t. mo_held m = Some (t, b))"

definition monitored :: "ConnectionMonitor \<Rightarrow> bool" where
  "monitored m \<longleftrightarrow> (\<forall>b. mo_backends m b \<noteq> None \<longrightarrow> will_visit b m)"

definition connections :: "BackendName \<Rightarrow> ConnectionMonitor \<Rightarrow> 32 word" where
  "connections b m = (case mo_backends m b of Some e \<Rightarrow> be_active_connections e | None \<Rightarrow> 0)"

fun net_connections :: "BackendName \<Rightarrow> (time \<times> monitor_event) list \<Rightarrow> int" where
  "net_connections b [] = 0"
| "net_connections b ((_, IncConnection b') # es) = (if b' = b then 1 else 0) + net_connections b es"
| "net_connections b ((_, DecConnection b') # es) = (if b' = b then -1 else 0) + net_connections b es"
| "net_connections b (_ # es) = net_connections b es"

section \<open>Lemmas\<close>

lemma notify_simps [simp]:
  "mo_queue (notify b m) = mo_queue m" "mo_backends (notify b m) = mo_backends m"
  "mo_held (notify b m) = mo_held m" "mo_listener (notify b m) = mo_listener m"
  by (simp_all add: notify_def)

lemma monitored_step: "monitored m \<Longrightarrow> monitored (monitor_step ev m)"
proof (cases ev)
  case (Pair now e)
  assume m: "monitored m"
  show ?thesis
  proof (cases e)
    case PopVisit
    then show ?thesis using m Pair
      by (auto simp: monitored_def will_visit_def pop_visit_def split: option.splits list.splits) blast+
  next
    case Visit
    then show ?thesis using m Pair
      by (auto simp: monitored_def will_visit_def visit_def Let_def split: option.splits)
  qed (use m Pair in \<open>auto simp: monitored_def will_visit_def set_listener_def touch_backend_def
      inc_connection_def dec_connection_def remove_backend_def insert_entry_def Let_def split: option.splits\<close>)
qed

lemma net_connections_append: "net_connections b (es @ es') = net_connections b es + net_connections b es'"
  by (induction b es rule: net_connections.induct) auto

lemma connections_step:
  assumes "snd ev \<noteq> RemoveBackend b" and "snd ev = DecConnection b \<Longrightarrow> connections b m \<noteq> 0"
  shows "connections b (monitor_step ev m) = connections b m + word_of_int (net_connections b [ev])"
proof (cases ev)
  case (Pair now e)
  show ?thesis
  proof (cases e)
    case Visit
    then show ?thesis using Pair
      by (auto simp: connections_def visit_def Let_def word_greater_zero_iff split: option.splits)
  next
    case (DecConnection c)
    then show ?thesis using Pair assms
      by (auto simp: connections_def dec_connection_def split: option.splits)
  next
    case (IncConnection c)
    then show ?thesis using Pair
      by (auto simp: connections_def inc_connection_def insert_entry_def Let_def split: option.splits)
  qed (use assms Pair in \<open>auto simp: connections_def set_listener_def touch_backend_def pop_visit_def
      remove_backend_def insert_entry_def Let_def split: option.splits list.splits\<close>)
qed

lemma connections_run:
  assumes "RemoveBackend b \<notin> snd ` set es"
    and "\<And>k. 0 \<le> net_connections b (take k es) \<and> net_connections b (take k es) < 2 ^ 32"
  shows "uint (connections b (fold monitor_step es new_monitor)) = net_connections b es"
  using assms
proof (induction es rule: rev_induct)
  case Nil
  then show ?case by (simp add: connections_def new_monitor_def)
next
  case (snoc ev es)
  let ?m = "fold monitor_step es new_monitor"
  have "0 \<le> net_connections b (take k es) \<and> net_connections b (take k es) < 2 ^ 32" for k
    using snoc.prems(2) [of "min k (length es)"] by (simp add: min_def split: if_splits)
  moreover have "RemoveBackend b \<notin> snd ` set es" using snoc.prems(1) by simp
  ultimately have IH: "uint (connections b ?m) = net_connections b es" by (rule snoc.IH [rotated])
  have bounds: "0 \<le> net_connections b (es @ [ev])" "net_connections b (es @ [ev]) < 2 ^ 32"
    using snoc.prems(2) [of "Suc (length es)"] by simp_all
  have dec: "connections b ?m \<noteq> 0" if "snd ev = DecConnection b"
    using that bounds(1) IH by (cases ev) (auto simp: net_connections_append)
  have "connections b (fold monitor_step (es @ [ev]) new_monitor)
      = connections b ?m + word_of_int (net_connections b [ev])"
    using connections_step [of ev b ?m, OF _ dec] snoc.prems(1) by auto
  also have "\<dots> = word_of_int (net_connections b (es @ [ev]))"
    using IH by (simp add: net_connections_append flip: of_int_add) (metis of_int_add word_of_int_uint)
  finally show ?case using bounds by (simp add: uint_word_of_int_eq take_bit_int_eq_self_iff)
qed

lemma monitored_run: "monitored (fold monitor_step es new_monitor)"
proof (induction es rule: rev_induct)
  case Nil
  show ?case by (simp add: monitored_def new_monitor_def)
qed (simp add: monitored_step)

lemma visit_in_use:
  assumes "mo_held m = Some (t, b)" "t \<le> now" "connections b m \<noteq> 0"
  shows "connections b (visit now m) = connections b m"
    and "mo_sent (visit now m) = mo_sent m @ (if mo_listener m then [b] else [])"
    and "mo_queue (visit now m) = mo_queue m @ [(now + HEARTBEAT_INTERVAL, b)]"
  using assms by (auto simp: connections_def visit_def Let_def notify_def word_greater_zero_iff
      split: option.splits)

section \<open>Properties\<close>



text \<open>
  A backend that is removed while a connection is open, and then touched again, gets a count that
  wraps around when the connection is closed: it counts as in use until it is removed again.
\<close>

theorem removed_backend_count_wraps:
  "uint (connections b (fold monitor_step
     [(t, IncConnection b), (t, RemoveBackend b), (t, TouchBackend b), (t, DecConnection b)] new_monitor)) = 2 ^ 32 - 1"
  by (simp add: connections_def new_monitor_def inc_connection_def insert_entry_def remove_backend_def
      touch_backend_def dec_connection_def notify_def Let_def unsigned_minus_1_eq_mask mask_eq_exp_minus_1)

end
