(* ===== verification/Dns.thy ===== *)
theory Dns
  imports Plane_Types
begin

text \<open>
  The DNS server that answers the challenges of certificate authorities, from
  \<open>plane/src/dns/mod.rs\<close>, \<open>name_to_cluster.rs\<close> and \<open>error.rs\<close>. A query asks the controller for the value
  of a cluster over one socket. The queue of outgoing requests keeps one message: a second one
  overwrites it, and the loop first sees an error. Queries are numbered; \<open>dn_answers\<close> records what
  each of them received.
\<close>

section \<open>Definitions\<close>

definition cluster_name :: "(string \<Rightarrow> bool) \<Rightarrow> string option \<Rightarrow> string \<Rightarrow> ClusterName option" where
  "cluster_name host_parse cname_zone name0 =
     (let name = (case strip_suffix name0 ''.'' of Some n \<Rightarrow> n | None \<Rightarrow> name0);
          ok = (\<lambda>n. case cluster_from_str host_parse n of Inr c \<Rightarrow> Some c | Inl _ \<Rightarrow> None)
      in case cname_zone of
           Some zone \<Rightarrow>
             (case strip_suffix name zone of
                None \<Rightarrow> None
              | Some n \<Rightarrow> ok (case strip_suffix n ''.'' of Some n' \<Rightarrow> n' | None \<Rightarrow> n))
         | None \<Rightarrow> Option.bind (strip_prefix name ''_acme-challenge.'') ok)"

datatype ResponseCode = NoError | FormErr | ServFail | NotImp

type_synonym DnsError = "ResponseCode \<times> string"

definition or_dns_error :: "ResponseCode \<Rightarrow> string \<Rightarrow> 'e + 'a \<Rightarrow> DnsError + 'a" where
  "or_dns_error code message r = map_err (\<lambda>_. (code, message)) r"

text \<open>The outcome of a request to the controller: within five seconds or not, and then with an error
  of the channels or the value of the response.\<close>

type_synonym request_outcome = "unit + unit + string option"

definition do_lookup ::
  "(string \<Rightarrow> bool) \<Rightarrow> string option \<Rightarrow> (ClusterName \<Rightarrow> request_outcome) \<Rightarrow> string \<Rightarrow> string
   \<Rightarrow> DnsError + (string \<times> nat \<times> string list) list" where
  "do_lookup host_parse zone request query_type name =
     (if query_type = ''TXT''
      then case cluster_name host_parse zone name of
             None \<Rightarrow> Inl (FormErr, ''Invalid TXT query: '' @ name)
           | Some cluster \<Rightarrow>
               bind_result (or_dns_error ServFail (''Request timed out for '' @ name) (request cluster))
                 (\<lambda>r. bind_result (or_dns_error ServFail (''No TXT record found for '' @ name) r)
                   (\<lambda>result. Inr (case result of Some v \<Rightarrow> [(name, 1, [v])] | None \<Rightarrow> [])))
      else Inl (NotImp, ''Unsupported query type: '' @ query_type))"

definition handle_request :: "DnsError + (string \<times> nat \<times> string list) list \<Rightarrow> ResponseCode \<times> (string \<times> nat \<times> string list) list" where
  "handle_request r = (case r of Inr answers \<Rightarrow> (NoError, answers) | Inl (code, _) \<Rightarrow> (code, []))"

record dns_server =
  dn_request_map :: "ClusterName \<Rightarrow> nat list option"
  dn_outbound :: "MessageFromDns option"
  dn_lagged :: bool
  dn_sent :: "MessageFromDns list"
  dn_answers :: "(nat \<times> string option) list"

definition new_dns_server :: dns_server where
  "new_dns_server = \<lparr> dn_request_map = (\<lambda>_. None), dn_outbound = None, dn_lagged = False,
     dn_sent = [], dn_answers = [] \<rparr>"

definition dns_request :: "nat \<Rightarrow> ClusterName \<Rightarrow> dns_server \<Rightarrow> dns_server" where
  "dns_request i cluster s =
     s\<lparr> dn_request_map := (dn_request_map s)(cluster \<mapsto>
          (case dn_request_map s cluster of Some receivers \<Rightarrow> receivers @ [i] | None \<Rightarrow> [i])),
        dn_outbound := Some (TxtRecordRequest cluster),
        dn_lagged := (dn_lagged s \<or> dn_outbound s \<noteq> None) \<rparr>"

definition dns_outbound :: "bool \<Rightarrow> dns_server \<Rightarrow> dns_server" where
  "dns_outbound connected s =
     (if dn_lagged s then s\<lparr> dn_lagged := False \<rparr>
      else case dn_outbound s of
             None \<Rightarrow> s
           | Some m \<Rightarrow> s\<lparr> dn_outbound := None, dn_sent := dn_sent s @ (if connected then [m] else []) \<rparr>)"

definition dns_inbound :: "MessageToDns \<Rightarrow> dns_server \<Rightarrow> dns_server" where
  "dns_inbound m s = (case m of TxtRecordResponse cluster txt_value \<Rightarrow>
     (case dn_request_map s cluster of
        None \<Rightarrow> s
      | Some receivers \<Rightarrow>
          s\<lparr> dn_request_map := (dn_request_map s)(cluster := None),
             dn_answers := dn_answers s @ map (\<lambda>i. (i, txt_value)) receivers \<rparr>))"

text \<open>A query that times out drops its receiver.\<close>

definition dns_timeout :: "nat \<Rightarrow> dns_server \<Rightarrow> dns_server" where
  "dns_timeout i s = s\<lparr> dn_request_map := (\<lambda>c. map_option (filter (\<lambda>j. j \<noteq> i)) (dn_request_map s c)) \<rparr>"

datatype dns_event =
    DnsQuery nat ClusterName
  | DnsOutbound bool
  | DnsInbound MessageToDns
  | DnsTimeout nat

fun dns_step :: "dns_event \<Rightarrow> dns_server \<Rightarrow> dns_server" where
  "dns_step (DnsQuery i c) s = dns_request i c s"
| "dns_step (DnsOutbound connected) s = dns_outbound connected s"
| "dns_step (DnsInbound m) s = dns_inbound m s"
| "dns_step (DnsTimeout i) s = dns_timeout i s"

section \<open>Names\<close>

lemma strip_suffix_no_dot:
  assumes "t \<noteq> []" and "last t \<noteq> CHR ''.''"
  shows "strip_suffix (s @ t) ''.'' = None"
  using assms by (cases t rule: rev_cases) (auto simp: strip_suffix_None_iff suffix_def)

text \<open>The names under which the record of a cluster is asked for, with and without final dot.\<close>

lemma cluster_name_zone:
  assumes "cluster_from_str host_parse c = Inr c" and "zone \<noteq> []" and "last zone \<noteq> CHR ''.''"
  shows "cluster_name host_parse (Some zone) (c @ ''.'' @ zone) = Some c"
    and "cluster_name host_parse (Some zone) (c @ ''.'' @ zone @ ''.'') = Some c"
proof -
  have 1: "strip_suffix (c @ ''.'' @ zone) ''.'' = None"
    using strip_suffix_no_dot [OF assms(2,3), of "c @ ''.''"] by simp
  have 2: "strip_suffix (c @ ''.'' @ zone @ ''.'') ''.'' = Some (c @ ''.'' @ zone)"
    using strip_suffix_append [of "c @ ''.'' @ zone" "''.''"] by simp
  have 3: "strip_suffix (c @ ''.'' @ zone) zone = Some (c @ ''.'')"
    using strip_suffix_append [of "c @ ''.''" zone] by simp
  show "cluster_name host_parse (Some zone) (c @ ''.'' @ zone) = Some c"
    using assms(1) by (simp only: cluster_name_def 1 3 option.case Let_def strip_suffix_append) simp
  show "cluster_name host_parse (Some zone) (c @ ''.'' @ zone @ ''.'') = Some c"
    using assms(1) by (simp only: cluster_name_def 2 3 option.case Let_def strip_suffix_append) simp
qed

text \<open>The dot between cluster and zone is optional.\<close>

lemma cluster_name_no_dot:
  assumes "cluster_from_str host_parse c = Inr c" and "zone \<noteq> []" and "last zone \<noteq> CHR ''.''"
    and "strip_suffix c ''.'' = None"
  shows "cluster_name host_parse (Some zone) (c @ zone) = Some c"
  using assms strip_suffix_no_dot [OF assms(2,3), of c] by (simp add: cluster_name_def)

section \<open>Answers\<close>

text \<open>Every answer is the value of a response of the controller for the cluster that was asked for.\<close>

definition dns_sound :: "dns_event list \<Rightarrow> dns_server \<Rightarrow> bool" where
  "dns_sound es s \<longleftrightarrow>
     (\<forall>c ids. dn_request_map s c = Some ids \<longrightarrow> (\<forall>i\<in>set ids. DnsQuery i c \<in> set es))
     \<and> (\<forall>i v. (i, v) \<in> set (dn_answers s) \<longrightarrow>
          (\<exists>c es1 es2. es = es1 @ DnsInbound (TxtRecordResponse c v) # es2 \<and> DnsQuery i c \<in> set es1))
     \<and> (\<forall>m\<in>set (dn_sent s) \<union> set_option (dn_outbound s). \<exists>i c. m = TxtRecordRequest c \<and> DnsQuery i c \<in> set es)"

lemma dns_sound_step:
  assumes "dns_sound es s"
  shows "dns_sound (es @ [e]) (dns_step e s)"
proof -
  have old: "\<exists>c es1 es2. es @ [e] = es1 @ DnsInbound (TxtRecordResponse c v) # es2 \<and> DnsQuery i c \<in> set es1"
    if "(i, v) \<in> set (dn_answers s)" for i v
    using assms that unfolding dns_sound_def by (metis append.assoc append_Cons)
  have waiting: "DnsQuery i c \<in> set es" if "dn_request_map s c = Some ids" "i \<in> set ids" for i c ids
    using assms that unfolding dns_sound_def by blast
  have sent: "\<exists>i c. m = TxtRecordRequest c \<and> DnsQuery i c \<in> set es"
    if "m \<in> set (dn_sent s) \<union> set_option (dn_outbound s)" for m
    using assms that unfolding dns_sound_def by blast
  show ?thesis
  proof (cases e)
    case (DnsQuery i c)
    show ?thesis unfolding dns_sound_def
      using old waiting sent DnsQuery by (auto simp: dns_request_def split: option.splits if_splits) blast+
  next
    case (DnsOutbound connected)
    show ?thesis unfolding dns_sound_def
      using old waiting sent DnsOutbound by (auto simp: dns_outbound_def split: option.splits)
  next
    case (DnsTimeout i)
    show ?thesis unfolding dns_sound_def
      using old waiting sent DnsTimeout by (auto simp: dns_timeout_def)
  next
    case (DnsInbound m)
    obtain c v where m: "m = TxtRecordResponse c v" by (cases m)
    have new: "\<exists>c es1 es2. es @ [e] = es1 @ DnsInbound (TxtRecordResponse c v) # es2 \<and> DnsQuery i c \<in> set es1"
      if "dn_request_map s c = Some ids" "i \<in> set ids" for i ids
      using waiting [OF that] DnsInbound m by blast
    show ?thesis unfolding dns_sound_def
      using old waiting sent new DnsInbound m by (auto simp: dns_inbound_def split: option.splits if_splits)
  qed
qed

theorem dns_answers_sound: "dns_sound es (fold dns_step es new_dns_server)"
proof (induction es rule: rev_induct)
  case Nil
  show ?case by (simp add: dns_sound_def new_dns_server_def)
qed (simp add: dns_sound_step)

text \<open>A response answers all queries for its cluster that did not time out.\<close>

lemma dns_answers_all:
  assumes "dn_request_map s c = Some ids" and "i \<in> set ids"
  shows "(i, v) \<in> set (dn_answers (dns_inbound (TxtRecordResponse c v) s))"
  using assms by (auto simp: dns_inbound_def)

end
