(* ===== verification/Cert_Manager.thy ===== *)
theory Cert_Manager
  imports Controller_Proxy Dns
begin

text \<open>
  The certificates of a proxy, from \<open>plane/src/proxy/cert_manager.rs\<close>. The certificate authority is
  external: the results of the calls to it are fields of an order, and the validation of a challenge
  depends on the world it looks at. The other side of the socket is a function from a request and the
  world to the next response that is received (\<open>None\<close> for an error of the channel) and the world
  then; \<open>idle\<close> is what happens to the world in the fifteen seconds before a validation.
\<close>

section \<open>Definitions\<close>

record CertificatePair =
  cp_certified_key :: string
  cp_common_name :: string
  cp_validity_start :: time
  cp_validity_end :: time

definition LOCK_SLEEP_TIME :: time where "LOCK_SLEEP_TIME = secs 60"
definition FAILURE_SLEEP_TIME :: time where "FAILURE_SLEEP_TIME = secs 30"
definition RENEWAL_WINDOW :: time where "RENEWAL_WINDOW = secs (24 * 60 * 60 * 30)"

subsection \<open>The watcher\<close>

text \<open>The channel is a value with a version; the watcher knows the version it saw last.\<close>

record CertWatcher =
  cw_value :: "CertificatePair option"
  cw_version :: nat
  cw_seen :: nat
  cw_certified_key :: "string option"

definition new_watcher :: CertWatcher where
  "new_watcher = \<lparr> cw_value = None, cw_version = 0, cw_seen = 0, cw_certified_key = None \<rparr>"

definition send_cert :: "CertificatePair option \<Rightarrow> CertWatcher \<Rightarrow> CertWatcher" where
  "send_cert c w = w\<lparr> cw_value := c, cw_version := cw_version w + 1 \<rparr>"

definition update_certified_key :: "CertWatcher \<Rightarrow> CertWatcher" where
  "update_certified_key w = w\<lparr> cw_certified_key := map_option cp_certified_key (cw_value w) \<rparr>"

definition resolve :: "CertWatcher \<Rightarrow> string option \<times> CertWatcher" where
  "resolve w = (let w' = (if cw_version w \<noteq> cw_seen w then update_certified_key w else w)
                in (cw_certified_key w', w'))"

text \<open>One turn of \<open>wait_for_initial_cert\<close>: done, or the next change when there is one.\<close>

definition wait_for_initial_cert :: "CertWatcher \<Rightarrow> bool \<times> CertWatcher" where
  "wait_for_initial_cert w =
     (if cw_certified_key w \<noteq> None then (True, w)
      else if cw_version w \<noteq> cw_seen w
      then (False, update_certified_key (w\<lparr> cw_seen := cw_version w \<rparr>))
      else (False, w))"

subsection \<open>Orders\<close>

record 'w acme_challenge =
  ch_key_authorization :: "string option"
  ch_valid :: bool
  ch_validate :: "'w \<Rightarrow> bool option"

record 'w acme_authorization =
  au_challenge :: "'w acme_challenge option"
  au_wait_done :: "bool option"

record 'w acme_order =
  or_authorizations :: "'w acme_authorization list option"
  or_wait_ready :: "bool option"
  or_finalize :: bool
  or_wait_done :: "bool option"
  or_certificate :: "string list option"

datatype cert_error =
    BuildingOrder | FetchingAuthorizations | ObtainingChallenge | EncodingAuthorization
  | CertManagerError | TxtRecordRejected | UnexpectedResponse | ValidatingChallenge | ChallengeFailed
  | WaitingForAuthorization | AuthorizationFailed | WaitingForOrder | OrderFailed | FinalizingCsr
  | OrderNotDone | OrderNotValid | GettingCertificate | EmptyCertificate | InvalidCertificate

type_synonym 'w server = "CertManagerRequest \<Rightarrow> 'w \<Rightarrow> CertManagerResponse option \<times> 'w"

definition finish_authorization :: "'w acme_authorization \<Rightarrow> cert_error + unit" where
  "finish_authorization auth = (case au_wait_done auth of
     None \<Rightarrow> Inl WaitingForAuthorization
   | Some valid \<Rightarrow> if valid then Inr () else Inl AuthorizationFailed)"

definition authorize ::
  "'w server \<Rightarrow> ('w \<Rightarrow> 'w) \<Rightarrow> 'w acme_authorization \<Rightarrow> 'w \<Rightarrow> (cert_error + unit) \<times> 'w" where
  "authorize server idle auth w = (case au_challenge auth of
     None \<Rightarrow> (Inl ObtainingChallenge, w)
   | Some challenge \<Rightarrow>
       (case ch_key_authorization challenge of
          None \<Rightarrow> (Inl EncodingAuthorization, w)
        | Some txt_value \<Rightarrow>
            (case server (SetTxtRecord txt_value) w of
               (None, w') \<Rightarrow> (Inl CertManagerError, w')
             | (Some (SetTxtRecordResponse accepted), w') \<Rightarrow>
                 if \<not> accepted then (Inl TxtRecordRejected, w')
                 else (let w'' = idle w'
                       in (if ch_valid challenge then finish_authorization auth
                           else case ch_validate challenge w'' of
                                  None \<Rightarrow> Inl ValidatingChallenge
                                | Some valid \<Rightarrow> if valid then finish_authorization auth else Inl ChallengeFailed,
                           w''))
             | (Some (CertLeaseResponse _), w') \<Rightarrow> (Inl UnexpectedResponse, w'))))"

fun authorize_all ::
  "'w server \<Rightarrow> ('w \<Rightarrow> 'w) \<Rightarrow> 'w acme_authorization list \<Rightarrow> 'w \<Rightarrow> (cert_error + unit) \<times> 'w" where
  "authorize_all server idle [] w = (Inr (), w)"
| "authorize_all server idle (auth # auths) w = (case authorize server idle auth w of
     (Inl e, w') \<Rightarrow> (Inl e, w')
   | (Inr _, w') \<Rightarrow> authorize_all server idle auths w')"

definition finish_order :: "(string list \<Rightarrow> CertificatePair option) \<Rightarrow> 'w acme_order \<Rightarrow> cert_error + CertificatePair" where
  "finish_order from_raw_ders order = (case or_wait_ready order of
     None \<Rightarrow> Inl WaitingForOrder
   | Some ready \<Rightarrow>
       if \<not> ready then Inl OrderFailed
       else if \<not> or_finalize order then Inl FinalizingCsr
       else case or_wait_done order of
         None \<Rightarrow> Inl OrderNotDone
       | Some valid \<Rightarrow>
           if \<not> valid then Inl OrderNotValid
           else case or_certificate order of
             None \<Rightarrow> Inl GettingCertificate
           | Some cert \<Rightarrow>
               if cert = [] then Inl EmptyCertificate
               else (case from_raw_ders cert of None \<Rightarrow> Inl InvalidCertificate | Some c \<Rightarrow> Inr c))"

text \<open>\<open>orders\<close> is what building an order for the given identifiers yields.\<close>

definition get_certificate ::
  "(string list \<Rightarrow> CertificatePair option) \<Rightarrow> (string list \<Rightarrow> 'w acme_order option) \<Rightarrow> 'w server \<Rightarrow> ('w \<Rightarrow> 'w)
   \<Rightarrow> ClusterName \<Rightarrow> 'w \<Rightarrow> (cert_error + CertificatePair) \<times> 'w" where
  "get_certificate from_raw_ders orders server idle cluster w =
     (case orders [cluster, ''*.'' @ cluster] of
        None \<Rightarrow> (Inl BuildingOrder, w)
      | Some order \<Rightarrow>
          (case or_authorizations order of
             None \<Rightarrow> (Inl FetchingAuthorizations, w)
           | Some authorizations \<Rightarrow>
               (case authorize_all server idle authorizations w of
                  (Inl e, w') \<Rightarrow> (Inl e, w')
                | (Inr _, w') \<Rightarrow> (finish_order from_raw_ders order, w'))))"

subsection \<open>The refresh loop\<close>

text \<open>The state of the loop: the watcher it sends to, whether there is an account, and the file at the
  configured path.\<close>

record cert_loop =
  cl_watcher :: CertWatcher
  cl_account :: bool
  cl_path :: bool
  cl_saved :: "CertificatePair option"

text \<open>The environment of a step: the current time and the outcomes of the external calls.\<close>

record 'w cert_env =
  ce_now :: time
  ce_build_account :: bool
  ce_orders :: "string list \<Rightarrow> 'w acme_order option"
  ce_from_raw_ders :: "string list \<Rightarrow> CertificatePair option"
  ce_save :: bool
  ce_idle :: "'w \<Rightarrow> 'w"

definition time_until_renew :: "time \<Rightarrow> CertificatePair \<Rightarrow> time" where
  "time_until_renew now cert = cp_validity_end cert - RENEWAL_WINDOW - now"

text \<open>The part of a step after the lease was granted. The result says whether the step failed and how
  long it slept.\<close>

definition obtain_certificate ::
  "'w cert_env \<Rightarrow> 'w server \<Rightarrow> ClusterName \<Rightarrow> cert_loop \<Rightarrow> 'w \<Rightarrow> (bool \<times> time) \<times> cert_loop \<times> 'w" where
  "obtain_certificate env server cluster s w =
     (case get_certificate (ce_from_raw_ders env) (ce_orders env) server (ce_idle env) cluster w of
        (Inr cert, w') \<Rightarrow>
          (let s' = s\<lparr> cl_watcher := send_cert (Some cert) (cl_watcher s) \<rparr>
           in if \<not> cl_path s' then ((True, 0), s', w')
              else if ce_save env then ((True, 0), s'\<lparr> cl_saved := Some cert \<rparr>, w')
              else ((False, 0), s', w'))
      | (Inl _, w') \<Rightarrow> ((True, FAILURE_SLEEP_TIME), s, w'))"

definition request_lease ::
  "'w cert_env \<Rightarrow> 'w server \<Rightarrow> ClusterName \<Rightarrow> cert_loop \<Rightarrow> 'w \<Rightarrow> (bool \<times> time) \<times> cert_loop \<times> 'w" where
  "request_lease env server cluster s w =
     (if \<not> cl_account s \<and> \<not> ce_build_account env then ((False, 0), s, w)
      else (let s' = s\<lparr> cl_account := True \<rparr>
            in case server CertLeaseRequest w of
                 (None, w') \<Rightarrow> ((True, 0), s', w')
               | (Some (CertLeaseResponse accepted), w') \<Rightarrow>
                   if accepted then obtain_certificate env server cluster s' w'
                   else ((True, LOCK_SLEEP_TIME), s', w')
               | (Some (SetTxtRecordResponse _), w') \<Rightarrow> ((True, 0), s', w')))"

definition refresh_loop_step ::
  "'w cert_env \<Rightarrow> 'w server \<Rightarrow> ClusterName \<Rightarrow> cert_loop \<Rightarrow> 'w \<Rightarrow> (bool \<times> time) \<times> cert_loop \<times> 'w" where
  "refresh_loop_step env server cluster s w =
     (case cw_value (cl_watcher s) of
        Some cert \<Rightarrow>
          if time_until_renew (ce_now env) cert > 0
          then ((True, time_until_renew (ce_now env) cert), s, w)
          else request_lease env server cluster s w
      | None \<Rightarrow> request_lease env server cluster s w)"

subsection \<open>The manager\<close>

record CertManager =
  cm_acme_config :: bool
  cm_watcher :: CertWatcher
  cm_refresh_loop :: bool
  cm_responses :: "CertManagerResponse list"

definition new_cert_manager :: "CertificatePair option \<Rightarrow> bool \<Rightarrow> CertManager" where
  "new_cert_manager initial_cert acme_config =
     \<lparr> cm_acme_config = acme_config,
       cm_watcher = (case initial_cert of Some c \<Rightarrow> send_cert (Some c) new_watcher | None \<Rightarrow> new_watcher),
       cm_refresh_loop = False, cm_responses = [] \<rparr>"

definition set_request_sender :: "CertManager \<Rightarrow> CertManager" where
  "set_request_sender m = m\<lparr> cm_refresh_loop := cm_acme_config m, cm_responses := [] \<rparr>"

text \<open>The channel of responses keeps one of them and sending panics when no loop listens.\<close>

definition receive_response :: "CertManagerResponse \<Rightarrow> CertManager \<Rightarrow> CertManager option" where
  "receive_response r m = (if cm_refresh_loop m then Some (m\<lparr> cm_responses := [r] \<rparr>) else None)"

subsection \<open>Worlds\<close>

text \<open>A controller as the other side of the socket, and what the DNS servers ask it.\<close>

definition controller_server :: "time \<Rightarrow> ClusterName \<Rightarrow> NodeId \<Rightarrow> db server" where
  "controller_server now cluster node request d =
     (case handle_cert_request now cluster node request d of
        (d', ms) \<Rightarrow> (case ms of [ToCertManager r] \<Rightarrow> Some r | _ \<Rightarrow> None, d'))"

definition ask_controller :: "db \<Rightarrow> ClusterName \<Rightarrow> request_outcome" where
  "ask_controller d cluster =
     (case handle_message_from_dns (TxtRecordRequest cluster) d of TxtRecordResponse _ v \<Rightarrow> Inr (Inr v))"

text \<open>The certificate requests of proxies while the lease of one of them lasts.\<close>

definition cert_requests :: "(time \<times> ClusterName \<times> NodeId \<times> CertManagerRequest) list \<Rightarrow> db \<Rightarrow> db" where
  "cert_requests ops d = fold (\<lambda>(t, c, n, r) d. fst (handle_cert_request t c n r d)) ops d"

definition others_only :: "time \<Rightarrow> ClusterName \<Rightarrow> NodeId \<Rightarrow> (time \<times> ClusterName \<times> NodeId \<times> CertManagerRequest) list \<Rightarrow> bool" where
  "others_only now cluster node ops \<longleftrightarrow>
     (\<forall>(t, c, n, r)\<in>set ops. c \<noteq> cluster \<or> n \<noteq> node \<and> t \<le> now + ACME_LEASE)"

text \<open>An authority that validates a challenge exactly when the TXT record has its value.\<close>

definition honest :: "(string \<Rightarrow> bool) \<Rightarrow> string option \<Rightarrow> string \<Rightarrow> db acme_authorization \<Rightarrow> bool" where
  "honest host_parse zone name auth \<longleftrightarrow> au_wait_done auth = Some True \<and>
     (case au_challenge auth of
        None \<Rightarrow> False
      | Some ch \<Rightarrow>
          (case ch_key_authorization ch of
             None \<Rightarrow> False
           | Some txt_value \<Rightarrow>
               (\<forall>d. ch_validate ch d = Some
                  (handle_request (do_lookup host_parse zone (ask_controller d) ''TXT'' name)
                   = (NoError, [(name, 1, [txt_value])])))))"

text \<open>A server that keeps a log of the requests and responses.\<close>

definition logged :: "'w server \<Rightarrow> ((CertManagerRequest \<times> CertManagerResponse option) list \<times> 'w) server" where
  "logged server request w =
     (case server request (snd w) of (r, w') \<Rightarrow> (r, (fst w @ [(request, r)], w')))"

definition only_txt :: "(CertManagerRequest \<times> CertManagerResponse option) list \<Rightarrow> bool" where
  "only_txt log \<longleftrightarrow> (\<forall>x\<in>set log. \<exists>txt_value. fst x = SetTxtRecord txt_value)"

definition holds_lease :: "time \<Rightarrow> ClusterName \<Rightarrow> NodeId \<Rightarrow> string option \<Rightarrow> db \<Rightarrow> bool" where
  "holds_lease now cluster node txt_value d \<longleftrightarrow> acme_ok d \<and>
     find_row (\<lambda>e. e_cluster e = cluster) (acme_txt_entries d) =
       Some \<lparr> e_cluster = cluster, e_leased_at = now, e_leased_by = node, e_txt_value = txt_value \<rparr>"

subsection \<open>An example\<close>

definition example_cert :: CertificatePair where
  "example_cert = \<lparr> cp_certified_key = ''key'', cp_common_name = ''c'', cp_validity_start = 0,
     cp_validity_end = secs (24 * 60 * 60 * 90) \<rparr>"

definition example_auth :: "string \<Rightarrow> db acme_authorization" where
  "example_auth txt_value = \<lparr> au_challenge = Some \<lparr> ch_key_authorization = Some txt_value, ch_valid = False,
       ch_validate = (\<lambda>d. Some (handle_request (do_lookup (\<lambda>_. True) (Some ''z'') (ask_controller d) ''TXT'' ''c.z'')
         = (NoError, [(''c.z'', 1, [txt_value])]))) \<rparr>,
     au_wait_done = Some True \<rparr>"

definition example_order :: "db acme_order" where
  "example_order = \<lparr> or_authorizations = Some [example_auth ''t1'', example_auth ''t2''], or_wait_ready = Some True,
     or_finalize = True, or_wait_done = Some True, or_certificate = Some [''der''] \<rparr>"

definition example_loop :: cert_loop where
  "example_loop = \<lparr> cl_watcher = new_watcher, cl_account = False, cl_path = True, cl_saved = None \<rparr>"

section \<open>The watcher\<close>

definition watcher_ok :: "CertWatcher \<Rightarrow> bool" where
  "watcher_ok w \<longleftrightarrow> cw_seen w \<le> cw_version w
     \<and> (cw_version w = cw_seen w \<longrightarrow> cw_certified_key w = map_option cp_certified_key (cw_value w))"

lemma watcher_ok_ops:
  "watcher_ok new_watcher"
  "watcher_ok w \<Longrightarrow> watcher_ok (send_cert c w)"
  "watcher_ok w \<Longrightarrow> watcher_ok (snd (resolve w))"
  "watcher_ok w \<Longrightarrow> watcher_ok (snd (wait_for_initial_cert w))"
  by (auto simp: watcher_ok_def new_watcher_def send_cert_def resolve_def update_certified_key_def
      wait_for_initial_cert_def Let_def)

lemma resolve_latest: "watcher_ok w \<Longrightarrow> fst (resolve w) = map_option cp_certified_key (cw_value w)"
  by (auto simp: watcher_ok_def resolve_def update_certified_key_def Let_def)

section \<open>Requests\<close>

lemma authorize_log:
  assumes "\<And>w. fst (idle w) = fst w"
  shows "\<exists>rest. fst (snd (authorize (logged server) idle auth w)) = fst w @ rest
     \<and> only_txt rest"
  using assms by (auto simp: authorize_def logged_def Let_def only_txt_def split: option.splits prod.splits CertManagerResponse.splits)

lemma authorize_all_log:
  assumes "\<And>w. fst (idle w) = fst w"
  shows "\<exists>rest. fst (snd (authorize_all (logged server) idle auths w)) = fst w @ rest
     \<and> only_txt rest"
proof (induction auths arbitrary: w)
  case (Cons auth auths)
  obtain res w' where a: "authorize (logged server) idle auth w = (res, w')" by (cases "authorize (logged server) idle auth w")
  obtain rest where rest: "fst w' = fst w @ rest" "only_txt rest"
    using authorize_log [OF assms, of server auth w] a by auto
  obtain rest' where rest': "fst (snd (authorize_all (logged server) idle auths w')) = fst w' @ rest'"
    "only_txt rest'" using Cons.IH by blast
  show ?case
  proof (cases res)
    case Inl
    then show ?thesis using a rest by auto
  next
    case Inr
    then have "fst (snd (authorize_all (logged server) idle (auth # auths) w)) = fst w @ rest @ rest'"
      using a rest(1) rest'(1) by simp
    moreover have "only_txt (rest @ rest')" using rest(2) rest'(2) by (auto simp: only_txt_def)
    ultimately show ?thesis by blast
  qed
qed (simp add: only_txt_def)

lemma get_certificate_log:
  assumes "\<And>w. fst (idle w) = fst w"
  shows "\<exists>rest. fst (snd (get_certificate from orders (logged server) idle cluster w)) = fst w @ rest
     \<and> only_txt rest"
proof -
  have "snd (get_certificate from orders (logged server) idle cluster w) = w \<or>
    (\<exists>auths. snd (get_certificate from orders (logged server) idle cluster w)
      = snd (authorize_all (logged server) idle auths w))"
    by (auto simp: get_certificate_def split: option.split prod.split sum.split) (metis snd_conv)+
  moreover have "only_txt []" by (simp add: only_txt_def)
  ultimately show ?thesis using authorize_all_log [OF assms, of server _ w] by auto
qed

section \<open>Leases\<close>

lemma set_txt_record:
  assumes "holds_lease now cluster node v d"
  shows "\<exists>d'. controller_server t cluster node (SetTxtRecord txt_value) d = (Some (SetTxtRecordResponse True), d')
    \<and> holds_lease now cluster node (Some txt_value) d'"
proof -
  let ?P = "\<lambda>e. e_cluster e = cluster \<and> e_leased_by e = node"
  let ?f = "\<lambda>e. e\<lparr> e_txt_value := Some txt_value \<rparr>"
  have u: "unique_on e_cluster (acme_txt_entries d)" using assms by (simp add: holds_lease_def acme_ok_def)
  have "rows_affected ?P (acme_txt_entries d) = 1"
    using rows_affected_unique_iff [OF u, of cluster "\<lambda>e. e_leased_by e = node"] assms by (simp add: holds_lease_def)
  moreover have "find_row (\<lambda>e. e_cluster e = cluster) (update_where ?P ?f (acme_txt_entries d))
      = Some \<lparr> e_cluster = cluster, e_leased_at = now, e_leased_by = node, e_txt_value = Some txt_value \<rparr>"
    using assms by (subst find_row_update_cond) (simp_all add: holds_lease_def)
  moreover have "unique_on e_cluster (update_where ?P ?f (acme_txt_entries d))"
    using u by (simp add: unique_on_update_where)
  ultimately show ?thesis
    by (simp add: controller_server_def set_cluster_dns_def holds_lease_def acme_ok_def)
qed

lemma lease_held_from_grant:
  assumes "acme_ok d" and "snd (handle_cert_request now cluster node CertLeaseRequest d) = [ToCertManager (CertLeaseResponse True)]"
  shows "\<exists>v. holds_lease now cluster node v (fst (handle_cert_request now cluster node CertLeaseRequest d))"
proof -
  let ?P = "\<lambda>e. e_cluster e = cluster \<and> e_leased_at e + ACME_LEASE < now"
  have acq: "fst (handle_cert_request now cluster node CertLeaseRequest d) = snd (acme_acquire now cluster node d)"
    and grant: "fst (acme_acquire now cluster node d)"
    using assms(2) by (auto simp: acme_acquire_def split: sum.splits prod.splits)
  have ok: "acme_ok (snd (acme_acquire now cluster node d))" by (rule acme_ok_acquire [OF assms(1)])
  have "acme_held (snd (acme_acquire now cluster node d)) cluster = Some (node, now + ACME_LEASE)"
    using acme_held_acquire [OF assms(1)] grant by simp
  then obtain e where e: "find_row (\<lambda>e. e_cluster e = cluster) (acme_txt_entries (snd (acme_acquire now cluster node d))) = Some e"
    "e_leased_by e = node" "e_leased_at e = now" by (auto simp: acme_held_def)
  moreover have "e_cluster e = cluster" using find_row_SomeD [OF e(1)] by simp
  ultimately have "holds_lease now cluster node (e_txt_value e) (snd (acme_acquire now cluster node d))"
    using ok by (simp add: holds_lease_def)
  then show ?thesis using acq by auto
qed

lemma other_request_keeps_lease:
  assumes "holds_lease now cluster node v d" and "c \<noteq> cluster \<or> n \<noteq> node \<and> t \<le> now + ACME_LEASE"
  shows "holds_lease now cluster node v (fst (handle_cert_request t c n r d))"
proof -
  have u: "unique_on e_cluster (acme_txt_entries d)" using assms(1) by (simp add: holds_lease_def acme_ok_def)
  have f: "find_row (\<lambda>e. e_cluster e = cluster) (acme_txt_entries d) =
       Some \<lparr> e_cluster = cluster, e_leased_at = now, e_leased_by = node, e_txt_value = v \<rparr>"
    using assms(1) by (simp add: holds_lease_def)
  show ?thesis
  proof (cases r)
    case CertLeaseRequest
    have "fst (handle_cert_request t c n r d) = snd (acme_acquire t c n d)"
      using CertLeaseRequest by (auto simp: acme_acquire_def split: sum.splits)
    moreover have "holds_lease now cluster node v (snd (acme_acquire t c n d))"
      unfolding holds_lease_def using acme_ok_acquire [of d t c n] assms f
      by (cases "c = cluster") (auto simp: acme_acquire_cases holds_lease_def find_row_append find_row_update_cond find_row_update_cond_other)
    ultimately show ?thesis by simp
  next
    case (SetTxtRecord txt_value)
    then show ?thesis using assms f u
      by (cases "c = cluster") (auto simp: holds_lease_def acme_ok_def set_cluster_dns_def Let_def find_row_update_cond
          find_row_update_cond_other unique_on_update_where)
  next
    case ReleaseCertLease
    then show ?thesis using assms f u acme_ok_release
      by (cases "c = cluster") (auto simp: holds_lease_def release_cluster_lease_def acme_ok_def find_row_delete_cond
          find_row_delete_cond_other)
  qed
qed

lemma others_keep_lease:
  assumes "holds_lease now cluster node v d" and "others_only now cluster node ops"
  shows "holds_lease now cluster node v (cert_requests ops d)"
  using assms
proof (induction ops arbitrary: d)
  case Nil
  then show ?case by (simp add: cert_requests_def)
next
  case (Cons x ops)
  obtain t c n r where x: "x = (t, c, n, r)" by (cases x)
  have "holds_lease now cluster node v (fst (handle_cert_request t c n r d))"
    using Cons.prems x by (intro other_request_keeps_lease) (auto simp: others_only_def)
  then have "holds_lease now cluster node v (cert_requests ops (fst (handle_cert_request t c n r d)))"
    using Cons.prems(2) by (intro Cons.IH) (auto simp: others_only_def)
  then show ?case by (simp add: cert_requests_def x)
qed

section \<open>Challenges\<close>

lemma holds_lease_lookup:
  assumes "holds_lease now cluster node (Some v) d" and "cluster_name host_parse zone name = Some cluster"
  shows "handle_request (do_lookup host_parse zone (ask_controller d) ''TXT'' name) = (NoError, [(name, 1, [v])])"
  using assms by (simp add: handle_request_def do_lookup_def or_dns_error_def ask_controller_def
      handle_message_from_dns_def txt_record_for_cluster_def holds_lease_def)

lemma authorize_with_lease:
  assumes "holds_lease now cluster node v d" and "cluster_name host_parse zone name = Some cluster"
    and "honest host_parse zone name auth" and "others_only now cluster node ops"
  shows "\<exists>v d'. authorize (controller_server t cluster node) (cert_requests ops) auth d = (Inr (), d')
    \<and> holds_lease now cluster node (Some v) d'"
proof -
  obtain ch txt_value where ch: "au_challenge auth = Some ch" "ch_key_authorization ch = Some txt_value"
    and validate: "\<And>d. ch_validate ch d = Some
      (handle_request (do_lookup host_parse zone (ask_controller d) ''TXT'' name) = (NoError, [(name, 1, [txt_value])]))"
    and fin: "finish_authorization auth = Inr ()"
    using assms(3) by (auto simp: honest_def finish_authorization_def split: option.splits)
  obtain d' where d': "controller_server t cluster node (SetTxtRecord txt_value) d = (Some (SetTxtRecordResponse True), d')"
    "holds_lease now cluster node (Some txt_value) d'" using set_txt_record [OF assms(1)] by blast
  have held: "holds_lease now cluster node (Some txt_value) (cert_requests ops d')"
    by (rule others_keep_lease [OF d'(2) assms(4)])
  have "ch_validate ch (cert_requests ops d') = Some True"
    using validate holds_lease_lookup [OF held assms(2)] by simp
  then have "authorize (controller_server t cluster node) (cert_requests ops) auth d = (Inr (), cert_requests ops d')"
    using ch d'(1) fin by (simp add: authorize_def Let_def)
  then show ?thesis using held by blast
qed

lemma authorize_all_with_lease:
  assumes "holds_lease now cluster node v d" and "cluster_name host_parse zone name = Some cluster"
    and "list_all (honest host_parse zone name) auths" and "others_only now cluster node ops"
  shows "\<exists>v d'. authorize_all (controller_server t cluster node) (cert_requests ops) auths d = (Inr (), d')
    \<and> holds_lease now cluster node v d'"
  using assms(1,3)
proof (induction auths arbitrary: v d)
  case (Cons auth auths)
  obtain v' d' where "authorize (controller_server t cluster node) (cert_requests ops) auth d = (Inr (), d')"
    "holds_lease now cluster node (Some v') d'"
    using authorize_with_lease [OF Cons.prems(1) assms(2) _ assms(4)] Cons.prems(2) by fastforce
  moreover from Cons.IH [OF this(2)] Cons.prems(2) obtain v'' d'' where
    "authorize_all (controller_server t cluster node) (cert_requests ops) auths d' = (Inr (), d'')"
    "holds_lease now cluster node v'' d''" by auto
  ultimately show ?case by auto
qed auto

section \<open>Properties\<close>

text \<open>
  C20: When a proxy without certificate, or with one that is due for renewal, is granted the lease of
  its cluster, it obtains the certificate it ordered: each challenge is published, served by the DNS
  servers under the names of the cluster and validated by an authority that validates exactly the
  challenges whose value it finds there, whatever other proxies request while the lease lasts. The
  new certificate is the one that connections get from then on, it is saved when there is a path, and
  the proxy still holds the lease.
\<close>

theorem certificate_obtained:
  assumes "acme_ok d" and "watcher_ok (cl_watcher s)"
    and "pred_option (\<lambda>cert. time_until_renew (ce_now env) cert \<le> 0) (cw_value (cl_watcher s))"
    and "cl_account s \<or> ce_build_account env"
    and "snd (handle_cert_request now cluster node CertLeaseRequest d) = [ToCertManager (CertLeaseResponse True)]"
    and "cluster_name host_parse zone name = Some cluster"
    and "ce_orders env [cluster, ''*.'' @ cluster] = Some order" and "or_authorizations order = Some auths"
    and "list_all (honest host_parse zone name) auths" and "finish_order (ce_from_raw_ders env) order = Inr cert"
    and "others_only now cluster node ops" and "ce_idle env = cert_requests ops" and "ce_save env"
  shows "\<exists>s' d' v. refresh_loop_step env (controller_server now cluster node) cluster s d = ((True, 0), s', d')
    \<and> cw_value (cl_watcher s') = Some cert \<and> fst (resolve (cl_watcher s')) = Some (cp_certified_key cert)
    \<and> cl_saved s' = (if cl_path s then Some cert else cl_saved s)
    \<and> holds_lease now cluster node v d'"
proof -
  let ?d1 = "fst (handle_cert_request now cluster node CertLeaseRequest d)"
  obtain v where held: "holds_lease now cluster node v ?d1" using lease_held_from_grant [OF assms(1,5)] by blast
  have lease: "controller_server now cluster node CertLeaseRequest d = (Some (CertLeaseResponse True), ?d1)"
    using assms(5) by (simp add: controller_server_def case_prod_beta del: handle_cert_request.simps)
  obtain v' d' where d': "authorize_all (controller_server now cluster node) (ce_idle env) auths ?d1 = (Inr (), d')"
    "holds_lease now cluster node v' d'"
    using authorize_all_with_lease [OF held assms(6,9,11)] assms(12) by metis
  have get: "get_certificate (ce_from_raw_ders env) (ce_orders env) (controller_server now cluster node) (ce_idle env)
      cluster ?d1 = (Inr cert, d')"
    using d'(1) assms(7,8,10) by (simp add: get_certificate_def)
  define s1 where "s1 = s\<lparr> cl_account := True, cl_watcher := send_cert (Some cert) (cl_watcher s) \<rparr>"
  define s' where "s' = (if cl_path s then s1\<lparr> cl_saved := Some cert \<rparr> else s1)"
  have "refresh_loop_step env (controller_server now cluster node) cluster s d
      = request_lease env (controller_server now cluster node) cluster s d"
    using assms(3) by (auto simp: refresh_loop_step_def split: option.splits)
  also have "\<dots> = ((True, 0), s', d')"
    using lease get assms(4,13) by (simp add: request_lease_def obtain_certificate_def Let_def s'_def s1_def)
  finally have step: "refresh_loop_step env (controller_server now cluster node) cluster s d = ((True, 0), s', d')" .
  have w: "cl_watcher s' = send_cert (Some cert) (cl_watcher s)" by (simp add: s'_def s1_def)
  have "fst (resolve (cl_watcher s')) = Some (cp_certified_key cert)"
    using resolve_latest [OF watcher_ok_ops(2) [OF assms(2)], of "Some cert"] w by (simp add: send_cert_def)
  moreover have "cw_value (cl_watcher s') = Some cert" by (simp add: w send_cert_def)
  moreover have "cl_saved s' = (if cl_path s then Some cert else cl_saved s)" by (simp add: s'_def s1_def)
  ultimately show ?thesis using step d'(2) by blast
qed

theorem certificate_obtained_witness:
  "\<exists>env. cl_saved (fst (snd (refresh_loop_step env (controller_server 0 ''c'' 2) ''c'' example_loop example_db)))
     = Some example_cert"
proof -
  let ?ops = "[(secs 5, ''c'', 1, CertLeaseRequest), (secs 6, ''c'', 1, SetTxtRecord ''x'')]"
  let ?env = "\<lparr> ce_now = 0, ce_build_account = True, ce_orders = (\<lambda>_. Some example_order),
    ce_from_raw_ders = (\<lambda>_. Some example_cert), ce_save = True, ce_idle = cert_requests ?ops \<rparr>"
  have 1: "acme_ok example_db" by (simp add: acme_ok_def example_defs)
  have 2: "watcher_ok (cl_watcher example_loop)" by (simp add: example_loop_def watcher_ok_ops)
  have 3: "pred_option (\<lambda>cert. time_until_renew (ce_now ?env) cert \<le> 0) (cw_value (cl_watcher example_loop))"
    by (simp add: example_loop_def new_watcher_def)
  have 4: "snd (handle_cert_request 0 ''c'' 2 CertLeaseRequest example_db) = [ToCertManager (CertLeaseResponse True)]"
    by (simp add: lease_cluster_dns_def exists_row_def example_defs)
  have 5: "cluster_name (\<lambda>_. True) (Some ''z'') ''c.z'' = Some ''c''"
    using cluster_name_zone(1) [of "\<lambda>_. True" "''c''" "''z''"] by (simp add: cluster_from_str_def)
  have 6: "list_all (honest (\<lambda>_. True) (Some ''z'') ''c.z'') [example_auth ''t1'', example_auth ''t2'']"
    by (simp add: honest_def example_auth_def)
  have 7: "finish_order (ce_from_raw_ders ?env) example_order = Inr example_cert"
    by (simp add: finish_order_def example_order_def)
  have 8: "others_only 0 ''c'' 2 ?ops" by (simp add: others_only_def ACME_LEASE_def secs_def)
  have "\<exists>s' d' v. refresh_loop_step ?env (controller_server 0 ''c'' 2) ''c'' example_loop example_db = ((True, 0), s', d')
    \<and> cw_value (cl_watcher s') = Some example_cert \<and> fst (resolve (cl_watcher s')) = Some (cp_certified_key example_cert)
    \<and> cl_saved s' = (if cl_path example_loop then Some example_cert else cl_saved example_loop)
    \<and> holds_lease 0 ''c'' 2 v d'"
    by (rule certificate_obtained [OF 1 2 3 _ 4 5 _ _ 6 7 8])
      (simp_all add: example_order_def)
  then show ?thesis by (intro exI [of _ ?env]) (auto simp: example_loop_def)
qed

text \<open>
  Whatever the other side answers, a step of the refresh loop sends nothing while the certificate
  is not due for renewal, asks for the lease before anything else, publishes values only after the
  lease was granted, never releases the lease and never takes back a certificate.
\<close>

theorem refresh_step_protocol:
  assumes "\<And>w. fst (ce_idle env w) = fst w"
  shows "let (_, s', log, _) = refresh_loop_step env (logged server) cluster s ([], w)
    in (log = [] \<or> (\<exists>r rest. log = (CertLeaseRequest, r) # rest \<and> only_txt rest
          \<and> (rest = [] \<or> r = Some (CertLeaseResponse True))))
     \<and> (\<forall>cert. cw_value (cl_watcher s) = Some cert \<longrightarrow>
          cw_value (cl_watcher s') \<noteq> None \<and> (time_until_renew (ce_now env) cert > 0 \<longrightarrow> log = [] \<and> s' = s))"
proof -
  obtain r s' log w' where step: "refresh_loop_step env (logged server) cluster s ([], w) = (r, s', log, w')"
    by (cases "refresh_loop_step env (logged server) cluster s ([], w)")
  obtain r' w1 where srv: "server CertLeaseRequest w = (r', w1)" by (cases "server CertLeaseRequest w")
  obtain res log2 w2 where get: "get_certificate (ce_from_raw_ders env) (ce_orders env) (logged server) (ce_idle env)
      cluster ([(CertLeaseRequest, r')], w1) = (res, log2, w2)"
    by (cases "get_certificate (ce_from_raw_ders env) (ce_orders env) (logged server) (ce_idle env)
      cluster ([(CertLeaseRequest, r')], w1)")
  obtain rest where rest: "log2 = (CertLeaseRequest, r') # rest" "only_txt rest"
    using get_certificate_log [OF assms, of "ce_from_raw_ders env" "ce_orders env" server cluster
        "([(CertLeaseRequest, r')], w1)"] get by auto
  have nil: "only_txt []" by (simp add: only_txt_def)
  have 1: "log = [] \<or> (\<exists>r rest. log = (CertLeaseRequest, r) # rest \<and> only_txt rest
          \<and> (rest = [] \<or> r = Some (CertLeaseResponse True)))"
    using step srv get rest nil
    by (auto simp: refresh_loop_step_def request_lease_def obtain_certificate_def logged_def Let_def
        split: option.splits if_splits CertManagerResponse.splits sum.splits)
  have 2: "cw_value (cl_watcher s') \<noteq> None \<and> (time_until_renew (ce_now env) cert > 0 \<longrightarrow> log = [] \<and> s' = s)"
    if "cw_value (cl_watcher s) = Some cert" for cert
    using step srv get that
    by (auto simp: refresh_loop_step_def request_lease_def obtain_certificate_def logged_def Let_def send_cert_def
        split: option.splits if_splits CertManagerResponse.splits sum.splits)
  show ?thesis using 1 2 by (simp add: step)
qed

theorem refresh_step_protocol_witness:
  "cw_value (cl_watcher (fst (snd (refresh_loop_step
     \<lparr> ce_now = 0, ce_build_account = True, ce_orders = (\<lambda>_. None), ce_from_raw_ders = (\<lambda>_. None), ce_save = True,
       ce_idle = (\<lambda>w. w) \<rparr> (logged (\<lambda>r w. (Some (CertLeaseResponse True), w))) ''c''
     (example_loop\<lparr> cl_watcher := send_cert (Some example_cert) new_watcher \<rparr>) ([], ()))))) \<noteq> None"
  using refresh_step_protocol [of "\<lparr> ce_now = 0, ce_build_account = True, ce_orders = (\<lambda>_. None),
      ce_from_raw_ders = (\<lambda>_. None), ce_save = True, ce_idle = (\<lambda>w. w) \<rparr>" "\<lambda>r w. (Some (CertLeaseResponse True), w)"
      "''c''" "example_loop\<lparr> cl_watcher := send_cert (Some example_cert) new_watcher \<rparr>" "()"]
  by (simp add: Let_def case_prod_beta) (simp add: send_cert_def)

end
