(* ===== verification/Proxy_Connection.thy ===== *)
theory Proxy_Connection
  imports Controller_Proxy Route_Map Connection_Monitor Cert_Manager
begin

text \<open>
  The connection of a proxy to a controller, from \<open>plane/src/proxy/proxy_connection.rs\<close>: the loop that
  distributes the messages of the controller to the route map, the monitor of connections and the
  manager of certificates. \<open>None\<close> stands for a panic of the loop.
\<close>

section \<open>Definitions\<close>

record 'c proxy_state =
  px_ready :: bool
  px_routes :: "'c route_map"
  px_monitor :: ConnectionMonitor
  px_certs :: CertManager

definition proxy_connecting :: "'c proxy_state \<Rightarrow> 'c proxy_state" where
  "proxy_connecting s = s\<lparr> px_ready := False \<rparr>"

definition proxy_connected :: "'c proxy_state \<Rightarrow> 'c proxy_state" where
  "proxy_connected s = s\<lparr> px_ready := True, px_certs := set_request_sender (px_certs s),
     px_routes := set_sender (px_routes s), px_monitor := set_listener (px_monitor s) \<rparr>"

fun proxy_message :: "'c lru_ops \<Rightarrow> MessageToProxy \<Rightarrow> 'c proxy_state \<Rightarrow> 'c proxy_state option" where
  "proxy_message ops (RouteInfoResponse token route_info) s =
     Some (s\<lparr> px_routes := snd (receive_route ops token route_info (px_routes s)) \<rparr>)"
| "proxy_message ops (ToCertManager response) s =
     map_option (\<lambda>c. s\<lparr> px_certs := c \<rparr>) (receive_response response (px_certs s))"
| "proxy_message ops (BackendRemoved backend) s =
     Some (s\<lparr> px_routes := remove_backend_routes ops backend (px_routes s),
              px_monitor := remove_backend backend (px_monitor s) \<rparr>)"

fun proxy_messages :: "'c lru_ops \<Rightarrow> MessageToProxy list \<Rightarrow> 'c proxy_state \<Rightarrow> 'c proxy_state option" where
  "proxy_messages ops [] s = Some s"
| "proxy_messages ops (m # ms) s = Option.bind (proxy_message ops m s) (proxy_messages ops ms)"

section \<open>Lemmas\<close>

text \<open>What the messages mean for the route map.\<close>

fun route_events :: "MessageToProxy \<Rightarrow> route_event list" where
  "route_events (RouteInfoResponse token route_info) = [Response token route_info]"
| "route_events (ToCertManager response) = []"
| "route_events (BackendRemoved backend) = [Removed backend]"

lemma proxy_messages_routes:
  assumes "proxy_messages ops ms s = Some s'"
  shows "px_routes s' = fold (route_step ops) (concat (map route_events ms)) (px_routes s)"
  using assms
proof (induction ms arbitrary: s)
  case (Cons m ms)
  then obtain s1 where s1: "proxy_message ops m s = Some s1" "proxy_messages ops ms s1 = Some s'"
    by (auto split: bind_splits)
  have "px_routes s1 = fold (route_step ops) (route_events m) (px_routes s)"
    using s1(1) by (cases m) auto
  then show ?case using Cons.IH s1 by simp
qed simp

lemma proxy_messages_certs:
  assumes "proxy_messages ops ms s = Some s'"
  shows "cm_refresh_loop (px_certs s') = cm_refresh_loop (px_certs s)"
  using assms
proof (induction ms arbitrary: s)
  case (Cons m ms)
  then obtain s1 where s1: "proxy_message ops m s = Some s1" "proxy_messages ops ms s1 = Some s'"
    by (auto split: bind_splits)
  have "cm_refresh_loop (px_certs s1) = cm_refresh_loop (px_certs s)"
    using s1(1) by (cases m) (auto simp: receive_response_def split: if_splits)
  then show ?case using Cons.IH s1 by simp
qed simp

lemma proxy_messages_total:
  assumes "cm_refresh_loop (px_certs s) \<or> (\<forall>r. ToCertManager r \<notin> set ms)"
  shows "proxy_messages ops ms s \<noteq> None"
  using assms
proof (induction ms arbitrary: s)
  case (Cons m ms)
  obtain s1 where s1: "proxy_message ops m s = Some s1"
    using Cons.prems by (cases m) (auto simp: receive_response_def)
  have "cm_refresh_loop (px_certs s1) = cm_refresh_loop (px_certs s)"
    using proxy_messages_certs [of ops "[m]" s s1] s1 by simp
  then have "proxy_messages ops ms s1 \<noteq> None" using Cons by auto
  then show ?case using s1 by simp
qed simp

lemma monitor_without_backend:
  assumes "mo_backends (px_monitor s) b = None" and "proxy_messages ops ms s = Some s'"
  shows "mo_backends (px_monitor s') b = None"
  using assms
proof (induction ms arbitrary: s)
  case (Cons m ms)
  then obtain s1 where s1: "proxy_message ops m s = Some s1" "proxy_messages ops ms s1 = Some s'"
    by (auto split: bind_splits)
  have "mo_backends (px_monitor s1) b = None"
    using s1(1) Cons.prems(1) by (cases m) (auto simp: remove_backend_def)
  then show ?case using Cons.IH s1 by simp
qed simp

lemma proxy_messages_append:
  "proxy_messages ops (ms @ ms') s = Option.bind (proxy_messages ops ms s) (proxy_messages ops ms')"
proof (induction ms arbitrary: s)
  case (Cons m ms)
  then show ?case by (cases "proxy_message ops m s") simp_all
qed simp

section \<open>Properties\<close>



end
