(* ===== verification/Docker.thy ===== *)
theory Docker
  imports Backend_Manager Db_Nodes
begin

text \<open>
  The container runtime of a drone, from \<open>plane/src/drone/runtime/docker/\<close> (\<open>commands.rs\<close>, \<open>mod.rs\<close>,
  \<open>metrics.rs\<close>, \<open>wait_backend.rs\<close>) and the executor configuration of \<open>common/src/types/mod.rs\<close>. The
  Docker daemon is external: its responses are the fields of \<open>docker_api\<close>, and the operations return
  the calls they made together with their results. Hash maps are association lists in the order of
  their iteration.
\<close>

section \<open>Definitions\<close>

subsection \<open>Numbers\<close>

text \<open>Decimal notation, as \<open>to_string\<close> prints it.\<close>

definition digit :: "nat \<Rightarrow> char" where
  "digit d = char_of (of_char (CHR ''0'') + d)"

fun show_nat :: "nat \<Rightarrow> string" where
  "show_nat n = (if n < 10 then [] else show_nat (n div 10)) @ [digit (n mod 10)]"

definition show_int :: "int \<Rightarrow> string" where
  "show_int i = (if i < 0 then CHR ''-'' # show_nat (nat (- i)) else show_nat (nat i))"

text \<open>\<open>str::parse::<i32>\<close>.\<close>

definition parse_i32 :: "string \<Rightarrow> int option" where
  "parse_i32 s =
     (let (neg, d) = (case s of c # cs \<Rightarrow> if c = CHR ''-'' then (True, cs) else if c = CHR ''+'' then (False, cs) else (False, s)
                      | [] \<Rightarrow> (False, s))
      in if d = [] then None
         else Option.bind (decimal d 0) (\<lambda>n.
           let i = (if neg then - int n else int n) in if - (2 ^ 31) \<le> i \<and> i < 2 ^ 31 then Some i else None))"

subsection \<open>Executor configuration\<close>

record ResourceLimits =
  rl_cpu_period :: "64 word option"
  rl_cpu_period_percent :: "8 word option"
  rl_cpu_time_limit :: "64 word option"
  rl_memory_limit_bytes :: "64 word option"
  rl_disk_limit_bytes :: "64 word option"

text \<open>Periods are durations in microseconds; the multiplication with a float is a parameter.\<close>

definition cpu_quota :: "(nat \<Rightarrow> nat \<Rightarrow> nat) \<Rightarrow> ResourceLimits \<Rightarrow> nat option" where
  "cpu_quota mul_percent r = map_option (\<lambda>pc.
     mul_percent (case rl_cpu_period r of Some p \<Rightarrow> unat p | None \<Rightarrow> 100000) (unat pc)) (rl_cpu_period_percent r)"

record DockerExecutorConfig =
  dc_image :: string
  dc_pull_policy :: "PullPolicy option"
  dc_credentials :: "(string \<times> string) option"
  dc_env :: "(string \<times> string) list"
  dc_resource_limits :: ResourceLimits
  dc_mount :: "Mount option"
  dc_network_name :: "string option"

definition from_image_with_defaults :: "string \<Rightarrow> DockerExecutorConfig" where
  "from_image_with_defaults img =
     \<lparr> dc_image = img, dc_pull_policy = None, dc_credentials = None, dc_env = [],
       dc_resource_limits = \<lparr> rl_cpu_period = None, rl_cpu_period_percent = None, rl_cpu_time_limit = None,
         rl_memory_limit_bytes = None, rl_disk_limit_bytes = None \<rparr>,
       dc_mount = None, dc_network_name = None \<rparr>"

subsection \<open>Paths\<close>

datatype path_component = RootDir | CurDir | ParentDir | Normal string

definition path_part :: "string \<Rightarrow> path_component list" where
  "path_part p = (if p = [] \<or> p = ''.'' then [] else if p = ''..'' then [ParentDir] else [Normal p])"

text \<open>\<open>Path::components\<close> on Unix: a leading slash is the root, repeated slashes and dots are skipped but
  for a dot at the start.\<close>

definition components :: "string \<Rightarrow> path_component list" where
  "components path = (let parts = split_char CHR ''/'' path
     in (if starts_with path ''/'' then [RootDir] else if hd parts = ''.'' then [CurDir] else [])
        @ concat (map path_part parts))"

definition path_join :: "string \<Rightarrow> string \<Rightarrow> string" where
  "path_join base path = (if starts_with path ''/'' then path
     else base @ (if base \<noteq> [] \<and> last base \<noteq> CHR ''/'' then ''/'' else []) @ path)"

definition validate_mount_path :: "string \<Rightarrow> bool" where
  "validate_mount_path path = list_all (\<lambda>c. case c of Normal _ \<Rightarrow> True | _ \<Rightarrow> False) (components path)"

subsection \<open>Containers\<close>

definition CONTAINER_PORT :: nat where "CONTAINER_PORT = 8080"
definition PLANE_DATA_DIR :: string where "PLANE_DATA_DIR = ''/plane-data''"
definition PLANE_DOCKER_LABEL :: string where "PLANE_DOCKER_LABEL = ''dev.plane.backend''"

definition port_key :: string where
  "port_key = show_nat CONTAINER_PORT @ ''/tcp''"

definition create_labels :: "(string \<times> string) list" where
  "create_labels = [(PLANE_DOCKER_LABEL, ''true'')]"

definition create_port_bindings :: "(string \<times> (string option \<times> string option) list) list" where
  "create_port_bindings = [(port_key, [(None, None)])]"

record container_config =
  cc_image :: string
  cc_labels :: "(string \<times> string) list"
  cc_env :: "string list"
  cc_exposed_ports :: "string list"
  cc_port_bindings :: "(string \<times> (string option \<times> string option) list) list"
  cc_runtime :: "string option"
  cc_memory :: "64 word option"
  cc_log_config :: "string option"
  cc_network_mode :: "string option"
  cc_cpu_period :: "64 word option"
  cc_cpu_quota :: "64 word option"
  cc_ulimits :: "(string \<times> 64 word \<times> 64 word) list option"
  cc_storage_opt :: "(string \<times> string) list option"
  cc_binds :: "string list option"

definition env_insert :: "string \<Rightarrow> string \<Rightarrow> (string \<times> string) list \<Rightarrow> (string \<times> string) list" where
  "env_insert k v env = (if k \<in> fst ` set env then map (\<lambda>(k', v'). (k', if k' = k then v else v')) env
     else env @ [(k, v)])"

definition container_env ::
  "BackendName option \<Rightarrow> AcquiredKey option \<Rightarrow> BearerToken option \<Rightarrow> (string \<times> string) list \<Rightarrow> (string \<times> string) list" where
  "container_env backend_id key static_token env =
     (let e1 = env_insert ''PORT'' (show_nat CONTAINER_PORT) env;
          e2 = (case backend_id of Some b \<Rightarrow> env_insert ''SESSION_BACKEND_ID'' b e1 | None \<Rightarrow> e1);
          e3 = (case key of
                  Some k \<Rightarrow> env_insert ''SESSION_BACKEND_KEY'' (kc_name (ak_key k))
                    (env_insert ''SESSION_BACKEND_FENCING_TOKEN'' (show_int (ak_token k)) e2)
                | None \<Rightarrow> e2)
      in case static_token of Some t \<Rightarrow> env_insert ''SESSION_BACKEND_STATIC_TOKEN'' t e3 | None \<Rightarrow> e3)"

definition mount_binds ::
  "string option \<Rightarrow> Mount option \<Rightarrow> AcquiredKey option \<Rightarrow> string + string list option" where
  "mount_binds mount_base mount key = (case (mount_base, mount) of
     (_, None) \<Rightarrow> Inr None
   | (_, Some (MountBool False)) \<Rightarrow> Inr None
   | (Some base, Some (MountBool True)) \<Rightarrow>
       (case key of
          Some k \<Rightarrow> Inr (Some [path_join base (kc_name (ak_key k)) @ '':'' @ PLANE_DATA_DIR])
        | None \<Rightarrow> Inl ''Key is required for Bool(true) mount option'')
   | (Some base, Some (MountPath path)) \<Rightarrow>
       if validate_mount_path path then Inr (Some [path_join base path @ '':'' @ PLANE_DATA_DIR])
       else Inl ''Spawn request contains invalid mount path''
   | (None, Some _) \<Rightarrow> Inr None)"

definition cpu_ulimits :: "64 word \<Rightarrow> (string \<times> 64 word \<times> 64 word) list" where
  "cpu_ulimits n = (if unat n < 2 ^ 63 then [(''cpu'', n, n)] else [])"

definition get_container_config ::
  "(nat \<Rightarrow> nat \<Rightarrow> nat) \<Rightarrow> BackendName option \<Rightarrow> DockerExecutorConfig \<Rightarrow> string option \<Rightarrow> AcquiredKey option
   \<Rightarrow> BearerToken option \<Rightarrow> string option \<Rightarrow> string option \<Rightarrow> string + container_config" where
  "get_container_config mul_percent backend_id exec_config runtime key static_token log_config mount_base =
     bind_result (mount_binds mount_base (dc_mount exec_config) key) (\<lambda>binds.
       let limits = dc_resource_limits exec_config
       in Inr \<lparr> cc_image = dc_image exec_config,
            cc_labels = create_labels,
            cc_env = map (\<lambda>(k, v). k @ ''='' @ v) (container_env backend_id key static_token (dc_env exec_config)),
            cc_exposed_ports = [port_key],
            cc_port_bindings = create_port_bindings,
            cc_runtime = runtime,
            cc_memory = rl_memory_limit_bytes limits,
            cc_log_config = log_config,
            cc_network_mode = dc_network_name exec_config,
            cc_cpu_period = rl_cpu_period limits,
            cc_cpu_quota = map_option (\<lambda>q. word_of_nat q) (cpu_quota mul_percent limits),
            cc_ulimits = map_option cpu_ulimits (rl_cpu_time_limit limits),
            cc_storage_opt = map_option (\<lambda>lim. [(''size'', show_int (sint lim))]) (rl_disk_limit_bytes limits),
            cc_binds = binds \<rparr>)"

subsection \<open>The daemon\<close>

datatype docker_error = ServerError nat | OtherError string

record container_info =
  ci_running :: "bool option"
  ci_ports :: "(string \<times> (string option) list option) list option"

datatype docker_call =
    InspectImage string
  | CreateImage string
  | CreateContainer string container_config
  | StartContainer string
  | InspectContainer string
  | KillContainer string
  | StopContainer string int
  | PruneContainers "(string \<times> string list) list"
  | PruneImages "(string \<times> string list) list"

text \<open>The results of the daemon; inspecting a container may change its answer from attempt to attempt.\<close>

record docker_api =
  da_inspect_image :: "string \<Rightarrow> docker_error + unit"
  da_create_image :: "string \<Rightarrow> (docker_error + unit) list"
  da_create_container :: "string \<Rightarrow> container_config \<Rightarrow> docker_error + unit"
  da_start_container :: "string \<Rightarrow> docker_error + unit"
  da_inspect_container :: "nat \<Rightarrow> string \<Rightarrow> docker_error + container_info"
  da_kill_container :: "string \<Rightarrow> docker_error + unit"
  da_stop_container :: "string \<Rightarrow> docker_error + unit"

definition image_exists :: "docker_api \<Rightarrow> string \<Rightarrow> docker_error + bool" where
  "image_exists api img = (case da_inspect_image api img of
     Inr _ \<Rightarrow> Inr True | Inl (ServerError c) \<Rightarrow> if c = 404 then Inr False else Inl (ServerError c) | Inl e \<Rightarrow> Inl e)"

fun consume :: "(docker_error + unit) list \<Rightarrow> docker_error + unit" where
  "consume [] = Inr ()"
| "consume (Inr _ # rest) = consume rest"
| "consume (Inl e # rest) = Inl e"

definition pull_image :: "docker_api \<Rightarrow> string \<Rightarrow> bool \<Rightarrow> (docker_error + unit) \<times> docker_call list" where
  "pull_image api img force =
     (if force then (consume (da_create_image api img), [CreateImage img])
      else case image_exists api img of
             Inl e \<Rightarrow> (Inl e, [InspectImage img])
           | Inr True \<Rightarrow> (Inr (), [InspectImage img])
           | Inr False \<Rightarrow> (consume (da_create_image api img), [InspectImage img, CreateImage img]))"

definition docker_prepare :: "docker_api \<Rightarrow> DockerExecutorConfig \<Rightarrow> (docker_error + unit) \<times> docker_call list" where
  "docker_prepare api config = (case dc_pull_policy config of
     None \<Rightarrow> pull_image api (dc_image config) False
   | Some IfNotPresent \<Rightarrow> pull_image api (dc_image config) False
   | Some Always \<Rightarrow> pull_image api (dc_image config) True
   | Some Never \<Rightarrow> (Inr (), []))"

definition try_get_port :: "docker_api \<Rightarrow> nat \<Rightarrow> string \<Rightarrow> 16 word option" where
  "try_get_port api n container_id = (case da_inspect_container api n container_id of
     Inl _ \<Rightarrow> None
   | Inr info \<Rightarrow>
       Option.bind (ci_ports info) (\<lambda>ports.
       Option.bind (map_of ports port_key) (\<lambda>bindings.
       Option.bind bindings (\<lambda>bs.
       Option.bind (case bs of [] \<Rightarrow> None | b # _ \<Rightarrow> b) (\<lambda>port.
       map_option word_of_nat (parse_u16 port))))))"

fun get_port_loop :: "docker_api \<Rightarrow> nat \<Rightarrow> nat \<Rightarrow> string \<Rightarrow> 16 word option" where
  "get_port_loop api n 0 container_id = None"
| "get_port_loop api n (Suc k) container_id = (case try_get_port api n container_id of
     Some port \<Rightarrow> Some port | None \<Rightarrow> get_port_loop api (Suc n) k container_id)"

definition get_port :: "docker_api \<Rightarrow> string \<Rightarrow> 16 word option" where
  "get_port api container_id = get_port_loop api 0 3 container_id"

record DockerRuntimeConfig =
  rc_runtime :: "string option"
  rc_log_config :: "string option"
  rc_mount_base :: "string option"
  rc_auto_prune :: "bool option"
  rc_cleanup_min_age :: "int option"

definition run_container ::
  "(nat \<Rightarrow> nat \<Rightarrow> nat) \<Rightarrow> docker_api \<Rightarrow> DockerRuntimeConfig \<Rightarrow> BackendName \<Rightarrow> DockerExecutorConfig
   \<Rightarrow> AcquiredKey option \<Rightarrow> BearerToken option \<Rightarrow> string option \<times> docker_call list" where
  "run_container mul_percent api rc backend_id exec_config key static_token =
     (let container_id = to_container_id backend_id
      in case get_container_config mul_percent (Some backend_id) exec_config (rc_runtime rc) key static_token
                (rc_log_config rc) (rc_mount_base rc) of
           Inl _ \<Rightarrow> (None, [])
         | Inr config \<Rightarrow>
             (case da_create_container api container_id config of
                Inl _ \<Rightarrow> (None, [CreateContainer container_id config])
              | Inr _ \<Rightarrow>
                  (case da_start_container api container_id of
                     Inl _ \<Rightarrow> (None, [CreateContainer container_id config, StartContainer container_id])
                   | Inr _ \<Rightarrow> (Some container_id, [CreateContainer container_id config, StartContainer container_id]))))"

definition docker_spawn ::
  "(nat \<Rightarrow> nat \<Rightarrow> nat) \<Rightarrow> docker_api \<Rightarrow> DockerRuntimeConfig \<Rightarrow> BackendName \<Rightarrow> DockerExecutorConfig
   \<Rightarrow> AcquiredKey option \<Rightarrow> BearerToken option \<Rightarrow> (string \<times> 16 word) option \<times> docker_call list" where
  "docker_spawn mul_percent api rc backend_id executable key static_token =
     (case run_container mul_percent api rc backend_id executable key static_token of
        (None, calls) \<Rightarrow> (None, calls)
      | (Some container_id, calls) \<Rightarrow> (map_option (\<lambda>port. (container_id, port)) (get_port api container_id), calls))"

definition docker_terminate :: "docker_api \<Rightarrow> BackendName \<Rightarrow> bool \<Rightarrow> (docker_error + bool) \<times> docker_call list" where
  "docker_terminate api backend_id hard =
     (let container_id = to_container_id backend_id;
          stop = (let (r, call) = (if hard then (da_kill_container api container_id, KillContainer container_id)
                        else (da_stop_container api container_id,
                              StopContainer container_id KILL_AFTER_SOFT_TERMINATE_SECONDS))
                  in (case r of
                        Inl (ServerError c) \<Rightarrow> if c = 409 then Inr False else Inl (ServerError c)
                      | Inl e \<Rightarrow> Inl e
                      | Inr _ \<Rightarrow> Inr True, [InspectContainer container_id, call]))
      in case da_inspect_container api 0 container_id of
           Inr details \<Rightarrow>
             if ci_running details = Some True then stop else (Inr False, [InspectContainer container_id])
         | Inl (ServerError c) \<Rightarrow>
             (if c = 404 then Inr False else Inl (ServerError c), [InspectContainer container_id])
         | Inl e \<Rightarrow> (Inl e, [InspectContainer container_id]))"

subsection \<open>Events\<close>

record docker_event =
  de_action :: "string option"
  de_attributes :: "(string \<times> string) list option"

datatype runtime_event = StartMetrics BackendName | TerminateEvent BackendName "int option"

definition docker_event_of :: "docker_event \<Rightarrow> runtime_event option" where
  "docker_event_of e = Option.bind (de_attributes e) (\<lambda>attributes.
     if map_of attributes PLANE_DOCKER_LABEL = None then None
     else Option.bind (map_of attributes ''name'') (\<lambda>container_id.
       case from_container_id container_id of
         Inl _ \<Rightarrow> None
       | Inr backend_id \<Rightarrow>
           if de_action e = Some ''start'' then Some (StartMetrics backend_id)
           else Some (TerminateEvent backend_id (Option.bind (map_of attributes ''exitCode'') parse_i32))))"

definition prune :: "int \<Rightarrow> bool \<Rightarrow> docker_call list" where
  "prune until prune_images =
     [PruneContainers [(''until'', [show_int until]), (''label'', [PLANE_DOCKER_LABEL])]]
     @ (if prune_images then [PruneImages [(''until'', [show_int until]), (''dangling'', [''false''])]] else [])"

text \<open>One turn of the cleanup loop, with the defaults of the configuration.\<close>

definition docker_cleanup :: "DockerRuntimeConfig \<Rightarrow> time \<Rightarrow> docker_call list" where
  "docker_cleanup rc now =
     prune ((now - secs (case rc_cleanup_min_age rc of Some a \<Rightarrow> a | None \<Rightarrow> 0)) div 1000000)
       (rc_auto_prune rc = Some True)"

subsection \<open>Metrics\<close>

record memory_stats_v1 =
  v1_total_active_anon :: "64 word"
  v1_total_active_file :: "64 word"
  v1_total_rss :: "64 word"
  v1_total_cache :: "64 word"
  v1_total_unevictable :: "64 word"
  v1_total_inactive_anon :: "64 word"
  v1_total_inactive_file :: "64 word"

record memory_stats_v2 =
  v2_active_anon :: "64 word"
  v2_active_file :: "64 word"
  v2_kernel_stack :: "64 word"
  v2_sock :: "64 word"
  v2_slab :: "64 word"
  v2_file :: "64 word"
  v2_anon :: "64 word"
  v2_unevictable :: "64 word"
  v2_inactive_anon :: "64 word"
  v2_inactive_file :: "64 word"

datatype MemoryStatsStats = V1 memory_stats_v1 | V2 memory_stats_v2

record docker_stats =
  ds_mem_stats :: "MemoryStatsStats option"
  ds_mem_usage :: "64 word option"
  ds_mem_limit :: "64 word option"
  ds_system_cpu_usage :: "64 word option"
  ds_pre_system_cpu_usage :: "64 word option"
  ds_total_usage :: "64 word"
  ds_pre_total_usage :: "64 word"

text \<open>Total, active, inactive, unevictable and used memory; the arithmetic wraps around as in a release
  build.\<close>

definition memory_numbers :: "64 word \<Rightarrow> MemoryStatsStats \<Rightarrow> 64 word \<times> 64 word \<times> 64 word \<times> 64 word \<times> 64 word" where
  "memory_numbers usage stats = (case stats of
     V1 v \<Rightarrow> (v1_total_rss v + v1_total_cache v, v1_total_active_anon v + v1_total_active_file v,
       v1_total_inactive_anon v + v1_total_inactive_file v, v1_total_unevictable v, usage - v1_total_inactive_file v)
   | V2 v \<Rightarrow> (v2_file v + v2_anon v + (v2_kernel_stack v + v2_sock v + v2_slab v), v2_active_anon v + v2_active_file v,
       v2_inactive_anon v + v2_inactive_file v, v2_unevictable v, usage - v2_inactive_file v))"

definition metrics_message_from_container_stats ::
  "docker_stats \<Rightarrow> BackendName \<Rightarrow> string + BackendMetricsMessage option" where
  "metrics_message_from_container_stats stats backend_id =
     bind_result (ok_or (ds_mem_stats stats) ''No memory stats found in stats.'') (\<lambda>mem_stats.
     bind_result (ok_or (ds_mem_usage stats) ''No memory usage found in stats.'') (\<lambda>usage.
     bind_result (ok_or (ds_mem_limit stats) ''No memory limit found in stats.'') (\<lambda>mem_limit.
       case (ds_system_cpu_usage stats, ds_pre_system_cpu_usage stats) of
         (Some sys, Some pre_sys) \<Rightarrow>
           if ds_total_usage stats < ds_pre_total_usage stats
           then Inl ''Container cpu usage is less than previous total cpu usage.''
           else if sys < pre_sys
           then Inl ''Total system cpu usage is less than previous total system cpu usage.''
           else (let (total, active, inactive, unevictable, used) = memory_numbers usage mem_stats
                 in Inr (Some \<lparr> mm_backend_id = backend_id, mm_mem_used = used, mm_mem_total = total,
                      mm_mem_active = active, mm_mem_inactive = inactive, mm_mem_unevictable = unevictable,
                      mm_mem_limit = mem_limit, mm_cpu_used = ds_total_usage stats - ds_pre_total_usage stats,
                      mm_sys_cpu = sys - pre_sys \<rparr>))
       | _ \<Rightarrow> Inr None)))"

definition METRICS_INTERVAL :: time where "METRICS_INTERVAL = secs 10"

text \<open>The items of the stream with the time they arrive and, should the statistics be empty, what
  inspecting the container yields. The messages carry the time they are sent.\<close>

definition call_metrics :: "bool \<Rightarrow> BackendName \<Rightarrow> time \<Rightarrow> docker_stats \<Rightarrow> (time \<times> BackendMetricsMessage) list" where
  "call_metrics callback backend_id now stats =
     (if callback
      then (case metrics_message_from_container_stats stats backend_id of Inr (Some m) \<Rightarrow> [(now, m)] | _ \<Rightarrow> [])
      else [])"

fun metrics_loop ::
  "bool \<Rightarrow> BackendName \<Rightarrow> time \<Rightarrow> (time \<times> (docker_error + docker_stats) \<times> (docker_error + bool)) list
   \<Rightarrow> (time \<times> BackendMetricsMessage) list" where
  "metrics_loop callback backend_id last_processed [] = []"
| "metrics_loop callback backend_id last_processed ((now, stats, running) # rest) =
     (if now - last_processed < METRICS_INTERVAL then metrics_loop callback backend_id last_processed rest
      else case stats of
             Inl _ \<Rightarrow> []
           | Inr st \<Rightarrow>
               if ds_mem_stats st = None \<and> running \<noteq> Inr True then []
               else call_metrics callback backend_id now st @ metrics_loop callback backend_id now rest)"

subsection \<open>Readiness\<close>

definition STARTUP_TIMEOUT_SECS :: int where "STARTUP_TIMEOUT_SECS = 300"

datatype attempt = ConnectFailed | WriteFailed | ReadTimedOut | ReadFailed | Answered string

text \<open>The attempts with the time they start; \<open>None\<close> as long as the loop goes on.\<close>

fun wait_for_backend :: "time \<Rightarrow> (time \<times> attempt) list \<Rightarrow> (BackendError + unit) option" where
  "wait_for_backend start [] = None"
| "wait_for_backend start ((now, a) # rest) =
     (if now - start > secs STARTUP_TIMEOUT_SECS then Some (Inl BackendStartupTimeout)
      else if (case a of Answered s \<Rightarrow> take 5 s = ''HTTP/'' | _ \<Rightarrow> False) then Some (Inr ())
      else wait_for_backend start rest)"

section \<open>Paths\<close>

lemma split_char_join: "split_char c (a @ c # b) = split_char c a @ split_char c b"
proof (induction a)
  case (Cons x a)
  then show ?case by (cases "split_char c a") auto
qed simp

lemma components_slash:
  assumes "b \<noteq> []"
  shows "components (b @ CHR ''/'' # p) = components b @ concat (map path_part (split_char CHR ''/'' p))"
proof -
  have "hd (split_char CHR ''/'' b @ split_char CHR ''/'' p) = hd (split_char CHR ''/'' b)" by simp
  moreover have "starts_with (b @ CHR ''/'' # p) ''/'' = starts_with b ''/''"
    using assms by (cases b) (simp_all add: starts_with_def)
  ultimately show ?thesis by (simp add: components_def split_char_join Let_def)
qed

lemma validated_parts:
  assumes "validate_mount_path path"
  obtains ns where "concat (map path_part (split_char CHR ''/'' path)) = map Normal ns"
    and "components path = map Normal ns" and "\<not> starts_with path ''/''"
proof -
  have *: "\<exists>ns. cs = map Normal ns" if "list_all (\<lambda>c. case c of Normal _ \<Rightarrow> True | _ \<Rightarrow> False) cs" for cs
    using that
  proof (induction cs)
    case (Cons c cs)
    then obtain n ns where "c = Normal n" "cs = map Normal ns" by (cases c) auto
    then have "c # cs = map Normal (n # ns)" by simp
    then show ?case by (rule exI)
  qed simp
  obtain ns where ns: "components path = map Normal ns" using * assms by (auto simp: validate_mount_path_def)
  have "\<not> starts_with path ''/''" and "hd (split_char CHR ''/'' path) \<noteq> ''.''"
    using ns by (cases ns; auto simp: components_def Let_def split: if_splits)+
  then show ?thesis using that [of ns] ns by (simp add: components_def Let_def)
qed

lemma components_join:
  assumes "validate_mount_path path"
  shows "\<exists>ns. components (path_join base path) = components base @ map Normal ns"
proof -
  obtain ns where ns: "concat (map path_part (split_char CHR ''/'' path)) = map Normal ns"
    "components path = map Normal ns" "\<not> starts_with path ''/''" by (rule validated_parts [OF assms])
  consider "base = []" | (slash) b where "base = b @ ''/''" | "base \<noteq> []" "last base \<noteq> CHR ''/''"
    by (metis append_butlast_last_id)
  then show ?thesis
  proof cases
    case 1
    then show ?thesis using ns by (auto simp: path_join_def components_def starts_with_def path_part_def)
  next
    case slash
    have "components (b @ CHR ''/'' # path) = components (b @ ''/'') @ concat (map path_part (split_char CHR ''/'' path))"
    proof (cases "b = []")
      case True
      then show ?thesis by (simp add: components_def starts_with_def path_part_def)
    next
      case False
      then show ?thesis using components_slash [OF False, of path] components_slash [OF False, of "[]"]
        by (simp add: path_part_def)
    qed
    then show ?thesis using slash ns by (auto simp: path_join_def)
  next
    case 3
    then show ?thesis using ns components_slash [OF 3(1), of path] by (auto simp: path_join_def)
  qed
qed

section \<open>Environment\<close>

lemma env_insert_map: "map_of (env_insert k v env) = (map_of env)(k \<mapsto> v)"
proof
  fix x
  have "map_of (map (\<lambda>(k', v'). (k', if k' = k then v else v')) env) x
      = (if x = k then map_option (\<lambda>_. v) (map_of env x) else map_of env x)" for x
    by (induction env) auto
  moreover have "(map_of env k = None) = (k \<notin> fst ` set env)" by (rule map_of_eq_None_iff)
  ultimately show "map_of (env_insert k v env) x = ((map_of env)(k \<mapsto> v)) x"
    by (cases "map_of env k"; cases "map_of env x") (auto simp: env_insert_def map_add_def)
qed

lemma env_insert_keys:
  "fst ` set (env_insert k v env) = insert k (fst ` set env)"
  "distinct (map fst env) \<Longrightarrow> distinct (map fst (env_insert k v env))"
proof -
  have *: "map fst (map (\<lambda>(k', v'). (k', if k' = k then v else v')) env) = map fst env" by auto
  show "fst ` set (env_insert k v env) = insert k (fst ` set env)"
    using arg_cong [OF *, of set] by (auto simp: env_insert_def)
  show "distinct (map fst (env_insert k v env))" if "distinct (map fst env)"
  proof (cases "k \<in> fst ` set env")
    case True
    then show ?thesis using that * by (simp only: env_insert_def if_True)
  next
    case False
    then show ?thesis using that by (simp add: env_insert_def)
  qed
qed

text \<open>The variables that the platform sets.\<close>

definition platform_env :: "BackendName option \<Rightarrow> AcquiredKey option \<Rightarrow> BearerToken option \<Rightarrow> (string \<times> string) list" where
  "platform_env backend_id key static_token = [(''PORT'', ''8080'')]
     @ (case backend_id of Some b \<Rightarrow> [(''SESSION_BACKEND_ID'', b)] | None \<Rightarrow> [])
     @ (case key of Some k \<Rightarrow> [(''SESSION_BACKEND_FENCING_TOKEN'', show_int (ak_token k)),
          (''SESSION_BACKEND_KEY'', kc_name (ak_key k))] | None \<Rightarrow> [])
     @ (case static_token of Some t \<Rightarrow> [(''SESSION_BACKEND_STATIC_TOKEN'', t)] | None \<Rightarrow> [])"

lemma show_port: "show_nat CONTAINER_PORT = ''8080''"
  by (simp add: CONTAINER_PORT_def digit_def) code_simp

lemma container_env_fold:
  "container_env backend_id key static_token env =
     fold (\<lambda>(k, v). env_insert k v) (platform_env backend_id key static_token) env"
  by (simp add: container_env_def platform_env_def Let_def show_port del: show_nat.simps split: option.split)

lemma platform_env_keys:
  "distinct (map fst (platform_env backend_id key static_token))"
  "fst ` set (platform_env backend_id key static_token) \<subseteq> {''PORT'', ''SESSION_BACKEND_ID'',
     ''SESSION_BACKEND_KEY'', ''SESSION_BACKEND_FENCING_TOKEN'', ''SESSION_BACKEND_STATIC_TOKEN''}"
  by (auto simp: platform_env_def split: option.split)

lemma fold_env_insert_map:
  "map_of (fold (\<lambda>(k, v). env_insert k v) ps env) k =
     (if k \<in> fst ` set ps then map_of (rev ps) k else map_of env k)"
proof (induction ps arbitrary: env)
  case (Cons p ps)
  have "(map_of (rev ps) k = None) = (k \<notin> fst ` set ps)" using map_of_eq_None_iff [of "rev ps"] by simp
  then show ?case using Cons by (cases p) (auto simp: env_insert_map map_add_def split: option.splits)
qed simp

lemma fold_env_insert_keys:
  "fst ` set (fold (\<lambda>(k, v). env_insert k v) ps env) = fst ` set ps \<union> fst ` set env"
  "distinct (map fst env) \<Longrightarrow> distinct (map fst (fold (\<lambda>(k, v). env_insert k v) ps env))"
  by (induction ps arbitrary: env) (auto simp: env_insert_keys case_prod_beta)

lemma container_env_platform:
  assumes "(k, v) \<in> set (platform_env backend_id key static_token)"
  shows "map_of (container_env backend_id key static_token env) k = Some v"
proof -
  have "map_of (rev (platform_env backend_id key static_token)) k = Some v"
    using assms platform_env_keys(1) [of backend_id key static_token]
    by (intro map_of_is_SomeI) (simp_all add: rev_map [symmetric])
  then show ?thesis using assms by (force simp: container_env_fold fold_env_insert_map)
qed

lemma container_env_other:
  assumes "k \<notin> fst ` set (platform_env backend_id key static_token)"
  shows "map_of (container_env backend_id key static_token env) k = map_of env k"
  using assms by (simp add: container_env_fold fold_env_insert_map)

lemma container_env_keys:
  assumes "distinct (map fst env)" and "\<forall>k\<in>fst ` set env. CHR ''='' \<notin> set k"
  shows "distinct (map fst (container_env backend_id key static_token env))"
    and "\<forall>k\<in>fst ` set (container_env backend_id key static_token env). CHR ''='' \<notin> set k"
proof -
  show "distinct (map fst (container_env backend_id key static_token env))"
    unfolding container_env_fold by (rule fold_env_insert_keys(2) [OF assms(1)])
  have "\<forall>k\<in>fst ` set (platform_env backend_id key static_token). CHR ''='' \<notin> set k"
    using platform_env_keys(2) [of backend_id key static_token] by auto
  then show "\<forall>k\<in>fst ` set (container_env backend_id key static_token env). CHR ''='' \<notin> set k"
    unfolding container_env_fold fold_env_insert_keys(1) using assms(2) by blast
qed

lemma filter_distinct_key:
  "distinct (map fst env) \<Longrightarrow> map_of env k = Some v \<Longrightarrow> filter (\<lambda>e. fst e = k) env = [(k, v)]"
proof (induction env)
  case (Cons e env)
  show ?case
  proof (cases "fst e = k")
    case True
    then have "filter (\<lambda>e. fst e = k) env = []" using Cons.prems(1) by (auto simp: filter_empty_conv intro: rev_image_eqI)
    then show ?thesis using True Cons.prems(2) by (cases e) auto
  next
    case False
    then show ?thesis using Cons by (cases e) auto
  qed
qed simp

lemma prefix_key_iff:
  assumes "c \<notin> set k" and "c \<notin> set k'"
  shows "starts_with (k' @ c # v) (k @ [c]) \<longleftrightarrow> k' = k"
proof -
  have "k @ c # r = k' @ c # v \<Longrightarrow> k' = k" for r
    using assms split_char_append [of c k r] split_char_append [of c k' v] by (metis list.inject)
  then show ?thesis by (auto simp: starts_with_iff prefix_def)
qed

lemma env_strings:
  assumes "distinct (map fst env)" and "\<forall>k\<in>fst ` set env. CHR ''='' \<notin> set k" and "map_of env k = Some v"
  shows "filter (\<lambda>x. starts_with x (k @ ''='')) (map (\<lambda>(k, v). k @ ''='' @ v) env) = [k @ ''='' @ v]"
proof -
  have k: "CHR ''='' \<notin> set k" using assms(2,3) by (metis image_eqI map_of_SomeD fst_conv)
  have "filter (\<lambda>x. starts_with x (k @ ''='')) (map (\<lambda>(k, v). k @ ''='' @ v) env)
      = map (\<lambda>(k, v). k @ ''='' @ v) (filter (\<lambda>e. fst e = k) env)"
    unfolding filter_map using prefix_key_iff [OF k] assms(2)
    by (intro arg_cong [where f = "map _"] filter_cong) (auto simp: comp_def)
  then show ?thesis using filter_distinct_key [OF assms(1,3)] by simp
qed

section \<open>Metrics and readiness\<close>


lemma wait_for_backend_result:
  "wait_for_backend start xs = Some (Inr ()) \<Longrightarrow>
     \<exists>t s. (t, Answered s) \<in> set xs \<and> take 5 s = ''HTTP/'' \<and> t - start \<le> secs STARTUP_TIMEOUT_SECS"
  by (induction start xs rule: wait_for_backend.induct) (auto simp: not_less split: if_splits attempt.splits)

lemma wait_for_backend_ends:
  "t - start > secs STARTUP_TIMEOUT_SECS \<Longrightarrow> (t, a) \<in> set xs \<Longrightarrow> wait_for_backend start xs \<noteq> None"
  by (induction start xs rule: wait_for_backend.induct) auto

lemma wait_for_backend_answered:
  assumes "(t, Answered x) \<in> set xs" and "take 5 x = ''HTTP/''" and "\<forall>(t, a)\<in>set xs. t - start \<le> secs STARTUP_TIMEOUT_SECS"
  shows "wait_for_backend start xs = Some (Inr ())"
  using assms by (induction start xs rule: wait_for_backend.induct) auto

lemma wait_for_backend_error:
  "wait_for_backend start xs = Some (Inl e) \<Longrightarrow> e = BackendStartupTimeout
     \<and> (\<exists>t a. (t, a) \<in> set xs \<and> t - start > secs STARTUP_TIMEOUT_SECS)"
  by (induction start xs rule: wait_for_backend.induct) (auto split: if_splits)

definition answers :: "time \<Rightarrow> time \<times> attempt \<Rightarrow> bool" where
  "answers start x \<longleftrightarrow> (\<exists>r. snd x = Answered r \<and> take 5 r = ''HTTP/'') \<and> fst x - start \<le> secs STARTUP_TIMEOUT_SECS"

lemma wait_for_backend_eq:
  assumes "sorted (map fst xs)" and "x \<in> set xs" and "fst x - start > secs STARTUP_TIMEOUT_SECS"
  shows "wait_for_backend start xs = Some (if \<exists>y\<in>set xs. answers start y then Inr () else Inl BackendStartupTimeout)"
  using assms
proof (induction start xs rule: wait_for_backend.induct)
  case (2 start now a rest)
  show ?case
  proof (cases "now - start > secs STARTUP_TIMEOUT_SECS")
    case True
    then have "\<not> answers start y" if "y \<in> set ((now, a) # rest)" for y
      using that 2(2) by (fastforce simp: answers_def)
    then show ?thesis using True by auto
  next
    case False
    have ans: "answers start (now, a) \<longleftrightarrow> (case a of Answered r \<Rightarrow> take 5 r = ''HTTP/'' | _ \<Rightarrow> False)"
      using False by (cases a) (auto simp: answers_def)
    show ?thesis
    proof (cases "answers start (now, a)")
      case True
      then show ?thesis using False ans by auto
    next
      case no: False
      have "wait_for_backend start rest = Some (if \<exists>y\<in>set rest. answers start y then Inr () else Inl BackendStartupTimeout)"
        using False no ans 2 by auto
      then show ?thesis using False no ans by auto
    qed
  qed
qed simp

lemma call_metrics_cases:
  "call_metrics callback backend_id now stats = [] \<or> (\<exists>m. call_metrics callback backend_id now stats = [(now, m)])"
  by (simp add: call_metrics_def split: sum.split option.split)

lemma metrics_loop_after:
  "x \<in> set (metrics_loop callback backend_id last_processed xs) \<Longrightarrow> fst x - last_processed \<ge> METRICS_INTERVAL"
proof (induction callback backend_id last_processed xs arbitrary: x rule: metrics_loop.induct)
  case (2 callback backend_id last_processed now stats running rest)
  show ?case
  proof (cases "now - last_processed < METRICS_INTERVAL")
    case True
    then show ?thesis using 2 by simp
  next
    case False
    then obtain st where st: "stats = Inr st" using 2(3) by (cases stats) auto
    then have on: "\<not> (ds_mem_stats st = None \<and> running \<noteq> Inr True)" using 2(3) False by (auto split: if_splits)
    have "set (call_metrics callback backend_id now st) \<subseteq> {now} \<times> UNIV"
      using call_metrics_cases [of callback backend_id now st] by auto
    then have x: "fst x = now \<or> x \<in> set (metrics_loop callback backend_id now rest)"
      using 2(3) False st on by auto
    have "fst x \<ge> now" using x
    proof
      assume "x \<in> set (metrics_loop callback backend_id now rest)"
      from 2(2) [OF False st on this] show ?thesis by (simp add: METRICS_INTERVAL_def secs_def)
    qed simp
    then show ?thesis using False by simp
  qed
qed simp

lemma metrics_loop_spaced:
  "sorted_wrt (\<lambda>x y. fst y - fst x \<ge> METRICS_INTERVAL) (metrics_loop callback backend_id last_processed xs)"
proof (induction callback backend_id last_processed xs rule: metrics_loop.induct)
  case (2 callback backend_id last_processed now stats running rest)
  have "\<forall>y\<in>set (metrics_loop callback backend_id now rest). fst y - now \<ge> METRICS_INTERVAL"
    using metrics_loop_after by blast
  moreover have "sorted_wrt (\<lambda>x y. fst y - fst x \<ge> METRICS_INTERVAL)
      (call_metrics callback backend_id now st @ metrics_loop callback backend_id now rest)"
    if "\<not> now - last_processed < METRICS_INTERVAL" "stats = Inr st" "\<not> (ds_mem_stats st = None \<and> running \<noteq> Inr True)" for st
    using 2(2) [OF that] calculation call_metrics_cases [of callback backend_id now st] by auto
  ultimately show ?case using 2(1) by (auto split: sum.split)
qed simp

definition inactive_file :: "MemoryStatsStats \<Rightarrow> 64 word" where
  "inactive_file stats = (case stats of V1 v \<Rightarrow> v1_total_inactive_file v | V2 v \<Rightarrow> v2_inactive_file v)"

lemma uint_minus_wrap:
  fixes a b :: "64 word"
  shows "uint (a - b) = (if b \<le> a then uint a - uint b else 2 ^ 64 + uint a - uint b)"
proof -
  have mod: "uint (a - b) = (uint a - uint b) mod 2 ^ 64" by (simp add: uint_word_ariths)
  have lt: "uint a < 2 ^ 64" "uint b < 2 ^ 64" using uint_bounded [of a] uint_bounded [of b] by simp_all
  have ge: "0 \<le> uint a" "0 \<le> uint b" by simp_all
  show ?thesis
  proof (cases "b \<le> a")
    case True
    then have "0 \<le> uint a - uint b" by (simp add: word_le_def)
    then have "(uint a - uint b) mod 2 ^ 64 = uint a - uint b"
      using lt ge by (intro mod_pos_pos_trivial) linarith+
    then show ?thesis using True mod by simp
  next
    case False
    then have "uint a - uint b < 0" by (simp add: word_le_def)
    then have "(uint a - uint b + 2 ^ 64) mod 2 ^ 64 = uint a - uint b + 2 ^ 64"
      using lt ge by (intro mod_pos_pos_trivial) linarith+
    then show ?thesis using False mod by simp
  qed
qed

lemma container_config_labels:
  "get_container_config mul_percent backend_id config runtime key static_token log_config mount_base = Inr c \<Longrightarrow>
     cc_labels c = create_labels"
  by (auto simp: get_container_config_def bind_result_Inr_iff Let_def)

text \<open>Terminating a backend touches only its own container, and only when that is running.\<close>

lemma docker_terminate_own:
  assumes "docker_terminate api backend_id hard = (r, calls)"
  shows "set calls \<subseteq> {InspectContainer (to_container_id backend_id)} \<union>
      (if hard then {KillContainer (to_container_id backend_id)} else {StopContainer (to_container_id backend_id) 30})"
    and "r = Inr True \<longleftrightarrow> (\<exists>info. da_inspect_container api 0 (to_container_id backend_id) = Inr info \<and> ci_running info = Some True)
      \<and> (if hard then da_kill_container api (to_container_id backend_id) else da_stop_container api (to_container_id backend_id)) = Inr ()"
  using assms by (auto simp: docker_terminate_def Let_def KILL_AFTER_SOFT_TERMINATE_SECONDS_def
      split: sum.splits docker_error.splits if_splits)

section \<open>Properties\<close>


text \<open>
  The exit of a container is reported for the backend it was started for: an event of the
  daemon that carries the name and the labels a spawn gave to the container is turned into the
  termination of that backend with the exit code of the event, and a start event into the start of
  its metrics.
\<close>

theorem container_exit_reported:
  assumes "run_container mul_percent api rc backend_id config key static_token = (Some container_id, calls)"
    and "valid_name backend_prefix backend_id"
    and "CreateContainer container_id cc \<in> set calls"
    and "de_attributes e = Some attributes" and "map_of attributes ''name'' = Some container_id"
    and "\<forall>(k, v)\<in>set (cc_labels cc). map_of attributes k = Some v"
  shows "docker_event_of e = Some (if de_action e = Some ''start'' then StartMetrics backend_id
      else TerminateEvent backend_id (Option.bind (map_of attributes ''exitCode'') parse_i32))"
    and "calls = [CreateContainer container_id cc, StartContainer container_id]"
proof -
  have id: "container_id = to_container_id backend_id"
    and calls: "calls = [CreateContainer container_id cc, StartContainer container_id]"
    and labels: "cc_labels cc = create_labels"
    using assms(1,3) by (auto simp: run_container_def Let_def get_container_config_def bind_result_Inr_iff
        split: sum.splits)
  show "calls = [CreateContainer container_id cc, StartContainer container_id]" by (rule calls)
  have "from_container_id container_id = Inr backend_id"
    using assms(2) by (simp add: id from_container_id_def to_container_id_def bind_result_Inr_iff
        strip_prefix_Some_iff [THEN iffD2] name_try_from_Inr)
  moreover have "map_of attributes PLANE_DOCKER_LABEL = Some ''true''"
    using assms(6) by (simp add: labels create_labels_def)
  ultimately show "docker_event_of e = Some (if de_action e = Some ''start'' then StartMetrics backend_id
      else TerminateEvent backend_id (Option.bind (map_of attributes ''exitCode'') parse_i32))"
    using assms(4,5) by (simp add: docker_event_of_def)
qed

text \<open>
  C39: The numbers of the metrics. Messages are sent at least ten seconds apart. The differences of CPU
  times never wrap around, since a decrease is an error; the used memory is the difference of usage
  and inactive file cache, which wraps around when the usage is the smaller one.
\<close>

theorem metrics_bounds:
  assumes "metrics_message_from_container_stats stats backend_id = Inr (Some m)"
  shows "sorted_wrt (\<lambda>x y. fst y - fst x \<ge> secs 10) (metrics_loop callback backend_id last_processed items)
    \<and> uint (mm_cpu_used m) = uint (ds_total_usage stats) - uint (ds_pre_total_usage stats)
    \<and> (\<exists>sys pre. ds_system_cpu_usage stats = Some sys \<and> ds_pre_system_cpu_usage stats = Some pre
         \<and> uint (mm_sys_cpu m) = uint sys - uint pre)
    \<and> (\<exists>usage ms. ds_mem_usage stats = Some usage \<and> ds_mem_stats stats = Some ms
         \<and> uint (mm_mem_used m) = (if inactive_file ms \<le> usage then uint usage - uint (inactive_file ms)
              else 2 ^ 64 + uint usage - uint (inactive_file ms)))"
proof -
  note msg = assms [unfolded metrics_message_from_container_stats_def]
  obtain ms usage limit where mem: "ds_mem_stats stats = Some ms" "ds_mem_usage stats = Some usage" "ds_mem_limit stats = Some limit"
    using msg by (cases "ds_mem_stats stats"; cases "ds_mem_usage stats"; cases "ds_mem_limit stats") auto
  obtain sys pre where sys: "ds_system_cpu_usage stats = Some sys" "ds_pre_system_cpu_usage stats = Some pre"
    using msg mem by (cases "ds_system_cpu_usage stats"; cases "ds_pre_system_cpu_usage stats") auto
  have lt: "\<not> ds_total_usage stats < ds_pre_total_usage stats" "\<not> sys < pre"
    using msg mem sys by (auto split: if_splits)
  then have le: "ds_pre_total_usage stats \<le> ds_total_usage stats" "pre \<le> sys" by simp_all
  have m: "mm_cpu_used m = ds_total_usage stats - ds_pre_total_usage stats" "mm_sys_cpu m = sys - pre"
    "mm_mem_used m = snd (snd (snd (snd (memory_numbers usage ms))))"
    using msg mem sys lt by (auto simp: Let_def case_prod_beta)
  note * = mem sys le m
  have "mm_mem_used m = usage - inactive_file ms"
    using m(3) by (simp add: memory_numbers_def inactive_file_def split: MemoryStatsStats.splits)
  then show ?thesis using * metrics_loop_spaced [of callback backend_id last_processed items]
    by (simp add: uint_minus_wrap METRICS_INTERVAL_def)
qed

text \<open>
  Waiting for a backend always comes to an end: with attempts until the startup timeout is over, it
  succeeds exactly when one that was started in time is answered with the start of a response, and
  reports the timeout otherwise.
\<close>

theorem wait_for_backend_decides:
  assumes "sorted (map fst xs)" and "x \<in> set xs" and "fst x - start > secs 300"
  shows "wait_for_backend start xs = Some (if \<exists>(t, a)\<in>set xs. t - start \<le> secs 300
      \<and> (\<exists>r. a = Answered r \<and> take 5 r = ''HTTP/'') then Inr () else Inl BackendStartupTimeout)"
proof -
  have "(\<exists>y\<in>set xs. answers start y) \<longleftrightarrow> (\<exists>(t, a)\<in>set xs. t - start \<le> secs 300
      \<and> (\<exists>r. a = Answered r \<and> take 5 r = ''HTTP/''))"
    by (auto simp: answers_def STARTUP_TIMEOUT_SECS_def case_prod_beta)
  then show ?thesis using wait_for_backend_eq [OF assms(1,2), of start] assms(3)
    by (simp add: STARTUP_TIMEOUT_SECS_def)
qed

text \<open>
  C40: The mount option that uses the name of the key joins that name to the mount base unchecked: a key
  whose name starts with a slash mounts that path of the host, and one whose name climbs up leaves
  the base.
\<close>

theorem key_mount_unchecked:
  assumes "dc_mount config = Some (MountBool True)"
  shows "(starts_with (kc_name (ak_key k)) ''/'' \<longrightarrow>
      map_sum id cc_binds (get_container_config mul_percent backend_id config runtime (Some k) static_token log_config (Some base))
        = Inr (Some [kc_name (ak_key k) @ '':/plane-data'']))
    \<and> (kc_name (ak_key k) = ''../'' @ rest \<longrightarrow> base \<noteq> [] \<and> last base \<noteq> CHR ''/'' \<longrightarrow>
      map_sum id cc_binds (get_container_config mul_percent backend_id config runtime (Some k) static_token log_config (Some base))
        = Inr (Some [base @ ''/../'' @ rest @ '':/plane-data'']))"
  using assms by (simp add: get_container_config_def mount_binds_def path_join_def PLANE_DATA_DIR_def starts_with_def Let_def)

section \<open>Witnesses\<close>

definition docker_example_config :: DockerExecutorConfig where
  "docker_example_config = (from_image_with_defaults ''img'')\<lparr> dc_env := [(''PORT'', ''1''), (''A'', ''b'')],
     dc_mount := Some (MountPath ''data/x'') \<rparr>"

definition docker_example_rc :: DockerRuntimeConfig where
  "docker_example_rc = \<lparr> rc_runtime = None, rc_log_config = None, rc_mount_base = Some ''/mnt'', rc_auto_prune = None,
     rc_cleanup_min_age = None \<rparr>"

definition docker_example_api :: docker_api where
  "docker_example_api = \<lparr> da_inspect_image = (\<lambda>_. Inr ()), da_create_image = (\<lambda>_. []),
     da_create_container = (\<lambda>_ _. Inr ()), da_start_container = (\<lambda>_. Inr ()),
     da_inspect_container = (\<lambda>_ _. Inl (ServerError 404)), da_kill_container = (\<lambda>_. Inr ()),
     da_stop_container = (\<lambda>_. Inr ()) \<rparr>"

definition docker_example_container :: container_config where
  "docker_example_container = projr (get_container_config (\<lambda>p pc. p * pc div 100) (Some ''b1'') docker_example_config None None None
     None (Some ''/mnt''))"

lemma docker_example_Inr:
  "get_container_config (\<lambda>p pc. p * pc div 100) (Some ''b1'') docker_example_config None None None None (Some ''/mnt'')
     = Inr docker_example_container"
  by (simp add: docker_example_container_def get_container_config_def docker_example_config_def mount_binds_def
      validate_mount_path_def components_def path_part_def starts_with_def from_image_with_defaults_def Let_def
      del: show_nat.simps)


theorem container_exit_reported_witness:
  "docker_event_of \<lparr> de_action = Some ''die'', de_attributes = Some [(''name'', ''plane-b1''), (''dev.plane.backend'', ''true''),
     (''exitCode'', ''-7'')] \<rparr> = Some (TerminateEvent ''b1'' (Some (-7)))"
proof -
  let ?a = "[(''name'', ''plane-b1''), (''dev.plane.backend'', ''true''), (''exitCode'', ''-7'')]"
  have run: "run_container (\<lambda>p pc. p * pc div 100) docker_example_api docker_example_rc ''b1'' docker_example_config None None
      = (Some ''plane-b1'', [CreateContainer ''plane-b1'' docker_example_container, StartContainer ''plane-b1''])"
    using docker_example_Inr
    by (simp add: run_container_def docker_example_api_def docker_example_rc_def to_container_id_def Let_def)
  have name: "valid_name backend_prefix ''b1''"
    by (simp add: valid_name_def prefix_defs MAX_NAME_LENGTH_def name_char_def ascii_class_defs)
  have labels: "\<forall>(k, v)\<in>set (cc_labels docker_example_container). map_of ?a k = Some v"
    by (simp add: container_config_labels [OF docker_example_Inr] create_labels_def PLANE_DOCKER_LABEL_def)
  have "parse_i32 ''-7'' = Some (-7)"
    by (simp add: parse_i32_def is_ascii_digit_def)
  then show ?thesis
    using container_exit_reported(1) [OF run name _ _ _ labels, of "\<lparr> de_action = Some ''die'', de_attributes = Some ?a \<rparr>"]
    by simp
qed

definition docker_example_stats :: docker_stats where
  "docker_example_stats = \<lparr> ds_mem_stats = Some (V1 \<lparr> v1_total_active_anon = 0, v1_total_active_file = 0, v1_total_rss = 0,
       v1_total_cache = 0, v1_total_unevictable = 0, v1_total_inactive_anon = 0, v1_total_inactive_file = 5 \<rparr>),
     ds_mem_usage = Some 3, ds_mem_limit = Some 9, ds_system_cpu_usage = Some 8, ds_pre_system_cpu_usage = Some 6,
     ds_total_usage = 4, ds_pre_total_usage = 1 \<rparr>"

theorem metrics_bounds_witness:
  "\<exists>m. metrics_message_from_container_stats docker_example_stats ''b1'' = Inr (Some m) \<and> uint (mm_mem_used m) = 2 ^ 64 - 2"
proof -
  obtain m where m: "metrics_message_from_container_stats docker_example_stats ''b1'' = Inr (Some m)"
    by (simp add: metrics_message_from_container_stats_def memory_numbers_def docker_example_stats_def)
  then show ?thesis using metrics_bounds [OF m] by (auto simp: inactive_file_def docker_example_stats_def)
qed

theorem wait_for_backend_decides_witness:
  "wait_for_backend 0 [(0, ConnectFailed), (secs 2, Answered ''HTTP/1.1 200''), (secs 301, ReadFailed)] = Some (Inr ())"
  using wait_for_backend_decides [of "[(0, ConnectFailed), (secs 2, Answered ''HTTP/1.1 200''), (secs 301, ReadFailed)]"
      "(secs 301, ReadFailed)" 0]
  by (simp add: secs_def)

theorem key_mount_unchecked_witness:
  "map_sum id cc_binds (get_container_config (\<lambda>p pc. p) None ((from_image_with_defaults ''img'')\<lparr> dc_mount := Some (MountBool True) \<rparr>)
     None (Some \<lparr> ak_key = \<lparr> kc_name = ''/etc'', kc_namespace = [], kc_tag = [] \<rparr>,
       ak_deadlines = \<lparr> kd_renew_at = 0, kd_soft_terminate_at = 0, kd_hard_terminate_at = 0 \<rparr>, ak_token = 1 \<rparr>)
     None None (Some ''/mnt'')) = Inr (Some [''/etc:/plane-data''])"
  using key_mount_unchecked [of "(from_image_with_defaults ''img'')\<lparr> dc_mount := Some (MountBool True) \<rparr>"
      "\<lparr> ak_key = \<lparr> kc_name = ''/etc'', kc_namespace = [], kc_tag = [] \<rparr>,
       ak_deadlines = \<lparr> kd_renew_at = 0, kd_soft_terminate_at = 0, kd_hard_terminate_at = 0 \<rparr>, ak_token = 1 \<rparr>"
      "\<lambda>p pc. p" None None None None "''/mnt''" "[]"]
  by (simp add: starts_with_def)

end
