(* ===== verification/Drone_Session.thy ===== *)
theory Drone_Session
  imports Drone Controller_Drone
begin

text \<open>
  A drone and its controller together: the messages that a drone has sent over a connection, handled
  in order by the loop of \<open>plane/src/controller/drone.rs\<close>, and the answers, handled by the loop of
  \<open>plane/src/drone/mod.rs\<close>. Message \<open>k\<close> is handled at time \<open>clock k\<close>. The drone starts a task for each
  answer, so that answers may be handled in any order.
\<close>

section \<open>Definitions\<close>

fun serve_drone ::
  "(nat \<Rightarrow> time) \<Rightarrow> NodeId \<Rightarrow> nat \<Rightarrow> MessageFromDrone list \<Rightarrow> db \<Rightarrow> string + db \<times> MessageToDrone list" where
  "serve_drone clock drone_id k [] d = Inr (d, [])"
| "serve_drone clock drone_id k (m # ms) d =
     bind_result (drone_socket_step (clock k) drone_id (FromDrone m) d) (\<lambda>(d', rs).
     bind_result (serve_drone clock drone_id (Suc k) ms d') (\<lambda>(d'', rs'). Inr (d'', rs @ rs')))"

definition handle_answers ::
  "(BackendName \<Rightarrow> bool) \<Rightarrow> time \<Rightarrow> MessageToDrone list \<Rightarrow> executor_state \<Rightarrow> executor_state" where
  "handle_answers rt now ms d = fold (handle_message rt now) ms d"

section \<open>Lemmas\<close>

text \<open>The backend, if it is still there, is in the state or in one with a later status.\<close>

definition recorded :: "BackendName \<Rightarrow> BackendState \<Rightarrow> db \<Rightarrow> bool" where
  "recorded i st d \<longleftrightarrow> (\<forall>b. find_row (\<lambda>b. b_id b = i) (backends d) = Some b \<longrightarrow>
     (\<exists>st'. b_state b = Some st' \<and> status st \<le> status st'))"

lemma recorded_rank:
  assumes "db_ok d"
  shows "recorded i st d \<longleftrightarrow>
    find_row (\<lambda>b. b_id b = i) (backends d) = None \<or> as_int (status st) \<le> row_rank i d"
proof (cases "find_row (\<lambda>b. b_id b = i) (backends d)")
  case (Some b)
  obtain st' where "b_state b = Some st'" "row_rank i d = as_int (status st')"
    using row_rank_consistent [OF assms Some] by blast
  with Some show ?thesis using as_int_less [of "status st'" "status st"] by (auto simp: recorded_def not_less)
qed (simp add: recorded_def)

lemma recorded_step:
  assumes "db_ok d" and "recorded i st d"
  shows "recorded i st (state_step ev d)"
proof -
  have "find_row (\<lambda>b. b_id b = i) (backends (state_step ev d)) = None"
    if "find_row (\<lambda>b. b_id b = i) (backends d) = None"
    using that find_row_state_run [of i "[ev]" d] by simp
  then show ?thesis
    using assms(2) row_rank_step [of i d ev]
    unfolding recorded_rank [OF assms(1)] recorded_rank [OF db_ok_state_step [OF assms(1)]] by auto
qed

lemma serve_events:
  "serve_drone clock drone_id k (map BackendEvent es) d =
     Inr (fold state_step (map (\<lambda>(j, e). (clock j, sm_backend_id e, sm_state e)) (zip [k..<k + length es] es)) d,
          map (\<lambda>e. AckEvent (sm_event_id e)) es)"
proof (induction es arbitrary: k d)
  case (Cons e es)
  obtain r d1 where u: "update_state (clock k) (sm_backend_id e) (sm_state e) d = Inr (r, d1)"
    using update_state_total by blast
  have "[k..<k + length (e # es)] = k # [Suc k..<Suc k + length es]"
    using upt_rec [of k "k + length (e # es)"] by (simp del: upt_Suc)
  then show ?case using Cons.IH [of "Suc k" d1] u by (simp del: upt_Suc)
qed simp

lemma run_recorded:
  assumes "db_ok d" and "(now, i, st) \<in> set evs"
  shows "recorded i st (fold state_step evs d)"
proof -
  have keep: "db_ok (fold state_step es x) \<and> (recorded i st x \<longrightarrow> recorded i st (fold state_step es x))"
    if "db_ok x" for x es
    using that
    by (induction es arbitrary: x) (simp_all add: db_ok_state_step recorded_step del: state_step.simps)
  obtain es es' where "evs = es @ (now, i, st) # es'" using split_list [OF assms(2)] by blast
  moreover have "recorded i st (state_step (now, i, st) (fold state_step es d))"
    unfolding recorded_def using keep [OF assms(1)] state_step_recorded by blast
  ultimately show ?thesis
    using keep [OF assms(1), of es] keep [OF db_ok_state_step, of "fold state_step es d"]
    by (simp del: state_step.simps)
qed

lemma handle_acks:
  assumes "set ms \<subseteq> range AckEvent"
  shows "dn_managers (handle_answers rt now ms d) = dn_managers d
    \<and> dn_keys (handle_answers rt now ms d) = dn_keys d
    \<and> st_events (dn_store (handle_answers rt now ms d))
      = filter (\<lambda>e. AckEvent (se_id e) \<notin> set ms) (st_events (dn_store d))"
  using assms unfolding handle_answers_def
proof (induction ms arbitrary: d)
  case (Cons m ms)
  obtain i where m: "m = AckEvent i" using Cons.prems by auto
  have "st_events (ack_event i (dn_store d)) = filter (\<lambda>e. se_id e \<noteq> i) (st_events (dn_store d))"
    by (simp add: ack_event_def delete_where_def)
  then show ?case using Cons by (simp add: m conj_commute)
qed simp

lemma connect_outbox:
  assumes "store_ok (dn_store dr)" and "\<And>es. mset (order es) = mset es"
  obtains dr1 es where "drone_connect order dr = Inr dr1" and "dn_outbox dr1 = map BackendEvent es"
    and "st_events (dn_store dr1) = st_events (dn_store dr)"
    and "(\<lambda>m. (sm_event_id m, sm_backend_id m, sm_state m)) ` set es = pending_set (dn_store dr)"
proof -
  let ?s = "dn_store dr"
  let ?msg = "\<lambda>e. \<lparr> sm_event_id = se_id e, sm_backend_id = se_backend_id e, sm_state = se_event e,
    sm_timestamp = 1000 * se_timestamp_millis e \<rparr>"
  define es where "es = map ?msg (order (st_events ?s))"
  have set: "set (order (st_events ?s)) = set (st_events ?s)" using assms(2) by (metis set_mset_mset)
  have reg: "register_listener order ?s = Inr (?s\<lparr> st_sent := es, st_listening := True \<rparr>)"
    using assms(1) by (simp add: register_listener_def unacked_events_def collect_events_eq set store_ok_def es_def)
  have fold: "dn_outbox (fold on_state_message ms x) = dn_outbox x @ map BackendEvent ms
      \<and> dn_store (fold on_state_message ms x) = dn_store x" for ms x
    by (induction ms arbitrary: x) (simp_all add: on_state_message_def)
  show ?thesis
  proof (rule that)
    show "drone_connect order dr = Inr (fold on_state_message es
        (dr\<lparr> dn_store := ?s\<lparr> st_sent := es, st_listening := True \<rparr>, dn_outbox := [] \<rparr>))"
      by (simp add: drone_connect_def reg)
    show "(\<lambda>m. (sm_event_id m, sm_backend_id m, sm_state m)) ` set es = pending_set ?s"
      by (simp add: es_def set image_image pending_set_def)
  qed (simp_all add: fold)
qed

end
