(* ===== verification/Typed_Socket.thy ===== *)
theory Typed_Socket
  imports Controller_Drone Sse "HOL-Library.Sublist"
begin

text \<open>
  The typed sockets between the nodes and a controller, from \<open>common/src/typed_socket/\<close> and
  \<open>common/src/controller_address.rs\<close>: the handshake, connecting with retries, and the tasks at both
  ends that move messages between the bounded channels of the application and the websocket. A turn
  of a task is one branch of its \<open>select!\<close>. Channels are first-in first-out and hold 1024 messages;
  JSON (\<open>to_json\<close>, \<open>from_json\<close>), URLs and the websocket itself are external. The websocket delivers
  frames in order until the connection is lost, and from then on every send fails.
\<close>

section \<open>Definitions\<close>

subsection \<open>Addresses\<close>

record 'u AuthorizedAddress =
  aa_url :: 'u
  aa_bearer_token :: "string option"

definition address_from_url :: "('u \<Rightarrow> string) \<Rightarrow> (string \<Rightarrow> 'u \<Rightarrow> 'u) \<Rightarrow> 'u \<Rightarrow> 'u AuthorizedAddress" where
  "address_from_url username set_username url =
     \<lparr> aa_url = set_username [] url,
       aa_bearer_token = (if username url = [] then None else Some (username url)) \<rparr>"

definition address_join :: "(string \<Rightarrow> 'u \<Rightarrow> 'u) \<Rightarrow> string \<Rightarrow> 'u AuthorizedAddress \<Rightarrow> 'u AuthorizedAddress" where
  "address_join join path a = \<lparr> aa_url = join path (aa_url a), aa_bearer_token = aa_bearer_token a \<rparr>"

definition to_websocket_address ::
  "('u \<Rightarrow> string) \<Rightarrow> (string \<Rightarrow> 'u \<Rightarrow> 'u) \<Rightarrow> 'u AuthorizedAddress \<Rightarrow> 'u AuthorizedAddress" where
  "to_websocket_address scheme set_scheme a =
     (if scheme (aa_url a) = ''http'' then a\<lparr> aa_url := set_scheme ''ws'' (aa_url a) \<rparr>
      else if scheme (aa_url a) = ''https'' then a\<lparr> aa_url := set_scheme ''wss'' (aa_url a) \<rparr>
      else a)"

definition bearer_header :: "'u AuthorizedAddress \<Rightarrow> string option" where
  "bearer_header a = map_option (\<lambda>token. ''Bearer '' @ token) (aa_bearer_token a)"

subsection \<open>Errors\<close>

datatype TypedSocketError = Closed | Clogged

datatype PlaneClientError =
    JsonError
  | ConnectFailed string
  | BadConfiguration string
  | TungsteniteError
  | SendFailed

datatype ServerError =
    HandshakeNotText
  | SocketClosedBeforeHandshake
  | ParseMessage
  | SendMessage

subsection \<open>Frames\<close>

datatype frame = TextFrame string | CloseFrame "nat option" | OtherFrame

text \<open>What reading the websocket gives: a frame, a reset of the connection, another error, or its end.\<close>

datatype ws_item = Frame frame | WsReset | WsError | WsEnd

subsection \<open>Handshake and connection\<close>

datatype compat = SameVersion | VersionsDiffer | HashesDiffer

definition check_compat :: "Handshake \<Rightarrow> Handshake \<Rightarrow> compat" where
  "check_compat a b =
     (if pv_version (hs_version a) \<noteq> pv_version (hs_version b) then VersionsDiffer
      else if pv_git_hash (hs_version a) \<noteq> pv_git_hash (hs_version b) then HashesDiffer
      else SameVersion)"

definition auth_url_to_request ::
  "('u \<Rightarrow> string option) \<Rightarrow> string \<Rightarrow> 'u AuthorizedAddress \<Rightarrow> PlaneClientError + (string \<times> string) list" where
  "auth_url_to_request host_str key addr = (case host_str (aa_url addr) of
       None \<Rightarrow> Inl (BadConfiguration ''URL does not have a hostname.'')
     | Some host \<Rightarrow> Inr ([(''Host'', host), (''Connection'', ''Upgrade''), (''Upgrade'', ''websocket''),
           (''Sec-WebSocket-Version'', ''13''), (''Sec-WebSocket-Key'', key)]
         @ (case bearer_header addr of Some h \<Rightarrow> [(''Authorization'', h)] | None \<Rightarrow> [])))"

text \<open>The tasks: the queue to the websocket with its receiving end and its senders, the queue to the
  application with its receiver, and, at the server, a message that waits for room in that queue.\<close>

datatype 'm SocketAction = Send 'm | Close

definition CHANNEL_CAPACITY :: nat where "CHANNEL_CAPACITY = 1024"

record ('m, 'r) socket_task =
  tk_outgoing :: "'m SocketAction list"
  tk_open :: bool
  tk_senders :: bool
  tk_incoming :: "'r list"
  tk_receiver :: bool
  tk_held :: "'r option"
  tk_running :: bool

definition new_task :: "('m, 'r) socket_task" where
  "new_task = \<lparr> tk_outgoing = [], tk_open = True, tk_senders = True, tk_incoming = [],
     tk_receiver = True, tk_held = None, tk_running = True \<rparr>"

definition connect_socket ::
  "(Handshake \<Rightarrow> string) \<Rightarrow> (string \<Rightarrow> Handshake option) \<Rightarrow> ('u \<Rightarrow> string option) \<Rightarrow> string
     \<Rightarrow> ((string \<times> string) list \<Rightarrow> bool) \<Rightarrow> bool \<Rightarrow> ws_item \<Rightarrow> Handshake \<Rightarrow> 'u AuthorizedAddress
     \<Rightarrow> frame list \<times> (PlaneClientError + ('m, 'r) socket_task \<times> Handshake)" where
  "connect_socket to_json from_json host_str key accepted sent reply handshake addr =
     (case auth_url_to_request host_str key addr of
        Inl e \<Rightarrow> ([], Inl e)
      | Inr req \<Rightarrow>
          if \<not> accepted req then ([], Inl TungsteniteError)
          else if \<not> sent then ([], Inl TungsteniteError)
          else ([TextFrame (to_json handshake)],
            case reply of
              WsEnd \<Rightarrow> Inl (ConnectFailed ''Socket closed before handshake received.'')
            | WsReset \<Rightarrow> Inl TungsteniteError
            | WsError \<Rightarrow> Inl TungsteniteError
            | Frame (TextFrame msg) \<Rightarrow> (case from_json msg of
                  None \<Rightarrow> Inl JsonError | Some remote \<Rightarrow> Inr (new_task, remote))
            | Frame _ \<Rightarrow> Inl (ConnectFailed ''Handshake message was not text.'')))"

definition new_server ::
  "(Handshake \<Rightarrow> string) \<Rightarrow> (string \<Rightarrow> Handshake option) \<Rightarrow> bool \<Rightarrow> ws_item \<Rightarrow> Handshake
     \<Rightarrow> frame list \<times> (ServerError + ('m, 'r) socket_task \<times> Handshake)" where
  "new_server to_json from_json sent first local_handshake = (case first of
       WsEnd \<Rightarrow> ([], Inl SocketClosedBeforeHandshake)
     | WsReset \<Rightarrow> ([], Inl SendMessage)
     | WsError \<Rightarrow> ([], Inl SendMessage)
     | Frame (TextFrame msg) \<Rightarrow> (case from_json msg of
           None \<Rightarrow> ([], Inl ParseMessage)
         | Some remote \<Rightarrow> if sent then ([TextFrame (to_json local_handshake)], Inr (new_task, remote))
                          else ([], Inl SendMessage))
     | Frame _ \<Rightarrow> ([], Inl HandshakeNotText))"

text \<open>Attempt \<open>n\<close> starts at \<open>clock n\<close> with the wait of the backoff and has the result \<open>attempt n\<close>; the
  result is the number of the attempt, the sleeps, the socket and the backoff.\<close>

partial_function (option) connect_with_retry ::
  "(nat \<Rightarrow> nat \<Rightarrow> nat) \<Rightarrow> (nat \<Rightarrow> time) \<Rightarrow> (nat \<Rightarrow> PlaneClientError + 's) \<Rightarrow> nat \<Rightarrow> ExponentialBackoff
     \<Rightarrow> (nat \<times> time list \<times> 's \<times> ExponentialBackoff) option" where
  "connect_with_retry scaled clock attempt n backoff =
     (let (slept, b) = wait scaled (clock n) backoff
      in case attempt n of
           Inr socket \<Rightarrow> Some (n, [slept], socket, defer_reset (clock n + slept) b)
         | Inl _ \<Rightarrow> Option.bind (connect_with_retry scaled clock attempt (Suc n) b)
             (\<lambda>(k, sleeps, r). Some (k, slept # sleeps, r)))"

subsection \<open>The application's side\<close>

definition try_send :: "'m SocketAction \<Rightarrow> ('m, 'r) socket_task \<Rightarrow> TypedSocketError + ('m, 'r) socket_task" where
  "try_send a t =
     (if \<not> tk_open t then Inl Closed
      else if length (tk_outgoing t) \<ge> CHANNEL_CAPACITY then Inl Clogged
      else Inr (t\<lparr> tk_outgoing := tk_outgoing t @ [a] \<rparr>))"

definition socket_send :: "'m \<Rightarrow> ('m, 'r) socket_task \<Rightarrow> PlaneClientError + ('m, 'r) socket_task" where
  "socket_send m t = map_err (\<lambda>_. SendFailed) (try_send (Send m) t)"

text \<open>A sender sends what its function \<open>transform\<close> makes of a message.\<close>

definition sender_send ::
  "('a \<Rightarrow> 'm) \<Rightarrow> 'a \<Rightarrow> ('m, 'r) socket_task \<Rightarrow> TypedSocketError + ('m, 'r) socket_task" where
  "sender_send transform m t = try_send (Send (transform m)) t"

definition sender_close :: "('m, 'r) socket_task \<Rightarrow> TypedSocketError + ('m, 'r) socket_task" where
  "sender_close t = try_send Close t"

text \<open>Closing waits while the queue is full (\<open>None\<close>), and ignores a closed one.\<close>

definition socket_close :: "('m, 'r) socket_task \<Rightarrow> ('m, 'r) socket_task option" where
  "socket_close t = (case try_send Close t of
     Inr t' \<Rightarrow> Some t' | Inl Closed \<Rightarrow> Some t | Inl Clogged \<Rightarrow> None)"

text \<open>Receiving waits (\<open>None\<close>) while the task runs and nothing has arrived.\<close>

definition socket_recv :: "('m, 'r) socket_task \<Rightarrow> ('r option \<times> ('m, 'r) socket_task) option" where
  "socket_recv t = (case tk_incoming t of
       m # ms \<Rightarrow> Some (Some m, t\<lparr> tk_incoming := ms \<rparr>)
     | [] \<Rightarrow> if tk_running t then None else Some (None, t))"

definition channel_depths :: "('m, 'r) socket_task \<Rightarrow> nat \<times> nat" where
  "channel_depths t = (length (tk_outgoing t), length (tk_incoming t))"

subsection \<open>The tasks\<close>

definition stop_task :: "('m, 'r) socket_task \<Rightarrow> ('m, 'r) socket_task" where
  "stop_task t = t\<lparr> tk_running := False, tk_open := False, tk_outgoing := [], tk_held := None \<rparr>"

text \<open>A turn sends the next action (\<open>sent\<close> is whether the websocket takes a frame) or reads the
  websocket; it returns the frames sent.\<close>

datatype branch = Outgoing bool | Incoming ws_item

fun client_turn ::
  "('m \<Rightarrow> string) \<Rightarrow> (string \<Rightarrow> 'r option) \<Rightarrow> branch \<Rightarrow> ('m, 'r) socket_task
     \<Rightarrow> frame list \<times> ('m, 'r) socket_task" where
  "client_turn to_json from_json (Outgoing sent) t = (case tk_outgoing t of
       [] \<Rightarrow> if \<not> tk_open t \<or> \<not> tk_senders t
             then (if sent then [CloseFrame None] else [], stop_task t) else ([], t)
     | Send m # rest \<Rightarrow> (if sent then [TextFrame (to_json m)] else [], t\<lparr> tk_outgoing := rest \<rparr>)
     | Close # rest \<Rightarrow> ([], t\<lparr> tk_outgoing := rest, tk_open := False \<rparr>))"
| "client_turn to_json from_json (Incoming (Frame (TextFrame msg))) t = (case from_json msg of
       None \<Rightarrow> ([], t)
     | Some r \<Rightarrow> ([], if tk_receiver t \<and> length (tk_incoming t) < CHANNEL_CAPACITY
                      then t\<lparr> tk_incoming := tk_incoming t @ [r] \<rparr> else t))"
| "client_turn to_json from_json (Incoming WsReset) t = ([], stop_task t)"
| "client_turn to_json from_json (Incoming WsEnd) t = ([], stop_task t)"
| "client_turn to_json from_json (Incoming _) t = ([], t)"

text \<open>The server waits for room in the queue to the application.\<close>

definition deliver_held :: "('m, 'r) socket_task \<Rightarrow> ('m, 'r) socket_task" where
  "deliver_held t = (case tk_held t of
       None \<Rightarrow> t
     | Some r \<Rightarrow> if \<not> tk_receiver t then stop_task t
                 else if length (tk_incoming t) < CHANNEL_CAPACITY
                 then t\<lparr> tk_incoming := tk_incoming t @ [r], tk_held := None \<rparr> else t)"

fun server_turn ::
  "('m \<Rightarrow> string) \<Rightarrow> (string \<Rightarrow> 'r option) \<Rightarrow> branch \<Rightarrow> ('m, 'r) socket_task
     \<Rightarrow> frame list \<times> ('m, 'r) socket_task" where
  "server_turn to_json from_json (Outgoing sent) t = (case tk_outgoing t of
       [] \<Rightarrow> ([], t)
     | Send m # rest \<Rightarrow> if sent then ([TextFrame (to_json m)], t\<lparr> tk_outgoing := rest \<rparr>) else ([], stop_task t)
     | Close # rest \<Rightarrow> (if sent then [CloseFrame None] else [], stop_task t))"
| "server_turn to_json from_json (Incoming (Frame (TextFrame msg))) t = (case from_json msg of
       None \<Rightarrow> ([], t) | Some r \<Rightarrow> ([], deliver_held (t\<lparr> tk_held := Some r \<rparr>)))"
| "server_turn to_json from_json (Incoming (Frame (CloseFrame code))) t =
     ([], if code = Some 1001 then stop_task t else t)"
| "server_turn to_json from_json (Incoming (Frame OtherFrame)) t = ([], t)"
| "server_turn to_json from_json (Incoming WsEnd) t =
     ([], if tk_outgoing t = [] \<and> \<not> tk_senders t then stop_task t else t)"
| "server_turn to_json from_json (Incoming _) t = ([], stop_task t)"

subsection \<open>A connection\<close>

text \<open>Both tasks, the frames under way in both directions, and what the applications handed over
  successfully and received.\<close>

record ('m, 'r) connection =
  cn_client :: "('m, 'r) socket_task"
  cn_server :: "('r, 'm) socket_task"
  cn_up :: "frame list"
  cn_down :: "frame list"
  cn_alive :: bool
  cn_sent_up :: "'m list"
  cn_got_up :: "'m list"
  cn_sent_down :: "'r list"
  cn_got_down :: "'r list"

definition new_connection :: "('m, 'r) connection" where
  "new_connection = \<lparr> cn_client = new_task, cn_server = new_task, cn_up = [], cn_down = [],
     cn_alive = True, cn_sent_up = [], cn_got_up = [], cn_sent_down = [], cn_got_down = [] \<rparr>"

datatype ('m, 'r) conn_event =
    ClientSend 'm | ClientRecv | ClientClose | ClientDrop | ClientOut | ClientIn
  | ServerSend 'r | ServerRecv | ServerClose | ServerDrop | ServerOut | ServerIn | ServerDeliver
  | Lost

definition next_item :: "frame list \<Rightarrow> bool \<Rightarrow> bool \<Rightarrow> ws_item option" where
  "next_item wire alive peer = (case wire of
       f # _ \<Rightarrow> Some (Frame f)
     | [] \<Rightarrow> if \<not> alive then Some WsReset else if \<not> peer then Some WsEnd else None)"

fun conn_step ::
  "('m \<Rightarrow> string) \<Rightarrow> (string \<Rightarrow> 'm option) \<Rightarrow> ('r \<Rightarrow> string) \<Rightarrow> (string \<Rightarrow> 'r option)
     \<Rightarrow> ('m, 'r) conn_event \<Rightarrow> ('m, 'r) connection \<Rightarrow> ('m, 'r) connection" where
  "conn_step to_m from_m to_r from_r (ClientSend m) c = (case socket_send m (cn_client c) of
       Inl _ \<Rightarrow> c | Inr t \<Rightarrow> c\<lparr> cn_client := t, cn_sent_up := cn_sent_up c @ [m] \<rparr>)"
| "conn_step to_m from_m to_r from_r ClientRecv c = (case socket_recv (cn_client c) of
       Some (Some r, t) \<Rightarrow> c\<lparr> cn_client := t, cn_got_down := cn_got_down c @ [r] \<rparr> | _ \<Rightarrow> c)"
| "conn_step to_m from_m to_r from_r ClientClose c = (case socket_close (cn_client c) of
       Some t \<Rightarrow> c\<lparr> cn_client := t \<rparr> | None \<Rightarrow> c)"
| "conn_step to_m from_m to_r from_r ClientDrop c =
     c\<lparr> cn_client := (cn_client c)\<lparr> tk_receiver := False, tk_senders := False \<rparr> \<rparr>"
| "conn_step to_m from_m to_r from_r ClientOut c =
     (if \<not> tk_running (cn_client c) then c
      else let (fs, t) = client_turn to_m from_r (Outgoing (cn_alive c)) (cn_client c)
           in c\<lparr> cn_client := t, cn_up := cn_up c @ fs \<rparr>)"
| "conn_step to_m from_m to_r from_r ClientIn c =
     (if \<not> tk_running (cn_client c) then c
      else case next_item (cn_down c) (cn_alive c) (tk_running (cn_server c)) of
        None \<Rightarrow> c
      | Some i \<Rightarrow> c\<lparr> cn_client := snd (client_turn to_m from_r (Incoming i) (cn_client c)),
                     cn_down := tl (cn_down c) \<rparr>)"
| "conn_step to_m from_m to_r from_r (ServerSend r) c = (case socket_send r (cn_server c) of
       Inl _ \<Rightarrow> c | Inr t \<Rightarrow> c\<lparr> cn_server := t, cn_sent_down := cn_sent_down c @ [r] \<rparr>)"
| "conn_step to_m from_m to_r from_r ServerRecv c = (case socket_recv (cn_server c) of
       Some (Some m, t) \<Rightarrow> c\<lparr> cn_server := t, cn_got_up := cn_got_up c @ [m] \<rparr> | _ \<Rightarrow> c)"
| "conn_step to_m from_m to_r from_r ServerClose c = (case socket_close (cn_server c) of
       Some t \<Rightarrow> c\<lparr> cn_server := t \<rparr> | None \<Rightarrow> c)"
| "conn_step to_m from_m to_r from_r ServerDrop c =
     c\<lparr> cn_server := (cn_server c)\<lparr> tk_receiver := False, tk_senders := False \<rparr> \<rparr>"
| "conn_step to_m from_m to_r from_r ServerOut c =
     (if \<not> tk_running (cn_server c) \<or> tk_held (cn_server c) \<noteq> None then c
      else let (fs, t) = server_turn to_r from_m (Outgoing (cn_alive c)) (cn_server c)
           in c\<lparr> cn_server := t, cn_down := cn_down c @ fs \<rparr>)"
| "conn_step to_m from_m to_r from_r ServerIn c =
     (if \<not> tk_running (cn_server c) \<or> tk_held (cn_server c) \<noteq> None then c
      else case next_item (cn_up c) (cn_alive c) (tk_running (cn_client c)) of
        None \<Rightarrow> c
      | Some i \<Rightarrow> c\<lparr> cn_server := snd (server_turn to_r from_m (Incoming i) (cn_server c)),
                     cn_up := tl (cn_up c) \<rparr>)"
| "conn_step to_m from_m to_r from_r ServerDeliver c = c\<lparr> cn_server := deliver_held (cn_server c) \<rparr>"
| "conn_step to_m from_m to_r from_r Lost c = c\<lparr> cn_alive := False, cn_up := [], cn_down := [] \<rparr>"

section \<open>Lemmas\<close>

text \<open>What is still to come of a queue and of a wire.\<close>

definition sends :: "'m SocketAction list \<Rightarrow> 'm list" where
  "sends q = List.map_filter (\<lambda>a. case a of Send m \<Rightarrow> Some m | Close \<Rightarrow> None) q"

definition wire_messages :: "(string \<Rightarrow> 'm option) \<Rightarrow> frame list \<Rightarrow> 'm list" where
  "wire_messages from_json fs = List.map_filter (\<lambda>f. case f of TextFrame s \<Rightarrow> from_json s | _ \<Rightarrow> None) fs"

lemma sends_simps [simp]:
  "sends [] = []" "sends (Send m # q) = m # sends q" "sends (Close # q) = sends q"
  "sends (q @ q') = sends q @ sends q'"
  by (simp_all add: sends_def List.map_filter_def)

lemma wire_messages_simps [simp]:
  "wire_messages from_json [] = []"
  "wire_messages from_json (TextFrame s # fs) = (case from_json s of Some m \<Rightarrow> [m] | None \<Rightarrow> []) @ wire_messages from_json fs"
  "wire_messages from_json (CloseFrame k # fs) = wire_messages from_json fs"
  "wire_messages from_json (OtherFrame # fs) = wire_messages from_json fs"
  "wire_messages from_json (fs @ fs') = wire_messages from_json fs @ wire_messages from_json fs'"
  by (simp_all add: wire_messages_def List.map_filter_def split: option.split)

text \<open>One direction: \<open>xs\<close> has arrived or is under way, \<open>q\<close> is still to be sent, \<open>acc\<close> was handed over.\<close>

definition flow :: "bool \<Rightarrow> bool \<Rightarrow> 'a list \<Rightarrow> 'a list \<Rightarrow> 'a list \<Rightarrow> bool" where
  "flow exact live xs q acc \<longleftrightarrow>
     (if exact then (if live then xs @ q = acc else prefix xs acc)
      else subseq (xs @ (if live then q else [])) acc)"

lemma flow_stop:
  assumes "flow exact live xs q acc" and "prefix xs' xs"
  shows "flow exact False xs' q' acc"
proof -
  have p: "prefix xs' (xs @ (if live then q else []))" using assms(2) by (rule prefix_prefix)
  show ?thesis
  proof (cases exact)
    case True
    then have "prefix xs acc" using assms(1) by (auto simp: flow_def split: if_splits)
    then show ?thesis using True prefix_order.trans [OF assms(2)] by (simp add: flow_def)
  next
    case False
    then show ?thesis using assms(1) subseq_order.trans [OF prefix_imp_subseq [OF p]] by (simp add: flow_def)
  qed
qed

lemma flow_accept: "flow exact live xs q acc \<Longrightarrow> flow exact live xs (q @ [m]) (acc @ [m])"
  unfolding flow_def by (cases exact; cases live) (simp_all add: list_emb_append_mono list_emb_prefix prefix_prefix flip: append_assoc)

lemma subseq_drop: "subseq (xs @ m # ys) acc \<Longrightarrow> subseq (xs @ ys) acc"
  by (erule subseq_order.trans [rotated]) (intro list_emb_append_mono list_emb_Cons subseq_order.refl)

lemma flow_lose: "flow False live (xs @ m # ys) q acc \<Longrightarrow> flow False live (xs @ ys) q acc"
  unfolding flow_def using subseq_drop [of xs m "ys @ (if live then q else [])" acc] by simp

text \<open>The two directions of a connection.\<close>

definition arrived :: "('m, 'r) socket_task \<Rightarrow> 'r list" where
  "arrived t = tk_incoming t @ (case tk_held t of Some r \<Rightarrow> [r] | None \<Rightarrow> [])"

definition dir_ok ::
  "(string \<Rightarrow> 'a option) \<Rightarrow> bool \<Rightarrow> bool \<Rightarrow> ('a, 'b) socket_task \<Rightarrow> ('b, 'a) socket_task \<Rightarrow> frame list
     \<Rightarrow> 'a list \<Rightarrow> 'a list \<Rightarrow> bool" where
  "dir_ok from_json exact alive src dst wire got sent \<longleftrightarrow>
     flow exact (tk_running src \<and> tk_running dst \<and> alive)
       (got @ arrived dst @ wire_messages from_json (if tk_running dst then wire else []))
       (sends (tk_outgoing src)) sent"

definition up_ok :: "(string \<Rightarrow> 'm option) \<Rightarrow> ('m, 'r) connection \<Rightarrow> bool" where
  "up_ok from_m c \<longleftrightarrow>
     dir_ok from_m True (cn_alive c) (cn_client c) (cn_server c) (cn_up c) (cn_got_up c) (cn_sent_up c)"

definition down_ok :: "(string \<Rightarrow> 'r option) \<Rightarrow> bool \<Rightarrow> ('m, 'r) connection \<Rightarrow> bool" where
  "down_ok from_r exact c \<longleftrightarrow> tk_held (cn_client c) = None \<and>
     dir_ok from_r exact (cn_alive c) (cn_server c) (cn_client c) (cn_down c) (cn_got_down c) (cn_sent_down c)"

lemma stop_task_simps [simp]:
  "tk_running (stop_task t) = False" "tk_outgoing (stop_task t) = []" "tk_incoming (stop_task t) = tk_incoming t"
  "tk_held (stop_task t) = None" "stop_task (t\<lparr> tk_held := h \<rparr>) = stop_task t"
  "prefix (arrived (stop_task t)) (arrived t)"
  by (simp_all add: stop_task_def arrived_def)

lemma deliver_held_cases:
  "deliver_held t = stop_task t
   \<or> (arrived (deliver_held t) = arrived t \<and> tk_running (deliver_held t) = tk_running t
      \<and> tk_outgoing (deliver_held t) = tk_outgoing t)"
  by (auto simp: deliver_held_def arrived_def split: option.split)

text \<open>Reading at either end.\<close>

lemma server_reads:
  assumes "tk_held t = None" and "t' = snd (server_turn to_r from_m (Incoming i) t)"
  shows "t' = stop_task t
    \<or> (tk_running t' = tk_running t \<and> tk_outgoing t' = tk_outgoing t
       \<and> arrived t' = arrived t @ (case i of Frame f \<Rightarrow> wire_messages from_m [f] | _ \<Rightarrow> []))"
proof (cases "\<exists>s r. i = Frame (TextFrame s) \<and> from_m s = Some r")
  case True
  then obtain s r where i: "i = Frame (TextFrame s)" "from_m s = Some r" by blast
  have "arrived (t\<lparr> tk_held := Some r \<rparr>) = arrived t @ [r]" using assms(1) by (simp add: arrived_def)
  then show ?thesis using deliver_held_cases [of "t\<lparr> tk_held := Some r \<rparr>"] assms(2) i by auto
next
  case False
  then show ?thesis unfolding assms(2)
    by (cases "(to_r, from_m, Incoming i, t)" rule: server_turn.cases) (auto split: option.split)
qed

lemma client_reads:
  assumes "tk_held t = None" and "t' = snd (client_turn to_m from_r (Incoming i) t)"
  shows "tk_held t' = None \<and> (t' = stop_task t
    \<or> (tk_running t' = tk_running t \<and> tk_outgoing t' = tk_outgoing t
       \<and> (let ms = (case i of Frame f \<Rightarrow> wire_messages from_r [f] | _ \<Rightarrow> [])
          in arrived t' = arrived t @ ms
             \<or> arrived t' = arrived t \<and> length ms = 1
               \<and> \<not> (tk_receiver t \<and> length (tk_incoming t) < CHANNEL_CAPACITY))))"
  unfolding assms(2) using assms(1)
  by (cases "(to_m, from_r, Incoming i, t)" rule: client_turn.cases) (auto simp: arrived_def split: option.split)

lemma client_reads_quiet:
  "snd (client_turn to_m from_r (Incoming i) t) = stop_task t
   \<or> tk_running (snd (client_turn to_m from_r (Incoming i) t)) = tk_running t
     \<and> tk_outgoing (snd (client_turn to_m from_r (Incoming i) t)) = tk_outgoing t"
  by (cases "(to_m, from_r, Incoming i, t)" rule: client_turn.cases) (auto split: option.split)

lemma arrived_drop [simp]: "arrived (t\<lparr> tk_receiver := r, tk_senders := s \<rparr>) = arrived t"
  by (simp add: arrived_def)

lemma dir_ok_cong:
  assumes "dir_ok from_json exact alive src dst wire got sent"
    and "tk_running src' = tk_running src" "tk_running dst' = tk_running dst"
    and "sends (tk_outgoing src') = sends (tk_outgoing src)"
    and "got' @ arrived dst' @ wire_messages from_json (if tk_running dst then wire' else [])
      = got @ arrived dst @ wire_messages from_json (if tk_running dst then wire else [])"
  shows "dir_ok from_json exact alive src' dst' wire' got' sent"
  using assms(1) unfolding dir_ok_def assms(2-) .

lemma dir_ok_stop:
  assumes "dir_ok from_json exact alive src dst wire got sent"
    and "\<not> (tk_running src' \<and> tk_running dst' \<and> alive')"
    and "prefix (arrived dst' @ wire_messages from_json (if tk_running dst' then wire' else []))
      (arrived dst @ wire_messages from_json (if tk_running dst then wire else []))"
  shows "dir_ok from_json exact alive' src' dst' wire' got sent"
proof -
  have live: "(tk_running src' \<and> tk_running dst' \<and> alive') = False" using assms(2) by simp
  show ?thesis unfolding dir_ok_def live
    by (rule flow_stop [OF assms(1) [unfolded dir_ok_def]]) (use assms(3) in \<open>simp only: same_prefix_prefix\<close>)
qed

lemma dir_ok_src:
  assumes "dir_ok from_json exact alive src dst wire got sent"
    and "src' = stop_task src \<or> tk_running src' = tk_running src \<and> tk_outgoing src' = tk_outgoing src"
  shows "dir_ok from_json exact alive src' dst wire got sent"
  using assms(2)
proof
  assume "src' = stop_task src"
  then show ?thesis using assms(1) by (intro dir_ok_stop [OF assms(1)]) simp_all
qed (auto intro: dir_ok_cong [OF assms(1)])

lemma dir_ok_dst:
  assumes "dir_ok from_json exact alive src dst wire got sent"
    and "dst' = stop_task dst \<or> tk_running dst' = tk_running dst \<and> arrived dst' = arrived dst"
  shows "dir_ok from_json exact alive src dst' wire got sent"
  using assms(2)
proof
  assume "dst' = stop_task dst"
  then show ?thesis using assms(1) by (intro dir_ok_stop [OF assms(1)]) (simp_all add: prefix_prefix)
qed (auto intro: dir_ok_cong [OF assms(1)])

lemma dir_ok_accept:
  "\<lbrakk> dir_ok from_json exact alive src dst wire got sent; socket_send m src = Inr src' \<rbrakk>
     \<Longrightarrow> dir_ok from_json exact alive src' dst wire got (sent @ [m])"
  by (auto simp: dir_ok_def socket_send_def try_send_def flow_accept split: if_splits)

lemma dir_ok_receive:
  "\<lbrakk> dir_ok from_json exact alive src dst wire got sent; socket_recv dst = Some (Some m, dst') \<rbrakk>
     \<Longrightarrow> dir_ok from_json exact alive src dst' wire (got @ [m]) sent"
  by (erule dir_ok_cong) (auto simp: socket_recv_def arrived_def split: list.splits if_splits)

text \<open>Sending: the next action of a queue goes to the wire.\<close>

definition sends_to_wire ::
  "(string \<Rightarrow> 'a option) \<Rightarrow> bool \<Rightarrow> ('a, 'b) socket_task \<Rightarrow> frame list \<times> ('a, 'b) socket_task \<Rightarrow> bool" where
  "sends_to_wire from_json alive t = (\<lambda>(fs, t').
     t' = stop_task t \<and> wire_messages from_json fs = []
     \<or> tk_running t' = tk_running t \<and> arrived t' = arrived t \<and> tk_held t' = tk_held t
       \<and> (if alive then wire_messages from_json fs @ sends (tk_outgoing t') = sends (tk_outgoing t) else fs = []))"

lemma client_sends:
  "(\<And>m. from_m (to_m m) = Some m) \<Longrightarrow>
     sends_to_wire from_m alive t (client_turn to_m from_r (Outgoing alive) t)"
  by (auto simp: sends_to_wire_def arrived_def split: list.split SocketAction.split)

lemma server_sends:
  "(\<And>r. from_r (to_r r) = Some r) \<Longrightarrow>
     sends_to_wire from_r alive t (server_turn to_r from_m (Outgoing alive) t)"
  by (auto simp: sends_to_wire_def arrived_def split: list.split SocketAction.split)

lemma dir_ok_send:
  assumes "dir_ok from_json exact alive src dst wire got sent" and "sends_to_wire from_json alive src (fs, src')"
    and "tk_running src"
  shows "dir_ok from_json exact alive src' dst (wire @ fs) got sent"
proof (cases "src' = stop_task src \<and> wire_messages from_json fs = []")
  case True
  then show ?thesis by (intro dir_ok_stop [OF assms(1)]) simp_all
next
  case False
  then have eq: "tk_running src' = tk_running src"
      "if alive then wire_messages from_json fs @ sends (tk_outgoing src') = sends (tk_outgoing src) else fs = []"
    using assms(2) by (auto simp: sends_to_wire_def)
  show ?thesis
  proof (cases "alive \<and> tk_running dst")
    case True
    then show ?thesis using assms(1,3) eq by (simp add: dir_ok_def flow_def split: if_splits)
  next
    case False
    then show ?thesis using eq by (intro dir_ok_stop [OF assms(1)]) (auto split: if_splits)
  qed
qed

text \<open>Reading: the first frame of the wire arrives, or is lost.\<close>

lemma dir_ok_read:
  assumes "dir_ok from_json exact alive src dst wire got sent" and "next_item wire alive peer = Some i"
    and "dst' = stop_task dst \<or> (tk_running dst' = tk_running dst
       \<and> arrived dst' = arrived dst @ (case i of Frame f \<Rightarrow> wire_messages from_json [f] | _ \<Rightarrow> []))"
    and "tk_running dst"
  shows "dir_ok from_json exact alive src dst' (tl wire) got sent"
  using assms(3)
proof
  assume "dst' = stop_task dst"
  then show ?thesis by (intro dir_ok_stop [OF assms(1)]) (simp_all add: prefix_prefix)
next
  assume *: "tk_running dst' = tk_running dst
       \<and> arrived dst' = arrived dst @ (case i of Frame f \<Rightarrow> wire_messages from_json [f] | _ \<Rightarrow> [])"
  show ?thesis
  proof (cases wire)
    case Nil
    then show ?thesis using * assms(2)
      by (intro dir_ok_cong [OF assms(1)]) (auto simp: next_item_def split: if_splits)
  next
    case (Cons f fs)
    have "wire_messages from_json (f # fs) = wire_messages from_json [f] @ wire_messages from_json fs"
      using wire_messages_simps(5) [of from_json "[f]" fs] by simp
    then show ?thesis using * assms(2,4) Cons
      by (intro dir_ok_cong [OF assms(1)]) (auto simp: next_item_def)
  qed
qed

lemma dir_ok_lose:
  assumes "dir_ok from_json False alive src dst (f # wire) got sent" and "wire_messages from_json [f] = [m]"
    and "arrived dst' = arrived dst" "tk_running dst' = tk_running dst"
  shows "dir_ok from_json False alive src dst' wire got sent"
proof (cases "tk_running dst")
  case True
  have "wire_messages from_json (f # wire) = m # wire_messages from_json wire"
    using wire_messages_simps(5) [of from_json "[f]" wire] assms(2) by simp
  then show ?thesis using assms True flow_lose [of _ "got @ arrived dst" m "wire_messages from_json wire"]
    by (simp add: dir_ok_def)
next
  case False
  then show ?thesis using assms by (simp add: dir_ok_def)
qed

lemma socket_close_cases:
  "socket_close t = Some t' \<Longrightarrow> tk_running t' = tk_running t \<and> arrived t' = arrived t
     \<and> tk_held t' = tk_held t \<and> sends (tk_outgoing t') = sends (tk_outgoing t)"
  by (auto simp: socket_close_def try_send_def arrived_def split: if_splits)

lemma dir_ok_close:
  "\<lbrakk> dir_ok from_json exact alive src dst wire got sent; socket_close src = Some src' \<rbrakk>
     \<Longrightarrow> dir_ok from_json exact alive src' dst wire got sent"
  "\<lbrakk> dir_ok from_json exact alive src dst wire got sent; socket_close dst = Some dst' \<rbrakk>
     \<Longrightarrow> dir_ok from_json exact alive src dst' wire got sent"
  by (auto dest: socket_close_cases intro: dir_ok_cong dir_ok_dst)

lemma dir_ok_lost:
  "dir_ok from_json exact alive src dst wire got sent \<Longrightarrow> dir_ok from_json exact False src dst [] got sent"
  by (erule dir_ok_stop) simp_all

lemma task_quiet:
  "socket_send m t = Inr t' \<Longrightarrow> tk_running t' = tk_running t \<and> arrived t' = arrived t \<and> tk_held t' = tk_held t"
  "socket_recv t = Some (x, t') \<Longrightarrow> tk_running t' = tk_running t \<and> tk_outgoing t' = tk_outgoing t \<and> tk_held t' = tk_held t"
  by (auto simp: socket_send_def try_send_def socket_recv_def arrived_def split: if_splits list.splits)

declare client_turn.simps [simp del] server_turn.simps [simp del]

lemma up_ok_step:
  assumes "\<And>m. from_m (to_m m) = Some m" and "\<And>r. from_r (to_r r) = Some r" and "up_ok from_m c"
  shows "up_ok from_m (conn_step to_m from_m to_r from_r ev c)"
proof -
  note ok = assms(3) [unfolded up_ok_def]
  show ?thesis
  proof (cases ev)
  case ClientOut
  then show ?thesis using assms(3) client_sends [OF assms(1), of "cn_alive c" "cn_client c" from_r]
    by (auto simp: up_ok_def intro: dir_ok_send [OF ok] split: prod.split)
next
  case ServerOut
  then show ?thesis
    using assms(3) server_sends [OF assms(2), of "cn_alive c" "cn_server c" from_m]
    by (auto simp: up_ok_def sends_to_wire_def intro: dir_ok_dst [OF ok] split: prod.splits)
next
  case ClientIn
  show ?thesis
  proof (cases "next_item (cn_down c) (cn_alive c) (tk_running (cn_server c))")
    case (Some i)
    have "dir_ok from_m True (cn_alive c) (snd (client_turn to_m from_r (Incoming i) (cn_client c)))
        (cn_server c) (cn_up c) (cn_got_up c) (cn_sent_up c)"
      using client_reads_quiet [of to_m from_r i "cn_client c"] by (intro dir_ok_src [OF ok]) auto
    then show ?thesis using Some ClientIn assms(3) by (simp add: up_ok_def)
  qed (use ClientIn assms(3) in simp)
next
  case ServerIn
  show ?thesis
  proof (cases "tk_running (cn_server c) \<and> tk_held (cn_server c) = None")
    case True
    show ?thesis
    proof (cases "next_item (cn_up c) (cn_alive c) (tk_running (cn_client c))")
      case (Some i)
      then show ?thesis using ServerIn True assms(3) server_reads [of "cn_server c", OF _ refl, of to_r from_m i]
        by (auto simp: up_ok_def intro!: dir_ok_read [OF ok])
    qed (use ServerIn assms(3) in simp)
  qed (use ServerIn assms(3) in auto)
next
  case ServerDeliver
  then show ?thesis using assms(3) deliver_held_cases [of "cn_server c"]
    by (auto simp: up_ok_def intro: dir_ok_dst [OF ok])
qed (use assms(3) in \<open>auto simp: up_ok_def split: sum.splits option.splits
       intro: dir_ok_accept [OF ok] dir_ok_receive [OF ok] dir_ok_close [OF ok] dir_ok_lost [OF ok] dir_ok_src [OF ok] dir_ok_dst [OF ok]
       dest: task_quiet\<close>)
qed

lemma down_ok_step:
  assumes "\<And>m. from_m (to_m m) = Some m" and "\<And>r. from_r (to_r r) = Some r" and "down_ok from_r exact c"
    and room: "exact \<Longrightarrow> tk_receiver (cn_client c) \<and> length (tk_incoming (cn_client c)) < CHANNEL_CAPACITY"
  shows "down_ok from_r exact (conn_step to_m from_m to_r from_r ev c)"
proof -
  have ok: "dir_ok from_r exact (cn_alive c) (cn_server c) (cn_client c) (cn_down c) (cn_got_down c) (cn_sent_down c)"
    and held: "tk_held (cn_client c) = None"
    using assms(3) by (simp_all add: down_ok_def)
  show ?thesis
  proof (cases ev)
  case ClientOut
  then show ?thesis using assms(3) client_sends [OF assms(1), of "cn_alive c" "cn_client c" from_r]
    by (auto simp: down_ok_def sends_to_wire_def intro: dir_ok_dst [OF ok] split: prod.splits)
next
  case ServerOut
  then show ?thesis
    using assms(3) server_sends [OF assms(2), of "cn_alive c" "cn_server c" from_m]
    by (auto simp: down_ok_def intro: dir_ok_send [OF ok] split: prod.splits)
next
  case ServerIn
  then show ?thesis
    using assms(3) server_reads [of "cn_server c", OF _ refl, of to_r from_m]
    by (auto simp: down_ok_def intro!: dir_ok_src [OF ok] split: option.split)
next
  case ClientIn
  show ?thesis
  proof (cases "tk_running (cn_client c)")
    case True
    show ?thesis
    proof (cases "next_item (cn_down c) (cn_alive c) (tk_running (cn_server c))")
      case (Some i)
      let ?t = "snd (client_turn to_m from_r (Incoming i) (cn_client c))"
      have d: "dir_ok from_r exact (cn_alive c) (cn_server c) (cn_client c) (cn_down c) (cn_got_down c) (cn_sent_down c)"
        using assms(3) by (simp add: down_ok_def)
      have t: "tk_held ?t = None" using client_reads [of "cn_client c", OF _ refl] assms(3) by (simp add: down_ok_def)
      have "dir_ok from_r exact (cn_alive c) (cn_server c) ?t (tl (cn_down c)) (cn_got_down c) (cn_sent_down c)"
      proof (cases "?t = stop_task (cn_client c) \<or> arrived ?t = arrived (cn_client c) @
          (case i of Frame f \<Rightarrow> wire_messages from_r [f] | _ \<Rightarrow> [])")
        case arr: True
        then show ?thesis using client_reads_quiet [of to_m from_r i "cn_client c"] True
          by (intro dir_ok_read [OF ok Some]) auto
      next
        case False
        then have lost: "tk_running ?t = tk_running (cn_client c)" "arrived ?t = arrived (cn_client c)" "\<not> exact"
            "length (case i of Frame f \<Rightarrow> wire_messages from_r [f] | _ \<Rightarrow> []) = 1"
          using client_reads [of "cn_client c", OF held refl, of to_m from_r i] room by (auto simp: Let_def)
        from lost(4) obtain f m where f: "i = Frame f" "wire_messages from_r [f] = [m]"
          by (cases i) (auto simp: length_Suc_conv)
        then have "cn_down c = f # tl (cn_down c)" using Some by (auto simp: next_item_def split: list.splits if_splits)
        then show ?thesis using ok lost f dir_ok_lose [of from_r "cn_alive c" "cn_server c" "cn_client c" f "tl (cn_down c)"]
          by simp
      qed
      then show ?thesis using Some ClientIn True t by (simp add: down_ok_def)
    qed (use ClientIn assms(3) in simp)
  qed (use ClientIn assms(3) in simp)
next
  case ServerDeliver
  then show ?thesis using assms(3) deliver_held_cases [of "cn_server c"]
    by (auto simp: down_ok_def intro: dir_ok_src [OF ok])
qed (use assms(3) in \<open>auto simp: down_ok_def split: sum.splits option.splits
       intro: dir_ok_accept [OF ok] dir_ok_receive [OF ok] dir_ok_close [OF ok] dir_ok_lost [OF ok] dir_ok_src [OF ok] dir_ok_dst [OF ok]
       dest: task_quiet socket_close_cases\<close>)
qed

lemma dir_ok_got:
  assumes "dir_ok from_json exact alive src dst wire got sent"
  shows "if exact then prefix got sent else subseq got sent"
proof -
  have "flow exact False got [] sent" by (rule flow_stop [OF assms [unfolded dir_ok_def]]) simp
  then show ?thesis by (cases exact) (simp_all add: flow_def)
qed

lemma new_connection_ok: "up_ok from_m new_connection" "down_ok from_r exact new_connection"
  by (simp_all add: up_ok_def down_ok_def dir_ok_def flow_def new_connection_def new_task_def arrived_def)

lemma run_up_ok:
  assumes "\<And>m. from_m (to_m m) = Some m" and "\<And>r. from_r (to_r r) = Some r" and "up_ok from_m c"
  shows "up_ok from_m (fold (conn_step to_m from_m to_r from_r) evs c)"
  using assms(3)
proof (induction evs arbitrary: c)
  case (Cons ev evs)
  then show ?case using up_ok_step [of from_m to_m from_r to_r c ev] assms(1,2) by (simp del: conn_step.simps)
qed simp

lemma run_down_ok:
  assumes "\<And>m. from_m (to_m m) = Some m" and "\<And>r. from_r (to_r r) = Some r" and "down_ok from_r exact c"
    and "\<And>n. \<lbrakk> exact; n < length evs \<rbrakk> \<Longrightarrow>
      (let k = cn_client (fold (conn_step to_m from_m to_r from_r) (take n evs) c)
       in tk_receiver k \<and> length (tk_incoming k) < CHANNEL_CAPACITY)"
  shows "down_ok from_r exact (fold (conn_step to_m from_m to_r from_r) evs c)"
  using assms(3,4)
proof (induction evs arbitrary: c)
  case (Cons ev evs)
  have "down_ok from_r exact (conn_step to_m from_m to_r from_r ev c)"
    using Cons.prems(1) Cons.prems(2) [of 0]
    by (intro down_ok_step assms(1,2)) (simp_all add: Let_def del: conn_step.simps)
  moreover have "let k = cn_client (fold (conn_step to_m from_m to_r from_r) (take n evs)
        (conn_step to_m from_m to_r from_r ev c))
      in tk_receiver k \<and> length (tk_incoming k) < CHANNEL_CAPACITY" if exact "n < length evs" for n
    using Cons.prems(2) [of "Suc n"] that by (simp del: conn_step.simps)
  ultimately have "down_ok from_r exact (fold (conn_step to_m from_m to_r from_r) evs
      (conn_step to_m from_m to_r from_r ev c))" by (rule Cons.IH)
  then show ?case by (simp del: conn_step.simps)
qed simp

lemma wait_bounds: "0 \<le> eb_max b \<Longrightarrow> 0 \<le> fst (wait scaled now b) \<and> fst (wait scaled now b) \<le> eb_max b"
  "eb_max (snd (wait scaled now b)) = eb_max b"
  by (auto simp: wait_def reset_def)

lemma connect_with_retry_from:
  assumes "attempt (n + j) = Inr socket" and "\<And>i. i < j \<Longrightarrow> \<exists>e. attempt (n + i) = Inl e" and "eb_max b = secs 60"
  shows "\<exists>sleeps b'. connect_with_retry scaled clock attempt n b = Some (n + j, sleeps, socket, b')
    \<and> length sleeps = Suc j \<and> (\<forall>x\<in>set sleeps. 0 \<le> x \<and> x \<le> secs 60)"
  using assms
proof (induction j arbitrary: n b)
  case 0
  then show ?case using wait_bounds(1) [of b scaled "clock n"]
    by (subst connect_with_retry.simps) (simp add: split_def Let_def secs_def)
next
  case (Suc j)
  obtain e where e: "attempt n = Inl e" using Suc.prems(2) [of 0] by auto
  let ?b = "snd (wait scaled (clock n) b)"
  obtain sleeps b' where rec: "connect_with_retry scaled clock attempt (Suc n) ?b = Some (Suc n + j, sleeps, socket, b')"
    "length sleeps = Suc j" "\<forall>x\<in>set sleeps. 0 \<le> x \<and> x \<le> secs 60"
    using Suc.IH [of "Suc n" ?b] Suc.prems wait_bounds(2) [of scaled "clock n" b] by fastforce
  then show ?case using wait_bounds(1) [of b scaled "clock n"] Suc.prems(3) e
    by (subst connect_with_retry.simps) (simp add: split_def Let_def secs_def)
qed

text \<open>A message that arrives at a client whose queue is full is lost.\<close>

lemma full_queue_drops:
  "\<lbrakk> CHANNEL_CAPACITY \<le> length (tk_incoming t); from_json msg = Some r \<rbrakk> \<Longrightarrow>
     client_turn to_json from_json (Incoming (Frame (TextFrame msg))) t = ([], t)"
  by (simp add: client_turn.simps)

section \<open>Properties\<close>

text \<open>
  C6: Messages arrive in order. Whatever the applications at both ends of a connection send, receive
  and close, however the tasks take turns and whenever the connection is lost, the server has
  received a prefix of what the client handed over, all of it once nothing is under way; the client
  has received a subsequence of what the server handed over, and a prefix as long as its queue was
  never full. JSON is taken to decode what it encoded.
\<close>

theorem typed_socket_in_order:
  assumes "\<And>m. from_m (to_m m) = Some m" and "\<And>r. from_r (to_r r) = Some r"
    and run: "\<And>n. run n = fold (conn_step to_m from_m to_r from_r) (take n evs) new_connection"
    and c: "c = run (length evs)"
  shows "prefix (cn_got_up c) (cn_sent_up c)
    \<and> (tk_running (cn_client c) \<and> tk_running (cn_server c) \<and> cn_alive c \<and> tk_outgoing (cn_client c) = []
         \<and> cn_up c = [] \<and> tk_held (cn_server c) = None \<and> tk_incoming (cn_server c) = []
         \<longrightarrow> cn_got_up c = cn_sent_up c)
    \<and> subseq (cn_got_down c) (cn_sent_down c)
    \<and> ((\<forall>n<length evs. tk_receiver (cn_client (run n)) \<and> length (tk_incoming (cn_client (run n))) < CHANNEL_CAPACITY)
         \<longrightarrow> prefix (cn_got_down c) (cn_sent_down c))"
proof -
  have c': "c = fold (conn_step to_m from_m to_r from_r) evs new_connection" using run c by simp
  have up: "up_ok from_m c" unfolding c' using assms(1,2) new_connection_ok(1) by (intro run_up_ok)
  have down: "down_ok from_r False c" unfolding c' using assms(1,2) new_connection_ok(2)
    by (intro run_down_ok) simp_all
  have exact: "down_ok from_r True c"
    if "\<forall>n<length evs. tk_receiver (cn_client (run n)) \<and> length (tk_incoming (cn_client (run n))) < CHANNEL_CAPACITY"
    unfolding c' using assms(1,2) new_connection_ok(2) that run by (intro run_down_ok) simp_all
  have "cn_got_up c = cn_sent_up c"
    if "tk_running (cn_client c) \<and> tk_running (cn_server c) \<and> cn_alive c \<and> tk_outgoing (cn_client c) = []
      \<and> cn_up c = [] \<and> tk_held (cn_server c) = None \<and> tk_incoming (cn_server c) = []"
    using up that by (simp add: up_ok_def dir_ok_def flow_def arrived_def)
  then show ?thesis
    using dir_ok_got [OF up [unfolded up_ok_def]] dir_ok_got [of from_r False] down dir_ok_got [of from_r True] exact
    unfolding down_ok_def by auto
qed


theorem typed_socket_in_order_witness:
  "prefix (cn_got_up (fold (conn_step id Some id Some)
      [ClientSend ''a'', ClientSend ''b'', ClientOut, ServerIn, Lost, ServerRecv] new_connection)) [''a'', ''b'']
   \<and> cn_got_up (fold (conn_step id Some id Some)
      [ClientSend ''a'', ClientSend ''b'', ClientOut, ServerIn, Lost, ServerRecv] new_connection) = [''a'']"
proof -
  let ?evs = "[ClientSend ''a'', ClientSend ''b'', ClientOut, ServerIn, Lost, ServerRecv] :: (string, string) conn_event list"
  let ?run = "\<lambda>n. fold (conn_step id Some id Some) (take n ?evs) new_connection"
  have "prefix (cn_got_up (?run (length ?evs))) (cn_sent_up (?run (length ?evs)))"
    using typed_socket_in_order [of Some id Some id ?run ?evs, OF _ _ refl refl] by (metis id_apply)
  moreover have "cn_sent_up (?run (length ?evs)) = [''a'', ''b'']" by code_simp
  moreover have "cn_got_up (?run (length ?evs)) = [''a'']" by code_simp
  ultimately show ?thesis by (simp only: take_all order_refl)
qed

text \<open>
  Both ends of a connection agree on the handshake. If the client's request is accepted and both
  first frames are delivered, each side starts with empty queues and has the name and the version of
  the other, and both come to the same verdict on the versions; the client fails without a host name,
  and each side fails unless it reads a text that is a handshake.
\<close>

lemma handshake_exchanged:
  assumes "\<And>h. from_json (to_json h) = Some h" and "host_str (aa_url addr) = Some host"
    and "\<And>req. accepted req"
  shows "new_server to_json from_json True (Frame (TextFrame (to_json hc))) hs
      = ([TextFrame (to_json hs)], Inr (new_task, hc))
    \<and> connect_socket to_json from_json host_str key accepted True (Frame (TextFrame (to_json hs))) hc addr
      = ([TextFrame (to_json hc)], Inr (new_task, hs))
    \<and> check_compat hc hs = check_compat hs hc
    \<and> ((\<exists>t h. snd (new_server to_json from_json sent item hs) = Inr (t, h))
        \<longleftrightarrow> sent \<and> (\<exists>s h. item = Frame (TextFrame s) \<and> from_json s = Some h))
    \<and> ((\<exists>t h. snd (connect_socket to_json from_json host_str' key accepted sent item hc addr) = Inr (t, h))
        \<longleftrightarrow> host_str' (aa_url addr) \<noteq> None \<and> sent \<and> (\<exists>s h. item = Frame (TextFrame s) \<and> from_json s = Some h))"
  using assms
  by (auto simp: new_server_def connect_socket_def auth_url_to_request_def check_compat_def
      split: ws_item.split frame.split option.split)

text \<open>
  A node that keeps trying connects at the first attempt that succeeds, having slept once before
  every attempt, each time for at most a minute.
\<close>

theorem connects_at_first_success:
  assumes "attempt k = Inr socket" and "\<And>i. i < k \<Longrightarrow> \<exists>e. attempt i = Inl e"
  shows "\<exists>sleeps b. connect_with_retry scaled clock attempt 0 default_backoff = Some (k, sleeps, socket, b)
    \<and> length sleeps = Suc k \<and> (\<forall>x\<in>set sleeps. 0 \<le> x \<and> x \<le> secs 60)"
  using connect_with_retry_from [of attempt 0 k socket default_backoff scaled clock] assms
  by (simp add: default_backoff_def)

theorem connects_at_first_success_witness:
  "\<exists>sleeps b. connect_with_retry (\<lambda>i n. i) (\<lambda>_. 0) (\<lambda>n. if n = 2 then Inr ''s'' else Inl SendFailed) 0 default_backoff
     = Some (2, sleeps, ''s'', b) \<and> length sleeps = 3"
proof -
  have "\<exists>sleeps b. connect_with_retry (\<lambda>i n. i) (\<lambda>_. 0) (\<lambda>n. if n = 2 then Inr ''s'' else Inl SendFailed) 0 default_backoff
     = Some (2, sleeps, ''s'', b) \<and> length sleeps = Suc 2 \<and> (\<forall>x\<in>set sleeps. 0 \<le> x \<and> x \<le> secs 60)"
    by (rule connects_at_first_success) simp_all
  then show ?thesis by auto
qed

end
