(* ===== verification/Unix_Socket.thy ===== *)
theory Unix_Socket
  imports Docker Sse
begin

text \<open>
  The typed sockets between a drone and an external runtime on the same machine, from
  \<open>plane/src/typed_unix_socket/\<close>, and the runtime that uses them, from
  \<open>plane/src/drone/runtime/unix_socket/mod.rs\<close>. Messages are lines of JSON. A request carries a random
  id and waits for the response with the same id; messages without id are events. The broadcast
  channels keep the last 1024 messages of a receiver; one that falls behind loses the oldest and is
  told so once. JSON and the streams are external.
\<close>

section \<open>Definitions\<close>

subsection \<open>Messages and channels\<close>

record 'a WrappedMessage =
  wm_id :: "string option"
  wm_message :: 'a

definition BROADCAST_CAPACITY :: nat where "BROADCAST_CAPACITY = 1024"

record 'a receiver =
  rc_queue :: "'a list"
  rc_lagged :: bool

definition new_receiver :: "'a receiver" where
  "new_receiver = \<lparr> rc_queue = [], rc_lagged = False \<rparr>"

definition broadcast_to :: "'a \<Rightarrow> 'a receiver \<Rightarrow> 'a receiver" where
  "broadcast_to m r =
     (if length (rc_queue r) < BROADCAST_CAPACITY then r\<lparr> rc_queue := rc_queue r @ [m] \<rparr>
      else r\<lparr> rc_queue := tl (rc_queue r) @ [m], rc_lagged := True \<rparr>)"

text \<open>Receiving: nothing yet, the notice of having fallen behind, or the next message.\<close>

datatype 'a received = Empty | Lagged | Item 'a

definition broadcast_recv :: "'a receiver \<Rightarrow> 'a received \<times> 'a receiver" where
  "broadcast_recv r =
     (if rc_lagged r then (Lagged, r\<lparr> rc_lagged := False \<rparr>)
      else case rc_queue r of [] \<Rightarrow> (Empty, r) | m # ms \<Rightarrow> (Item m, r\<lparr> rc_queue := ms \<rparr>))"

subsection \<open>The client\<close>

text \<open>Its queue to the server (\<open>None\<close> once its loop has ended), the ids that wait for a response, the
  responses handed to the waiting requests, and the receivers of events.\<close>

record ('s, 'c) unix_client =
  uc_rx :: "'s WrappedMessage receiver option"
  uc_waiting :: "string set"
  uc_answered :: "(string \<times> 'c) list"
  uc_events :: "'c receiver list"

definition new_unix_client :: "('s, 'c) unix_client" where
  "new_unix_client = \<lparr> uc_rx = Some new_receiver, uc_waiting = {}, uc_answered = [], uc_events = [] \<rparr>"

text \<open>Whether the request was sent; one that was not stays in the table.\<close>

definition send_request :: "string \<Rightarrow> 's \<Rightarrow> ('s, 'c) unix_client \<Rightarrow> bool \<times> ('s, 'c) unix_client" where
  "send_request i request c =
     (uc_rx c \<noteq> None,
      c\<lparr> uc_waiting := insert i (uc_waiting c),
         uc_rx := map_option (broadcast_to \<lparr> wm_id = Some i, wm_message = request \<rparr>) (uc_rx c) \<rparr>)"

definition client_send_message :: "'s \<Rightarrow> ('s, 'c) unix_client \<Rightarrow> bool \<times> ('s, 'c) unix_client" where
  "client_send_message m c =
     (uc_rx c \<noteq> None,
      c\<lparr> uc_rx := map_option (broadcast_to \<lparr> wm_id = None, wm_message = m \<rparr>) (uc_rx c) \<rparr>)"

definition subscribe_events :: "('s, 'c) unix_client \<Rightarrow> ('s, 'c) unix_client" where
  "subscribe_events c = c\<lparr> uc_events := uc_events c @ [new_receiver] \<rparr>"

text \<open>The bodies of the loops of a connection: a line is read, the next message is written.\<close>

definition client_line ::
  "(string \<Rightarrow> 'c WrappedMessage option) \<Rightarrow> string \<Rightarrow> ('s, 'c) unix_client \<Rightarrow> ('s, 'c) unix_client" where
  "client_line from_json line c = (case from_json line of
       None \<Rightarrow> c
     | Some msg \<Rightarrow> (case wm_id msg of
           Some i \<Rightarrow> if i \<in> uc_waiting c
             then c\<lparr> uc_waiting := uc_waiting c - {i}, uc_answered := uc_answered c @ [(i, wm_message msg)] \<rparr>
             else c
         | None \<Rightarrow> c\<lparr> uc_events := map (broadcast_to (wm_message msg)) (uc_events c) \<rparr>))"

definition client_write ::
  "('s WrappedMessage \<Rightarrow> string) \<Rightarrow> ('s, 'c) unix_client \<Rightarrow> string list \<times> ('s, 'c) unix_client" where
  "client_write to_json c = (case uc_rx c of
       None \<Rightarrow> ([], c)
     | Some rx \<Rightarrow> (let (r, rx') = broadcast_recv rx
         in (case r of Item m \<Rightarrow> [to_json m] | _ \<Rightarrow> [], c\<lparr> uc_rx := Some rx' \<rparr>)))"

text \<open>A connection ended with an error: the client subscribes anew and connects again; its loop ends
  when connecting takes too long.\<close>

definition client_reconnect :: "('s, 'c) unix_client \<Rightarrow> ('s, 'c) unix_client" where
  "client_reconnect c = c\<lparr> uc_rx := Some new_receiver \<rparr>"

definition client_shutdown :: "('s, 'c) unix_client \<Rightarrow> ('s, 'c) unix_client" where
  "client_shutdown c = c\<lparr> uc_rx := None \<rparr>"

definition unix_backoff :: ExponentialBackoff where
  "unix_backoff = \<lparr> eb_initial_millis = 10, eb_max = secs 1, eb_defer = secs 1, eb_step = 0,
     eb_deferred_reset = None \<rparr>"

definition CONNECT_TIMEOUT :: time where "CONNECT_TIMEOUT = secs 30"

text \<open>Connecting: attempt \<open>n\<close> starts at \<open>clock n\<close>; the attempts after the timeout are not made (\<open>None\<close>).\<close>

fun unix_connect :: "(nat \<Rightarrow> nat \<Rightarrow> nat) \<Rightarrow> time \<Rightarrow> (time \<times> bool) list \<Rightarrow> ExponentialBackoff \<Rightarrow> time list option" where
  "unix_connect scaled start [] backoff = None"
| "unix_connect scaled start ((now, connected) # attempts) backoff =
     (if now - start > CONNECT_TIMEOUT then None
      else if connected then Some []
      else let (slept, b) = wait scaled now backoff
           in map_option ((#) slept) (unix_connect scaled start attempts b))"

subsection \<open>The server\<close>

record ('s, 'c) unix_server =
  us_events :: "'s receiver list"
  us_requests :: "'s WrappedMessage receiver list"
  us_responses :: "'c WrappedMessage receiver"

definition new_unix_server :: "('s, 'c) unix_server" where
  "new_unix_server = \<lparr> us_events = [], us_requests = [], us_responses = new_receiver \<rparr>"

definition subscribe_requests :: "('s, 'c) unix_server \<Rightarrow> ('s, 'c) unix_server" where
  "subscribe_requests s = s\<lparr> us_requests := us_requests s @ [new_receiver] \<rparr>"

definition server_line ::
  "(string \<Rightarrow> 's WrappedMessage option) \<Rightarrow> string \<Rightarrow> ('s, 'c) unix_server \<Rightarrow> ('s, 'c) unix_server" where
  "server_line from_json line s = (case from_json line of
       None \<Rightarrow> s
     | Some msg \<Rightarrow> (case wm_id msg of
           Some _ \<Rightarrow> s\<lparr> us_requests := map (broadcast_to msg) (us_requests s) \<rparr>
         | None \<Rightarrow> s\<lparr> us_events := map (broadcast_to (wm_message msg)) (us_events s) \<rparr>))"

definition send_response ::
  "'s WrappedMessage \<Rightarrow> 'c \<Rightarrow> ('s, 'c) unix_server \<Rightarrow> ('s, 'c) unix_server" where
  "send_response request response s =
     s\<lparr> us_responses := broadcast_to \<lparr> wm_id = wm_id request, wm_message = response \<rparr> (us_responses s) \<rparr>"

definition server_send_message :: "'c \<Rightarrow> ('s, 'c) unix_server \<Rightarrow> ('s, 'c) unix_server" where
  "server_send_message m s =
     s\<lparr> us_responses := broadcast_to \<lparr> wm_id = None, wm_message = m \<rparr> (us_responses s) \<rparr>"

definition server_write ::
  "('c WrappedMessage \<Rightarrow> string) \<Rightarrow> ('s, 'c) unix_server \<Rightarrow> string list \<times> ('s, 'c) unix_server" where
  "server_write to_json s = (let (r, rx) = broadcast_recv (us_responses s)
     in (case r of Item m \<Rightarrow> [to_json m] | _ \<Rightarrow> [], s\<lparr> us_responses := rx \<rparr>))"

definition server_reaccept :: "('s, 'c) unix_server \<Rightarrow> ('s, 'c) unix_server" where
  "server_reaccept s = s\<lparr> us_responses := new_receiver \<rparr>"

subsection \<open>The runtime\<close>

datatype MessageToServer =
    PrepareRequest DockerExecutorConfig
  | SpawnRequest BackendName DockerExecutorConfig "AcquiredKey option" "string option"
  | TerminateRequest BackendName bool
  | WaitForBackendRequest BackendName "string \<times> 16 word"

datatype MessageToClient =
    PrepareResult "string + unit"
  | SpawnResult "string + string \<times> 16 word"
  | TerminateResult "string + bool"
  | WaitForBackendResult "BackendError + unit"
  | MetricsMessage BackendMetricsMessage
  | TerminateEventMessage BackendName "int option"

text \<open>The operations: the request, and what is made of the response (\<open>None\<close>: the request failed).\<close>

definition unexpected :: string where
  "unexpected = ''Unexpected response from server''"

definition rt_prepare ::
  "('json \<Rightarrow> DockerExecutorConfig option) \<Rightarrow> (MessageToServer \<Rightarrow> MessageToClient option) \<Rightarrow> 'json
     \<Rightarrow> string + unit" where
  "rt_prepare from_value request config = (case from_value config of
       None \<Rightarrow> Inl ''invalid configuration''
     | Some config \<Rightarrow> (case request (PrepareRequest config) of
           None \<Rightarrow> Inl ''request failed''
         | Some (PrepareResult r) \<Rightarrow> r
         | Some _ \<Rightarrow> Inl unexpected))"

definition rt_spawn ::
  "('json \<Rightarrow> DockerExecutorConfig option) \<Rightarrow> (MessageToServer \<Rightarrow> MessageToClient option)
     \<Rightarrow> BackendName \<Rightarrow> 'json \<Rightarrow> AcquiredKey option \<Rightarrow> string option \<Rightarrow> string + string \<times> 16 word" where
  "rt_spawn from_value request backend_id executable key static_token = (case from_value executable of
       None \<Rightarrow> Inl ''invalid configuration''
     | Some executable \<Rightarrow> (case request (SpawnRequest backend_id executable key static_token) of
           None \<Rightarrow> Inl ''request failed''
         | Some (SpawnResult r) \<Rightarrow> r
         | Some _ \<Rightarrow> Inl unexpected))"

definition rt_terminate ::
  "(MessageToServer \<Rightarrow> MessageToClient option) \<Rightarrow> BackendName \<Rightarrow> bool \<Rightarrow> string + bool" where
  "rt_terminate request backend_id hard = (case request (TerminateRequest backend_id hard) of
       None \<Rightarrow> Inl ''request failed''
     | Some (TerminateResult r) \<Rightarrow> r
     | Some _ \<Rightarrow> Inl unexpected)"

text \<open>A failed request makes the wait panic (\<open>None\<close>).\<close>

definition rt_wait_for_backend ::
  "(MessageToServer \<Rightarrow> MessageToClient option) \<Rightarrow> BackendName \<Rightarrow> string \<times> 16 word
     \<Rightarrow> (BackendError + unit) option" where
  "rt_wait_for_backend request backend addr = (case request (WaitForBackendRequest backend addr) of
       None \<Rightarrow> None
     | Some (WaitForBackendResult v) \<Rightarrow> Some v
     | Some _ \<Rightarrow> Some (Inl (BackendOther unexpected)))"

text \<open>The stream of terminations and the metrics callback read events until the receiver falls behind.\<close>

fun event_items :: "'c received list \<Rightarrow> 'c list" where
  "event_items (Item m # rs) = m # event_items rs"
| "event_items (Empty # rs) = event_items rs"
| "event_items (Lagged # rs) = []"
| "event_items [] = []"

definition rt_events :: "MessageToClient received list \<Rightarrow> (BackendName \<times> int option) list" where
  "rt_events rs = List.map_filter (\<lambda>m. case m of TerminateEventMessage i code \<Rightarrow> Some (i, code) | _ \<Rightarrow> None)
     (event_items rs)"

definition rt_metrics :: "MessageToClient received list \<Rightarrow> BackendMetricsMessage list" where
  "rt_metrics rs = List.map_filter (\<lambda>m. case m of MetricsMessage x \<Rightarrow> Some x | _ \<Rightarrow> None) (event_items rs)"

subsection \<open>Client and server together\<close>

text \<open>The lines under way in both directions, what was requested, and a server application that
  answers a request by \<open>handler\<close>, through its first subscription.\<close>

record ('s, 'c) unix_system =
  sy_client :: "('s, 'c) unix_client"
  sy_server :: "('s, 'c) unix_server"
  sy_up :: "string list"
  sy_down :: "string list"
  sy_requested :: "(string \<times> 's) list"

definition new_system :: "('s, 'c) unix_system" where
  "new_system = \<lparr> sy_client = new_unix_client, sy_server = subscribe_requests new_unix_server,
     sy_up = [], sy_down = [], sy_requested = [] \<rparr>"

datatype ('s, 'c) system_event =
    Request string 's | ClientMessage 's | SubscribeEvents | ClientWrites | ClientReads
  | ServerMessage 'c | ServerHandles | ServerWrites | ServerReads | ConnectionLost

definition serve_request :: "('s \<Rightarrow> 'c) \<Rightarrow> ('s, 'c) unix_server \<Rightarrow> ('s, 'c) unix_server" where
  "serve_request handler s = (case us_requests s of
       [] \<Rightarrow> s
     | rx # rest \<Rightarrow> (let (r, rx') = broadcast_recv rx; s' = s\<lparr> us_requests := rx' # rest \<rparr>
         in case r of Item m \<Rightarrow> send_response m (handler (wm_message m)) s' | _ \<Rightarrow> s'))"

fun system_step ::
  "('s WrappedMessage \<Rightarrow> string) \<Rightarrow> (string \<Rightarrow> 's WrappedMessage option) \<Rightarrow> ('c WrappedMessage \<Rightarrow> string)
     \<Rightarrow> (string \<Rightarrow> 'c WrappedMessage option) \<Rightarrow> ('s \<Rightarrow> 'c) \<Rightarrow> ('s, 'c) system_event
     \<Rightarrow> ('s, 'c) unix_system \<Rightarrow> ('s, 'c) unix_system" where
  "system_step to_s from_s to_c from_c handler (Request i m) y =
     y\<lparr> sy_client := snd (send_request i m (sy_client y)), sy_requested := sy_requested y @ [(i, m)] \<rparr>"
| "system_step to_s from_s to_c from_c handler (ClientMessage m) y =
     y\<lparr> sy_client := snd (client_send_message m (sy_client y)) \<rparr>"
| "system_step to_s from_s to_c from_c handler SubscribeEvents y =
     y\<lparr> sy_client := subscribe_events (sy_client y) \<rparr>"
| "system_step to_s from_s to_c from_c handler ClientWrites y =
     (let (lines, c) = client_write to_s (sy_client y) in y\<lparr> sy_client := c, sy_up := sy_up y @ lines \<rparr>)"
| "system_step to_s from_s to_c from_c handler ClientReads y = (case sy_down y of
       [] \<Rightarrow> y | l # ls \<Rightarrow> y\<lparr> sy_client := client_line from_c l (sy_client y), sy_down := ls \<rparr>)"
| "system_step to_s from_s to_c from_c handler (ServerMessage m) y =
     y\<lparr> sy_server := server_send_message m (sy_server y) \<rparr>"
| "system_step to_s from_s to_c from_c handler ServerHandles y =
     y\<lparr> sy_server := serve_request handler (sy_server y) \<rparr>"
| "system_step to_s from_s to_c from_c handler ServerWrites y =
     (let (lines, s) = server_write to_c (sy_server y) in y\<lparr> sy_server := s, sy_down := sy_down y @ lines \<rparr>)"
| "system_step to_s from_s to_c from_c handler ServerReads y = (case sy_up y of
       [] \<Rightarrow> y | l # ls \<Rightarrow> y\<lparr> sy_server := server_line from_s l (sy_server y), sy_up := ls \<rparr>)"
| "system_step to_s from_s to_c from_c handler ConnectionLost y =
     y\<lparr> sy_client := client_reconnect (sy_client y), sy_server := server_reaccept (sy_server y),
        sy_up := [], sy_down := [] \<rparr>"

section \<open>Lemmas\<close>

text \<open>What is under way: requests towards the server, responses towards the client.\<close>

definition pending_requests :: "(string \<Rightarrow> 's WrappedMessage option) \<Rightarrow> ('s, 'c) unix_system \<Rightarrow> 's WrappedMessage set" where
  "pending_requests from_s y =
     (case uc_rx (sy_client y) of Some rx \<Rightarrow> set (rc_queue rx) | None \<Rightarrow> {})
     \<union> {m. \<exists>l\<in>set (sy_up y). from_s l = Some m}
     \<union> (case us_requests (sy_server y) of rx # _ \<Rightarrow> set (rc_queue rx) | [] \<Rightarrow> {})"

definition pending_responses :: "(string \<Rightarrow> 'c WrappedMessage option) \<Rightarrow> ('s, 'c) unix_system \<Rightarrow> 'c WrappedMessage set" where
  "pending_responses from_c y = set (rc_queue (us_responses (sy_server y)))
     \<union> {m. \<exists>l\<in>set (sy_down y). from_c l = Some m}"

text \<open>A request under way was made, a response answers a request that was made, and no id is both
  waiting and answered.\<close>

definition requests_ok :: "(string \<times> 's) set \<Rightarrow> 's WrappedMessage set \<Rightarrow> bool" where
  "requests_ok R P \<longleftrightarrow> (\<forall>w\<in>P. \<forall>i. wm_id w = Some i \<longrightarrow> (i, wm_message w) \<in> R)"

definition responses_ok :: "('s \<Rightarrow> 'c) \<Rightarrow> (string \<times> 's) set \<Rightarrow> 'c WrappedMessage set \<Rightarrow> bool" where
  "responses_ok handler R P \<longleftrightarrow> (\<forall>w\<in>P. \<forall>i. wm_id w = Some i \<longrightarrow> (\<exists>m. (i, m) \<in> R \<and> wm_message w = handler m))"

definition answers_ok :: "('s \<Rightarrow> 'c) \<Rightarrow> (string \<times> 's) set \<Rightarrow> ('s, 'c) unix_client \<Rightarrow> bool" where
  "answers_ok handler R c \<longleftrightarrow>
     (\<forall>(i, r)\<in>set (uc_answered c). \<exists>m. (i, m) \<in> R \<and> r = handler m)
     \<and> fst ` R = uc_waiting c \<union> fst ` set (uc_answered c) \<and> distinct (map fst (uc_answered c))
     \<and> uc_waiting c \<inter> fst ` set (uc_answered c) = {}"

definition system_ok ::
  "(string \<Rightarrow> 's WrappedMessage option) \<Rightarrow> (string \<Rightarrow> 'c WrappedMessage option) \<Rightarrow> ('s \<Rightarrow> 'c)
     \<Rightarrow> ('s, 'c) unix_system \<Rightarrow> bool" where
  "system_ok from_s from_c handler y \<longleftrightarrow>
     requests_ok (set (sy_requested y)) (pending_requests from_s y)
     \<and> responses_ok handler (set (sy_requested y)) (pending_responses from_c y)
     \<and> answers_ok handler (set (sy_requested y)) (sy_client y)"

lemma broadcast_to_queue:
  "set (rc_queue (broadcast_to m r)) \<subseteq> insert m (set (rc_queue r))"
  by (cases "rc_queue r") (auto simp: broadcast_to_def)

lemma broadcast_to_mem: "w \<in> set (rc_queue (broadcast_to m r)) \<Longrightarrow> w = m \<or> w \<in> set (rc_queue r)"
  using subsetD [OF broadcast_to_queue [of m r], of w] by simp

lemma broadcast_recv_queue:
  "(r, rx') = broadcast_recv rx \<Longrightarrow> set (rc_queue rx') \<subseteq> set (rc_queue rx)"
  "(Item m, rx') = broadcast_recv rx \<Longrightarrow> m \<in> set (rc_queue rx)"
  by (auto simp: broadcast_recv_def split: if_splits list.splits)

lemma requests_ok_sub:
  "\<lbrakk> requests_ok R P; \<And>w. w \<in> P' \<Longrightarrow> w \<in> P \<or> wm_id w = None \<rbrakk> \<Longrightarrow> requests_ok R P'"
  unfolding requests_ok_def by (metis option.distinct(1))

lemma responses_ok_sub:
  "\<lbrakk> responses_ok handler R P; \<And>w. w \<in> P' \<Longrightarrow> w \<in> P \<or> wm_id w = None \<rbrakk> \<Longrightarrow> responses_ok handler R P'"
  unfolding responses_ok_def by (metis option.distinct(1))

lemma system_ok_shrink:
  assumes "system_ok from_s from_c handler y"
    and "\<And>w. w \<in> pending_requests from_s y' \<Longrightarrow> w \<in> pending_requests from_s y \<or> wm_id w = None"
    and "\<And>w. w \<in> pending_responses from_c y' \<Longrightarrow> w \<in> pending_responses from_c y \<or> wm_id w = None"
    and "sy_requested y' = sy_requested y" and "uc_answered (sy_client y') = uc_answered (sy_client y)"
    and "uc_waiting (sy_client y') = uc_waiting (sy_client y)"
  shows "system_ok from_s from_c handler y'"
proof -
  have ok: "requests_ok (set (sy_requested y)) (pending_requests from_s y)"
      "responses_ok handler (set (sy_requested y)) (pending_responses from_c y)"
      "answers_ok handler (set (sy_requested y)) (sy_client y)"
    using assms(1) by (simp_all add: system_ok_def)
  have "answers_ok handler (set (sy_requested y)) (sy_client y')" using ok(3) by (simp add: answers_ok_def assms(5,6))
  then show ?thesis unfolding system_ok_def assms(4)
    using requests_ok_sub [OF ok(1) assms(2)] responses_ok_sub [OF ok(2) assms(3)] by simp
qed

lemma request_ok:
  assumes "system_ok from_s from_c handler y" and "i \<notin> fst ` set (sy_requested y)"
  shows "system_ok from_s from_c handler (system_step to_s from_s to_c from_c handler (Request i m) y)"
proof -
  let ?y = "system_step to_s from_s to_c from_c handler (Request i m) y"
  have "pending_requests from_s ?y \<subseteq> insert \<lparr> wm_id = Some i, wm_message = m \<rparr> (pending_requests from_s y)"
    using broadcast_to_queue [of "\<lparr> wm_id = Some i, wm_message = m \<rparr>"]
    by (auto simp: pending_requests_def send_request_def split: option.splits)
  then have "requests_ok (set (sy_requested ?y)) (pending_requests from_s ?y)"
    using assms(1) by (auto simp: system_ok_def requests_ok_def)
  moreover have "responses_ok handler (set (sy_requested ?y)) (pending_responses from_c ?y)"
    using assms(1) by (auto simp: system_ok_def responses_ok_def pending_responses_def)
  moreover have "i \<notin> fst ` set (uc_answered (sy_client y))"
  proof
    assume "i \<in> fst ` set (uc_answered (sy_client y))"
    then obtain r where "(i, r) \<in> set (uc_answered (sy_client y))" by auto
    then obtain m' where "(i, m') \<in> set (sy_requested y)" using assms(1) by (auto simp: system_ok_def answers_ok_def)
    with assms(2) show False by (auto intro: rev_image_eqI)
  qed
  then have "answers_ok handler (set (sy_requested ?y)) (sy_client ?y)"
    using assms(1) by (auto simp: system_ok_def answers_ok_def send_request_def)
  ultimately show ?thesis unfolding system_ok_def by blast
qed

lemma client_reads_ok:
  assumes "system_ok from_s from_c handler y"
  shows "system_ok from_s from_c handler (system_step to_s from_s to_c from_c handler ClientReads y)"
proof (cases "sy_down y")
  case (Cons l ls)
  let ?y = "system_step to_s from_s to_c from_c handler ClientReads y"
  have y: "sy_client ?y = client_line from_c l (sy_client y)" "sy_requested ?y = sy_requested y"
    using Cons by simp_all
  have q: "pending_requests from_s ?y = pending_requests from_s y"
    using Cons by (simp add: pending_requests_def client_line_def split: option.split)
  have r: "pending_responses from_c ?y \<subseteq> pending_responses from_c y" using Cons by (auto simp: pending_responses_def)
  have "answers_ok handler (set (sy_requested y)) (client_line from_c l (sy_client y))"
  proof (cases "\<exists>w i. from_c l = Some w \<and> wm_id w = Some i \<and> i \<in> uc_waiting (sy_client y)")
    case True
    then obtain w i where w: "from_c l = Some w" "wm_id w = Some i" "i \<in> uc_waiting (sy_client y)" by blast
    have "w \<in> pending_responses from_c y" using Cons w(1) by (auto simp: pending_responses_def)
    then obtain m where "(i, m) \<in> set (sy_requested y)" "wm_message w = handler m"
      using assms w(2) by (auto simp: system_ok_def responses_ok_def)
    then show ?thesis using assms w by (auto simp: system_ok_def answers_ok_def client_line_def)
  next
    case False
    then have "uc_waiting (client_line from_c l (sy_client y)) = uc_waiting (sy_client y)
      \<and> uc_answered (client_line from_c l (sy_client y)) = uc_answered (sy_client y)"
      by (auto simp: client_line_def split: option.split)
    then show ?thesis using assms by (simp add: system_ok_def answers_ok_def)
  qed
  moreover have "responses_ok handler (set (sy_requested y)) (pending_responses from_c y)" using assms by (simp add: system_ok_def)
  then have "responses_ok handler (set (sy_requested y)) (pending_responses from_c ?y)" by (rule responses_ok_sub) (use r in blast)
  moreover have "requests_ok (set (sy_requested y)) (pending_requests from_s y)" using assms by (simp add: system_ok_def)
  ultimately show ?thesis unfolding system_ok_def y q by blast
qed (use assms in simp)

lemma server_reads_ok:
  assumes "system_ok from_s from_c handler y"
  shows "system_ok from_s from_c handler (system_step to_s from_s to_c from_c handler ServerReads y)"
proof (cases "sy_up y")
  case (Cons l ls)
  have "w \<in> pending_requests from_s y"
    if "w \<in> pending_requests from_s (system_step to_s from_s to_c from_c handler ServerReads y)" for w
  proof (cases "from_s l")
    case None
    then show ?thesis using that Cons by (auto simp: pending_requests_def server_line_def)
  next
    case (Some m)
    then show ?thesis using that Cons broadcast_to_queue [of m "hd (us_requests (sy_server y))"]
      by (auto simp: pending_requests_def server_line_def split: option.splits list.splits)
  qed
  then show ?thesis using Cons
    by (intro system_ok_shrink [OF assms]) (auto simp: pending_responses_def server_line_def split: option.splits)
qed (use assms in simp)

lemma server_handles_ok:
  assumes "system_ok from_s from_c handler y"
  shows "system_ok from_s from_c handler (system_step to_s from_s to_c from_c handler ServerHandles y)"
proof (cases "us_requests (sy_server y)")
  case (Cons rx rest)
  let ?y = "system_step to_s from_s to_c from_c handler ServerHandles y"
  obtain r rx' where r: "broadcast_recv rx = (r, rx')" by fastforce
  have q: "pending_requests from_s ?y \<subseteq> pending_requests from_s y"
    using Cons r broadcast_recv_queue(1) [of r rx' rx]
    by (auto simp: pending_requests_def serve_request_def send_response_def Let_def split: received.splits)
  have p: "w \<in> pending_responses from_c y \<or> (\<exists>m. m \<in> pending_requests from_s y \<and> wm_id w = wm_id m
      \<and> wm_message w = handler (wm_message m))" if "w \<in> pending_responses from_c ?y" for w
  proof (cases r)
    case (Item m)
    then have "m \<in> set (rc_queue rx)" using r broadcast_recv_queue(2) [of m rx' rx] by simp
    then have "m \<in> pending_requests from_s y" using Cons by (simp add: pending_requests_def)
    moreover have "w \<in> pending_responses from_c y \<or> w = \<lparr> wm_id = wm_id m, wm_message = handler (wm_message m) \<rparr>"
      using that Cons r Item broadcast_to_queue [of "\<lparr> wm_id = wm_id m, wm_message = handler (wm_message m) \<rparr>"
          "us_responses (sy_server y)"]
      by (auto simp: pending_responses_def serve_request_def send_response_def Let_def)
    ultimately show ?thesis by auto
  qed (use that Cons r in \<open>auto simp: pending_responses_def serve_request_def Let_def\<close>)
  have "responses_ok handler (set (sy_requested y)) (pending_responses from_c ?y)"
    unfolding responses_ok_def
  proof (intro ballI allI impI)
    fix w i assume w: "w \<in> pending_responses from_c ?y" "wm_id w = Some i"
    from p [OF w(1)] show "\<exists>m. (i, m) \<in> set (sy_requested y) \<and> wm_message w = handler m"
    proof (elim disjE exE conjE)
      assume "w \<in> pending_responses from_c y"
      then show ?thesis using assms w(2) by (simp add: system_ok_def responses_ok_def)
    next
      fix m assume m: "m \<in> pending_requests from_s y" "wm_id w = wm_id m" "wm_message w = handler (wm_message m)"
      then have "(i, wm_message m) \<in> set (sy_requested y)" using assms w(2) by (simp add: system_ok_def requests_ok_def)
      then show ?thesis using m(3) by blast
    qed
  qed
  moreover have "requests_ok (set (sy_requested y)) (pending_requests from_s y)" using assms by (simp add: system_ok_def)
  then have "requests_ok (set (sy_requested y)) (pending_requests from_s ?y)" by (rule requests_ok_sub) (use q in blast)
  moreover have "answers_ok handler (set (sy_requested y)) (sy_client y)" using assms by (simp add: system_ok_def)
  moreover have "sy_requested ?y = sy_requested y" "sy_client ?y = sy_client y" by simp_all
  ultimately show ?thesis unfolding system_ok_def by (simp only:)
next
  case Nil
  then have "serve_request handler (sy_server y) = sy_server y" by (simp add: serve_request_def)
  then show ?thesis using assms by simp
qed

lemma system_ok_step:
  assumes "\<And>w. from_s (to_s w) = Some w" and "\<And>w. from_c (to_c w) = Some w"
    and "system_ok from_s from_c handler y" and "\<And>i m. ev = Request i m \<Longrightarrow> i \<notin> fst ` set (sy_requested y)"
  shows "system_ok from_s from_c handler (system_step to_s from_s to_c from_c handler ev y)"
proof (cases ev)
  case (Request i m)
  show ?thesis unfolding Request by (rule request_ok [OF assms(3) assms(4) [OF Request]])
next
  case (ClientMessage m)
  have "w \<in> pending_requests from_s (system_step to_s from_s to_c from_c handler ev y) \<Longrightarrow>
      w \<in> pending_requests from_s y \<or> wm_id w = None" for w
    using ClientMessage
    by (auto simp: pending_requests_def client_send_message_def split: option.splits dest!: broadcast_to_mem)
  then show ?thesis using ClientMessage
    by (intro system_ok_shrink [OF assms(3)]) (auto simp: pending_responses_def client_send_message_def)
next
  case SubscribeEvents
  then show ?thesis
    by (intro system_ok_shrink [OF assms(3)])
       (auto simp: pending_requests_def pending_responses_def subscribe_events_def)
next
  case ClientWrites
  show ?thesis
  proof (cases "uc_rx (sy_client y)")
    case None
    then show ?thesis using ClientWrites assms(3) by (simp add: client_write_def)
  next
    case (Some rx)
    obtain r rx' where r: "broadcast_recv rx = (r, rx')" by fastforce
    have "w \<in> pending_requests from_s (system_step to_s from_s to_c from_c handler ev y) \<Longrightarrow>
        w \<in> pending_requests from_s y" for w
      using ClientWrites Some r assms(1) broadcast_recv_queue(1) [of r rx' rx] broadcast_recv_queue(2) [of _ rx' rx]
      by (auto simp: pending_requests_def client_write_def split: received.splits)
    then show ?thesis using ClientWrites Some r
      by (intro system_ok_shrink [OF assms(3)]) (auto simp: pending_responses_def client_write_def)
  qed
next
  case ClientReads
  show ?thesis unfolding ClientReads by (rule client_reads_ok [OF assms(3)])
next
  case (ServerMessage m)
  have "w \<in> pending_responses from_c (system_step to_s from_s to_c from_c handler ev y) \<Longrightarrow>
      w \<in> pending_responses from_c y \<or> wm_id w = None" for w
    using ServerMessage
    by (auto simp: pending_responses_def server_send_message_def dest!: broadcast_to_mem)
  then show ?thesis using ServerMessage
    by (intro system_ok_shrink [OF assms(3)]) (auto simp: pending_requests_def server_send_message_def)
next
  case ServerHandles
  show ?thesis unfolding ServerHandles by (rule server_handles_ok [OF assms(3)])
next
  case ServerWrites
  obtain r rx' where r: "broadcast_recv (us_responses (sy_server y)) = (r, rx')" by fastforce
  have "w \<in> pending_responses from_c (system_step to_s from_s to_c from_c handler ev y) \<Longrightarrow>
      w \<in> pending_responses from_c y" for w
    using ServerWrites r assms(2) broadcast_recv_queue(1) [of r rx' "us_responses (sy_server y)"]
      broadcast_recv_queue(2) [of _ rx' "us_responses (sy_server y)"]
    by (auto simp: pending_responses_def server_write_def split: received.splits)
  then show ?thesis using ServerWrites r
    by (intro system_ok_shrink [OF assms(3)]) (auto simp: pending_requests_def server_write_def)
next
  case ServerReads
  show ?thesis unfolding ServerReads by (rule server_reads_ok [OF assms(3)])
next
  case ConnectionLost
  then show ?thesis
    by (intro system_ok_shrink [OF assms(3)])
       (auto simp: pending_requests_def pending_responses_def client_reconnect_def server_reaccept_def new_receiver_def)
qed

text \<open>Ids under way.\<close>

definition flight ::
  "(string \<Rightarrow> 's WrappedMessage option) \<Rightarrow> (string \<Rightarrow> 'c WrappedMessage option) \<Rightarrow> ('s, 'c) unix_system \<Rightarrow> string set" where
  "flight from_s from_c y = {i. (\<exists>w\<in>pending_requests from_s y. wm_id w = Some i)
     \<or> (\<exists>w\<in>pending_responses from_c y. wm_id w = Some i)}"

definition no_lag :: "('s, 'c) unix_system \<Rightarrow> bool" where
  "no_lag y \<longleftrightarrow> (\<exists>rx. uc_rx (sy_client y) = Some rx \<and> \<not> rc_lagged rx)
     \<and> (\<exists>rx rest. us_requests (sy_server y) = rx # rest \<and> \<not> rc_lagged rx)
     \<and> \<not> rc_lagged (us_responses (sy_server y))"

lemma broadcast_to_no_lag:
  "\<not> rc_lagged (broadcast_to m r) \<Longrightarrow> rc_queue (broadcast_to m r) = rc_queue r @ [m]"
  by (auto simp: broadcast_to_def split: if_splits)

lemma broadcast_recv_no_lag:
  "\<not> rc_lagged r \<Longrightarrow> broadcast_recv r = (case rc_queue r of [] \<Rightarrow> (Empty, r) | m # ms \<Rightarrow> (Item m, r\<lparr> rc_queue := ms \<rparr>))"
  by (simp add: broadcast_recv_def)

lemma flight_sub:
  "\<lbrakk> pending_requests from_s y \<subseteq> pending_requests from_s y'; pending_responses from_c y \<subseteq> pending_responses from_c y' \<rbrakk>
     \<Longrightarrow> flight from_s from_c y \<subseteq> flight from_s from_c y'"
  unfolding flight_def by auto

lemma handles_flight:
  assumes "no_lag y" and "no_lag (system_step to_s from_s to_c from_c handler ServerHandles y)"
  shows "flight from_s from_c y \<subseteq> flight from_s from_c (system_step to_s from_s to_c from_c handler ServerHandles y)"
    (is "_ \<subseteq> flight from_s from_c ?y")
proof -
  obtain rq rest where rq: "us_requests (sy_server y) = rq # rest" "\<not> rc_lagged rq" using assms(1) by (auto simp: no_lag_def)
  show ?thesis
  proof (cases "rc_queue rq")
    case Nil
    then have "serve_request handler (sy_server y) = sy_server y"
      using rq by (simp add: serve_request_def broadcast_recv_no_lag)
    then show ?thesis by simp
  next
    case (Cons m ms)
    then have y: "sy_server ?y = send_response m (handler (wm_message m)) ((sy_server y)\<lparr> us_requests := rq\<lparr> rc_queue := ms \<rparr> # rest \<rparr>)"
      "sy_client ?y = sy_client y" "sy_up ?y = sy_up y" "sy_down ?y = sy_down y"
      using rq by (simp_all add: serve_request_def broadcast_recv_no_lag Let_def)
    have q: "rc_queue (us_responses (sy_server ?y)) = rc_queue (us_responses (sy_server y))
        @ [\<lparr> wm_id = wm_id m, wm_message = handler (wm_message m) \<rparr>]"
      using assms(2) unfolding no_lag_def y by (simp add: send_response_def broadcast_to_no_lag)
    have "pending_requests from_s y \<subseteq> insert m (pending_requests from_s ?y)"
      unfolding pending_requests_def y using rq Cons by (auto simp: send_response_def)
    moreover have "pending_responses from_c ?y = insert \<lparr> wm_id = wm_id m, wm_message = handler (wm_message m) \<rparr> (pending_responses from_c y)"
      unfolding pending_responses_def q y(4) by auto
    ultimately show ?thesis unfolding flight_def by auto
  qed
qed

lemma reads_flight:
  assumes "no_lag y" and "no_lag (system_step to_s from_s to_c from_c handler ServerReads y)"
  shows "flight from_s from_c y \<subseteq> flight from_s from_c (system_step to_s from_s to_c from_c handler ServerReads y)"
    (is "_ \<subseteq> flight from_s from_c ?y")
proof (cases "sy_up y")
  case (Cons l ls)
  obtain rq rest where rq: "us_requests (sy_server y) = rq # rest" "\<not> rc_lagged rq" using assms(1) by (auto simp: no_lag_def)
  show ?thesis
  proof (cases "\<exists>m i. from_s l = Some m \<and> wm_id m = Some i")
    case True
    then obtain m i where m: "from_s l = Some m" "wm_id m = Some i" by blast
    then have "\<not> rc_lagged (broadcast_to m rq)"
      using assms(2) Cons rq by (auto simp: no_lag_def server_line_def)
    then show ?thesis using Cons m rq
      by (intro flight_sub) (auto simp: pending_requests_def pending_responses_def server_line_def broadcast_to_no_lag)
  next
    case False
    then show ?thesis using Cons
      by (auto simp: flight_def pending_requests_def pending_responses_def server_line_def split: option.splits)
  qed
qed simp

lemma flight_step:
  assumes json: "\<And>w. from_s (to_s w) = Some w" "\<And>w. from_c (to_c w) = Some w"
    and lag: "no_lag y" "no_lag (system_step to_s from_s to_c from_c handler ev y)"
    and ev: "ev \<noteq> ConnectionLost" and w: "uc_waiting (sy_client y) \<subseteq> flight from_s from_c y"
  shows "uc_waiting (sy_client (system_step to_s from_s to_c from_c handler ev y))
    \<subseteq> flight from_s from_c (system_step to_s from_s to_c from_c handler ev y)"
    (is "uc_waiting (sy_client ?y) \<subseteq> flight from_s from_c ?y")
proof -
  obtain rx where rx: "uc_rx (sy_client y) = Some rx" "\<not> rc_lagged rx" using lag(1) by (auto simp: no_lag_def)
  obtain rq rest where rq: "us_requests (sy_server y) = rq # rest" "\<not> rc_lagged rq" using lag(1) by (auto simp: no_lag_def)
  have rs: "\<not> rc_lagged (us_responses (sy_server y))" using lag(1) by (simp add: no_lag_def)
  note defs = pending_requests_def pending_responses_def no_lag_def broadcast_to_no_lag rx rq
  have sub: "uc_waiting (sy_client ?y) \<subseteq> flight from_s from_c ?y"
    if "uc_waiting (sy_client ?y) \<subseteq> uc_waiting (sy_client y)"
      "pending_requests from_s y \<subseteq> pending_requests from_s ?y" "pending_responses from_c y \<subseteq> pending_responses from_c ?y"
    using that(1) w flight_sub [OF that(2,3)] by (meson order_trans)
  show ?thesis
  proof (cases ev)
    case (Request i m)
    then show ?thesis using lag(2) w by (auto simp: flight_def defs send_request_def)
  next
    case (ClientMessage m)
    then show ?thesis using lag(2) by (intro sub) (auto simp: defs client_send_message_def)
  next
    case SubscribeEvents
    then show ?thesis by (intro sub) (auto simp: defs subscribe_events_def)
  next
    case ClientWrites
    then show ?thesis using json(1)
      by (intro sub) (auto simp: defs client_write_def broadcast_recv_no_lag split: list.splits)
  next
    case (ServerMessage m)
    then show ?thesis using lag(2) by (intro sub) (auto simp: defs server_send_message_def)
  next
    case ServerWrites
    then show ?thesis using json(2)
      by (intro sub) (auto simp: defs server_write_def broadcast_recv_no_lag [OF rs] split: list.splits)
  next
    case ServerHandles
    then show ?thesis using handles_flight [OF lag(1)] lag(2) w by (simp add: order_trans)
  next
    case ServerReads
    then have "uc_waiting (sy_client ?y) = uc_waiting (sy_client y)" by (simp split: list.split)
    then show ?thesis using ServerReads reads_flight [OF lag(1), of to_s from_s to_c from_c handler] lag(2) w
      by (metis order_trans)
  next
    case ClientReads
    show ?thesis
    proof (cases "sy_down y")
      case (Cons l ls)
      have "flight from_s from_c y \<subseteq> flight from_s from_c ?y
        \<union> (case from_c l of Some m \<Rightarrow> set_option (wm_id m) | None \<Rightarrow> {})"
        using ClientReads Cons by (auto simp: flight_def defs client_line_def split: option.splits)
      moreover have "uc_waiting (sy_client ?y) = uc_waiting (sy_client y)
        - (case from_c l of Some m \<Rightarrow> set_option (wm_id m) | None \<Rightarrow> {})"
        using ClientReads Cons by (auto simp: client_line_def split: option.splits)
      ultimately show ?thesis using w by blast
    qed (use ClientReads w in simp)
  qed (use ev in simp)
qed

lemma new_system_ok:
  "system_ok from_s from_c handler new_system" "no_lag new_system"
  "uc_waiting (sy_client new_system) \<subseteq> flight from_s from_c new_system"
  by (simp_all add: new_system_def new_unix_client_def new_unix_server_def subscribe_requests_def new_receiver_def
      system_ok_def requests_ok_def responses_ok_def answers_ok_def pending_requests_def pending_responses_def no_lag_def)

text \<open>The ids of the requests of a run.\<close>

definition request_ids :: "('s, 'c) system_event list \<Rightarrow> string list" where
  "request_ids evs = List.map_filter (\<lambda>ev. case ev of Request i _ \<Rightarrow> Some i | _ \<Rightarrow> None) evs"

lemma request_ids_snoc [simp]:
  "request_ids [] = []"
  "request_ids (evs @ [ev]) = request_ids evs @ (case ev of Request i _ \<Rightarrow> [i] | _ \<Rightarrow> [])"
  by (auto simp: request_ids_def List.map_filter_def split: system_event.split)

lemma requested_run:
  "map fst (sy_requested (fold (system_step to_s from_s to_c from_c handler) evs new_system)) = request_ids evs"
proof (induction evs rule: rev_induct)
  case (snoc ev evs)
  then show ?case by (cases ev) (simp_all add: split_def Let_def split: list.split)
qed (simp add: new_system_def)

lemma system_ok_run:
  assumes "\<And>w. from_s (to_s w) = Some w" and "\<And>w. from_c (to_c w) = Some w" and "distinct (request_ids evs)"
  shows "system_ok from_s from_c handler (fold (system_step to_s from_s to_c from_c handler) evs new_system)"
  using assms(3)
proof (induction evs rule: rev_induct)
  case Nil
  then show ?case by (simp add: new_system_ok)
next
  case (snoc ev evs)
  have ids: "fst ` set (sy_requested (fold (system_step to_s from_s to_c from_c handler) evs new_system)) = set (request_ids evs)"
    using arg_cong [OF requested_run [of to_s from_s to_c from_c handler evs], of set] by simp
  have "distinct (request_ids evs)" using snoc.prems by simp
  then have IH: "system_ok from_s from_c handler (fold (system_step to_s from_s to_c from_c handler) evs new_system)"
    by (rule snoc.IH)
  have "i \<notin> fst ` set (sy_requested (fold (system_step to_s from_s to_c from_c handler) evs new_system))"
    if "ev = Request i m" for i m using snoc.prems that unfolding ids by simp
  with system_ok_step [OF assms(1,2) IH] show ?case by (simp del: system_step.simps)
qed

lemma flight_run:
  assumes "\<And>w. from_s (to_s w) = Some w" and "\<And>w. from_c (to_c w) = Some w" and "ConnectionLost \<notin> set evs"
    and "\<And>n. n \<le> length evs \<Longrightarrow> no_lag (fold (system_step to_s from_s to_c from_c handler) (take n evs) new_system)"
  shows "uc_waiting (sy_client (fold (system_step to_s from_s to_c from_c handler) evs new_system))
    \<subseteq> flight from_s from_c (fold (system_step to_s from_s to_c from_c handler) evs new_system)"
  using assms(3,4)
proof (induction evs rule: rev_induct)
  case Nil
  then show ?case using new_system_ok(3) by simp
next
  case (snoc ev evs)
  let ?y = "fold (system_step to_s from_s to_c from_c handler) evs new_system"
  have lag: "no_lag ?y" using snoc.prems(2) [of "length evs"] by simp
  have lag': "no_lag (system_step to_s from_s to_c from_c handler ev ?y)"
    using snoc.prems(2) [of "Suc (length evs)"] by (simp del: system_step.simps)
  have IH: "uc_waiting (sy_client ?y) \<subseteq> flight from_s from_c ?y"
  proof (rule snoc.IH)
    show "ConnectionLost \<notin> set evs" using snoc.prems(1) by simp
    show "no_lag (fold (system_step to_s from_s to_c from_c handler) (take n evs) new_system)" if "n \<le> length evs" for n
      using snoc.prems(2) [of n] that by simp
  qed
  show ?case using flight_step [OF assms(1,2) lag lag' _ IH] snoc.prems(1) by (auto simp del: system_step.simps)
qed

section \<open>Properties\<close>

text \<open>
  C10: Responses reach the requests they answer. Whatever is sent in between and however often the
  connection is lost, an answer that a request receives is what the server's handler made of exactly
  that request, and no request is answered twice; as long as the connection is not lost and no queue
  overflows, every request is answered by the time nothing is under way. The random ids of the
  requests are taken to differ, and JSON to decode what it encoded.
\<close>

theorem unix_requests_answered:
  assumes "\<And>w. from_s (to_s w) = Some w" and "\<And>w. from_c (to_c w) = Some w" and "distinct (request_ids evs)"
    and run: "\<And>n. run n = fold (system_step to_s from_s to_c from_c handler) (take n evs) new_system"
    and y: "y = run (length evs)"
  shows "(\<forall>(i, r)\<in>set (uc_answered (sy_client y)). \<exists>m. (i, m) \<in> set (sy_requested y) \<and> r = handler m)
    \<and> distinct (map fst (uc_answered (sy_client y)))
    \<and> (ConnectionLost \<notin> set evs \<and> (\<forall>n\<le>length evs. no_lag (run n)) \<and> flight from_s from_c y = {}
        \<longrightarrow> fst ` set (uc_answered (sy_client y)) = set (request_ids evs))"
proof -
  have y': "y = fold (system_step to_s from_s to_c from_c handler) evs new_system" using run y by simp
  have ok: "answers_ok handler (set (sy_requested y)) (sy_client y)"
    using system_ok_run [of from_s to_s from_c to_c evs handler] assms(1-3) unfolding y' system_ok_def by blast
  have ids: "fst ` set (sy_requested y) = set (request_ids evs)"
    using arg_cong [OF requested_run [of to_s from_s to_c from_c handler evs], of set] unfolding y' by simp
  have "uc_waiting (sy_client y) \<subseteq> flight from_s from_c y"
    if "ConnectionLost \<notin> set evs" "\<forall>n\<le>length evs. no_lag (run n)"
    unfolding y' using that run assms(1,2) by (intro flight_run) simp_all
  then show ?thesis using ok ids unfolding answers_ok_def by auto
qed

definition unix_example_to :: "unit WrappedMessage \<Rightarrow> string" where
  "unix_example_to w = (case wm_id w of Some i \<Rightarrow> ''r'' @ i | None \<Rightarrow> ''e'')"

definition unix_example_from :: "string \<Rightarrow> unit WrappedMessage option" where
  "unix_example_from l = (case l of
     [] \<Rightarrow> None | c # i \<Rightarrow> Some \<lparr> wm_id = if [c] = ''r'' then Some i else None, wm_message = () \<rparr>)"

theorem unix_requests_answered_witness:
  "let y = fold (system_step unix_example_to unix_example_from unix_example_to unix_example_from id)
      [Request ''1'' (), ClientWrites, ServerReads, ServerHandles, ServerWrites, ClientReads] new_system
   in uc_answered (sy_client y) = [(''1'', ())] \<and> distinct (map fst (uc_answered (sy_client y)))"
proof -
  let ?evs = "[Request ''1'' (), ClientWrites, ServerReads, ServerHandles, ServerWrites, ClientReads] :: (unit, unit) system_event list"
  let ?run = "\<lambda>n. fold (system_step unix_example_to unix_example_from unix_example_to unix_example_from id) (take n ?evs) new_system"
  have json: "unix_example_from (unix_example_to w) = Some w" for w
    by (cases w) (auto simp: unix_example_from_def unix_example_to_def split: option.split)
  have "distinct (request_ids ?evs)" by (simp add: request_ids_def List.map_filter_def)
  then have "distinct (map fst (uc_answered (sy_client (?run (length ?evs)))))"
    using unix_requests_answered [where run = ?run, OF json json _ refl refl] by blast
  moreover have "uc_answered (sy_client (?run (length ?evs))) = [(''1'', ())]" by code_simp
  ultimately show ?thesis by (simp only: take_all order_refl Let_def)
qed

text \<open>
  A request that is under way when the connection is lost is still waiting, with nothing under way
  that could answer it; and a receiver that falls behind once reads no further event.
\<close>

lemma lost_request_waits:
  "let y = fold (system_step to_s from_s to_c from_c handler) [Request i m, ClientWrites, ConnectionLost] new_system
   in i \<in> uc_waiting (sy_client y) \<and> flight from_s from_c y = {}"
  by (simp add: new_system_def new_unix_client_def new_unix_server_def subscribe_requests_def new_receiver_def
      send_request_def broadcast_to_def client_write_def broadcast_recv_def client_reconnect_def server_reaccept_def
      flight_def pending_requests_def pending_responses_def BROADCAST_CAPACITY_def Let_def)

lemma event_items_lagged: "event_items (rs @ Lagged # rs') = event_items rs"
  by (induction rs rule: event_items.induct) simp_all

lemma lagged_ends_events:
  "rt_events (rs @ Lagged # rs') = rt_events rs" "rt_metrics (rs @ Lagged # rs') = rt_metrics rs"
  by (simp_all add: rt_events_def rt_metrics_def event_items_lagged)

lemma rt_prepare_Inr:
  "rt_prepare from_value request config = Inr () \<longleftrightarrow>
     (\<exists>c. from_value config = Some c \<and> request (PrepareRequest c) = Some (PrepareResult (Inr ())))"
  by (auto simp: rt_prepare_def split: option.splits MessageToClient.splits)

lemma rt_spawn_Inr:
  "rt_spawn from_value request i config key token = Inr r \<longleftrightarrow>
     (\<exists>c. from_value config = Some c \<and> request (SpawnRequest i c key token) = Some (SpawnResult (Inr r)))"
  by (auto simp: rt_spawn_def split: option.splits MessageToClient.splits)

lemma rt_terminate_Inr:
  "rt_terminate request i hard = Inr b \<longleftrightarrow> request (TerminateRequest i hard) = Some (TerminateResult (Inr b))"
  by (auto simp: rt_terminate_def split: option.splits MessageToClient.splits)

lemma rt_wait_None: "rt_wait_for_backend request i addr = None \<longleftrightarrow> request (WaitForBackendRequest i addr) = None"
  by (auto simp: rt_wait_for_backend_def split: option.splits MessageToClient.splits)

lemma rt_wait_Inr:
  "rt_wait_for_backend request i addr = Some (Inr ()) \<longleftrightarrow>
     request (WaitForBackendRequest i addr) = Some (WaitForBackendResult (Inr ()))"
  by (auto simp: rt_wait_for_backend_def split: option.splits MessageToClient.splits)

text \<open>
  The operations of the external runtime return what the server answered. A request that is
  answered by the matching kind of result returns it unchanged, another kind of message is an error;
  an invalid configuration is an error without any request, and waiting panics exactly when its
  request fails.
\<close>

theorem runtime_returns_answer:
  "(rt_prepare from_value request config = Inr () \<longleftrightarrow>
      (\<exists>c. from_value config = Some c \<and> request (PrepareRequest c) = Some (PrepareResult (Inr ()))))
   \<and> (rt_spawn from_value request i config key token = Inr r \<longleftrightarrow>
      (\<exists>c. from_value config = Some c \<and> request (SpawnRequest i c key token) = Some (SpawnResult (Inr r))))
   \<and> (rt_terminate request i hard = Inr b \<longleftrightarrow> request (TerminateRequest i hard) = Some (TerminateResult (Inr b)))
   \<and> (rt_wait_for_backend request i addr = None \<longleftrightarrow> request (WaitForBackendRequest i addr) = None)
   \<and> (rt_wait_for_backend request i addr = Some (Inr ()) \<longleftrightarrow>
      request (WaitForBackendRequest i addr) = Some (WaitForBackendResult (Inr ())))"
  by (simp only: rt_prepare_Inr rt_spawn_Inr rt_terminate_Inr rt_wait_None rt_wait_Inr simp_thms)

end
