(* ===== verification/Servers.thy ===== *)
theory Servers
  imports Controller_Api
begin

text \<open>
  The servers and how they shut down: the listening loops and the graceful shutdown of the HTTP
  proxy library, from \<open>dynamic-proxy/src/server.rs\<close> and \<open>dynamic-proxy/src/graceful_shutdown.rs\<close>, and the
  controller process with its heartbeats, from \<open>plane/src/controller/mod.rs\<close>. A receiver of the watch
  channel sees a signal that was sent after it subscribed, once; the channel is closed when no
  receiver is left. Connections themselves belong to the HTTP library.
\<close>

section \<open>Definitions\<close>

subsection \<open>Graceful shutdown\<close>

text \<open>A watched connection: the signal waits to be seen, or was seen and the connection was asked to
  finish.\<close>

record watched =
  wc_id :: nat
  wc_changed :: bool
  wc_cancelled :: bool

text \<open>A server: its loop with its receiver, the connections in a TLS handshake, and those watched.\<close>

record http_server =
  sv_listening :: bool
  sv_changed :: bool
  sv_handshakes :: "nat list"
  sv_conns :: "watched list"

definition new_http_server :: http_server where
  "new_http_server = \<lparr> sv_listening = True, sv_changed = False, sv_handshakes = [], sv_conns = [] \<rparr>"

definition watch :: "nat \<Rightarrow> http_server \<Rightarrow> http_server" where
  "watch i s = s\<lparr> sv_conns := sv_conns s @ [\<lparr> wc_id = i, wc_changed = False, wc_cancelled = False \<rparr>] \<rparr>"

text \<open>A turn of the loop: a connection was accepted, or accepting failed (\<open>None\<close>), or the loop sees the
  signal. With TLS a task of its own does the handshake.\<close>

definition listen_accept :: "nat option \<Rightarrow> http_server \<Rightarrow> http_server" where
  "listen_accept stream s = (case stream of
     Some i \<Rightarrow> if sv_listening s then watch i s else s | None \<Rightarrow> s)"

definition listen_accept_tls :: "nat option \<Rightarrow> http_server \<Rightarrow> http_server" where
  "listen_accept_tls stream s = (case stream of
     Some i \<Rightarrow> if sv_listening s then s\<lparr> sv_handshakes := sv_handshakes s @ [i] \<rparr> else s | None \<Rightarrow> s)"

definition tls_accepted :: "nat \<Rightarrow> bool \<Rightarrow> http_server \<Rightarrow> http_server" where
  "tls_accepted i ok s =
     (if i \<in> set (sv_handshakes s)
      then (let s' = s\<lparr> sv_handshakes := remove1 i (sv_handshakes s) \<rparr> in if ok then watch i s' else s')
      else s)"

definition listen_signal :: "http_server \<Rightarrow> http_server" where
  "listen_signal s = (if sv_listening s \<and> sv_changed s then s\<lparr> sv_listening := False \<rparr> else s)"

text \<open>The signal of \<open>shutdown\<close> reaches the receivers there are.\<close>

definition shutdown_signal :: "http_server \<Rightarrow> http_server" where
  "shutdown_signal s = s\<lparr> sv_changed := True, sv_conns := map (\<lambda>c. c\<lparr> wc_changed := True \<rparr>) (sv_conns s) \<rparr>"

text \<open>A poll of a watched connection; \<open>finished\<close> is whether the connection is then done.\<close>

definition poll_watched :: "watched \<Rightarrow> watched" where
  "poll_watched c = (if \<not> wc_cancelled c \<and> wc_changed c then c\<lparr> wc_cancelled := True \<rparr> else c)"

definition poll_conn :: "nat \<Rightarrow> bool \<Rightarrow> http_server \<Rightarrow> http_server" where
  "poll_conn i finished s =
     s\<lparr> sv_conns := (if finished then filter (\<lambda>c. wc_id c \<noteq> i) (sv_conns s)
                    else map (\<lambda>c. if wc_id c = i then poll_watched c else c) (sv_conns s)) \<rparr>"

definition watch_closed :: "http_server \<Rightarrow> bool" where
  "watch_closed s \<longleftrightarrow> \<not> sv_listening s \<and> sv_conns s = []"

datatype server_event =
    AcceptHttp "nat option" | AcceptTls "nat option" | TlsDone nat bool | LoopSignal | Shutdown | Poll nat bool

fun http_server_step :: "server_event \<Rightarrow> http_server \<Rightarrow> http_server" where
  "http_server_step (AcceptHttp x) s = listen_accept x s"
| "http_server_step (AcceptTls x) s = listen_accept_tls x s"
| "http_server_step (TlsDone i ok) s = tls_accepted i ok s"
| "http_server_step LoopSignal s = listen_signal s"
| "http_server_step Shutdown s = shutdown_signal s"
| "http_server_step (Poll i finished) s = poll_conn i finished s"

text \<open>Waiting for the shutdown: the channel closes at \<open>closed_at\<close> (\<open>None\<close>: never), counted from the
  signal; the result is the time waited and whether the connections were all done.\<close>

definition graceful_shutdown_with_timeout :: "time \<Rightarrow> time option \<Rightarrow> time \<times> bool" where
  "graceful_shutdown_with_timeout timeout closed_at = (case closed_at of
     Some t \<Rightarrow> if t \<le> timeout then (t, True) else (timeout, False) | None \<Rightarrow> (timeout, False))"

definition redirect_shutdown :: "time \<Rightarrow> time option \<Rightarrow> time option option \<Rightarrow> time" where
  "redirect_shutdown timeout http https = (case https of
     Some h \<Rightarrow> max (fst (graceful_shutdown_with_timeout timeout http)) (fst (graceful_shutdown_with_timeout timeout h))
   | None \<Rightarrow> fst (graceful_shutdown_with_timeout timeout http))"

subsection \<open>The controller process\<close>

record StatusResponse =
  sr_status :: string
  sr_version :: string
  sr_hash :: string

definition handle_status :: "string \<Rightarrow> string \<Rightarrow> string \<Rightarrow> sql_error + unit \<Rightarrow> response + StatusResponse" where
  "handle_status err_id version hash health_check =
     bind_result (or_internal_error err_id ''Database health check failed'' health_check) (\<lambda>_.
       Inr \<lparr> sr_status = ''ok'', sr_version = version, sr_hash = hash \<rparr>)"

definition handle_health :: "string \<Rightarrow> sql_error + unit \<Rightarrow> response + (string \<times> string) list" where
  "handle_health err_id health_check =
     bind_result (or_internal_error err_id ''Database health check failed'' health_check) (\<lambda>_.
       Inr [(''status'', ''ok'')])"

text \<open>The heartbeats of a controller: the first one is awaited, then one is sent after every interval
  until the sender is terminated, which reports the controller as offline. A statement may fail
  (\<open>ok = False\<close>); \<open>running\<close> is whether the task still runs.\<close>

datatype heartbeat_event = Beat time bool | TerminateSender time bool

definition heartbeat_start ::
  "string \<Rightarrow> string \<Rightarrow> ControllerName \<Rightarrow> time \<Rightarrow> bool \<Rightarrow> db \<Rightarrow> string + bool \<times> db" where
  "heartbeat_start version hash name now ok d =
     (if ok then Inr (True, controller_heartbeat now version hash name True d) else Inl ''heartbeat failed'')"

fun heartbeat_step ::
  "string \<Rightarrow> string \<Rightarrow> ControllerName \<Rightarrow> heartbeat_event \<Rightarrow> bool \<times> db \<Rightarrow> bool \<times> db" where
  "heartbeat_step version hash name (Beat now ok) (running, d) =
     (running, if running \<and> ok then controller_heartbeat now version hash name True d else d)"
| "heartbeat_step version hash name (TerminateSender now ok) (running, d) =
     (False, if ok then controller_heartbeat now version hash name False d else d)"

text \<open>The end of a controller: what becomes of its server after the offline heartbeat.\<close>

datatype server_end = GracefullyTerminated | ServerFailed | ForcedShutdown | AlreadyTerminated | SignalFailed

definition TERMINATE_TIMEOUT_DURATION :: time where "TERMINATE_TIMEOUT_DURATION = secs 2"

definition controller_terminate ::
  "bool \<Rightarrow> bool \<Rightarrow> bool \<Rightarrow> (time \<times> bool) option \<Rightarrow> server_end" where
  "controller_terminate sender_present signal_sent handle_present ended =
     (if \<not> sender_present then AlreadyTerminated
      else if \<not> signal_sent then SignalFailed
      else if \<not> handle_present then AlreadyTerminated
      else case ended of
        Some (t, ok) \<Rightarrow> if t \<le> TERMINATE_TIMEOUT_DURATION
          then (if ok then GracefullyTerminated else ServerFailed) else ForcedShutdown
      | None \<Rightarrow> ForcedShutdown)"

section \<open>Lemmas\<close>

text \<open>What a shutdown has promised for the connections \<open>ids\<close>: the signal is theirs to see, or they were
  asked to finish, or they are done.\<close>

definition told :: "nat set \<Rightarrow> http_server \<Rightarrow> bool" where
  "told ids s \<longleftrightarrow> (\<forall>c\<in>set (sv_conns s). wc_id c \<in> ids \<longrightarrow> wc_changed c)
     \<and> (\<forall>c\<in>set (sv_conns s). wc_cancelled c \<longrightarrow> wc_changed c) \<and> sv_changed s"

lemma watch_simps [simp]:
  "sv_listening (watch i s) = sv_listening s" "sv_changed (watch i s) = sv_changed s"
  "sv_handshakes (watch i s) = sv_handshakes s"
  "sv_conns (watch i s) = sv_conns s @ [\<lparr> wc_id = i, wc_changed = False, wc_cancelled = False \<rparr>]"
  by (simp_all add: watch_def)

lemma poll_watched_simps [simp]:
  "wc_id (poll_watched c) = wc_id c" "wc_changed (poll_watched c) = wc_changed c"
  "wc_cancelled (poll_watched c) \<longleftrightarrow> wc_cancelled c \<or> wc_changed c"
  by (auto simp: poll_watched_def)

text \<open>The ids of new connections.\<close>

fun accepts :: "server_event \<Rightarrow> nat set" where
  "accepts (AcceptHttp x) = set_option x"
| "accepts (TlsDone i ok) = {i}"
| "accepts _ = {}"

lemma told_step:
  assumes "told ids s" and "accepts ev \<inter> ids = {}"
  shows "told ids (http_server_step ev s)"
proof (cases ev)
  case (Poll i fin)
  then show ?thesis using assms(1) by (auto simp: told_def poll_conn_def)
qed (use assms in \<open>auto simp: told_def listen_accept_def listen_accept_tls_def tls_accepted_def Let_def
       listen_signal_def shutdown_signal_def split: option.splits if_splits\<close>)

lemma told_run:
  "\<lbrakk> told ids s; \<forall>ev\<in>set evs. accepts ev \<inter> ids = {} \<rbrakk> \<Longrightarrow> told ids (fold http_server_step evs s)"
  by (induction evs arbitrary: s) (simp_all add: told_step)

lemma told_signal: "told (wc_id ` set (sv_conns s)) (shutdown_signal s)"
  by (auto simp: told_def shutdown_signal_def)

text \<open>Once the loop has seen the signal it accepts nothing.\<close>

lemma not_listening_step: "\<not> sv_listening s \<Longrightarrow> \<not> sv_listening (http_server_step ev s)
    \<and> set (sv_handshakes (http_server_step ev s)) \<subseteq> set (sv_handshakes s)
    \<and> wc_id ` set (sv_conns (http_server_step ev s)) \<subseteq> wc_id ` set (sv_conns s) \<union> set (sv_handshakes s)"
  by (cases ev) (auto simp: listen_accept_def listen_accept_tls_def tls_accepted_def Let_def listen_signal_def
      shutdown_signal_def poll_conn_def split: option.splits if_splits dest: notin_set_remove1 set_remove1_subset [THEN subsetD])

lemma not_listening_run:
  assumes "\<not> sv_listening s"
  shows "\<not> sv_listening (fold http_server_step evs s)
    \<and> wc_id ` set (sv_conns (fold http_server_step evs s)) \<union> set (sv_handshakes (fold http_server_step evs s))
      \<subseteq> wc_id ` set (sv_conns s) \<union> set (sv_handshakes s)"
  using assms
proof (induction evs arbitrary: s)
  case (Cons ev evs)
  have off: "\<not> sv_listening (http_server_step ev s)"
    and sub: "wc_id ` set (sv_conns (http_server_step ev s)) \<union> set (sv_handshakes (http_server_step ev s))
      \<subseteq> wc_id ` set (sv_conns s) \<union> set (sv_handshakes s)"
    using not_listening_step [OF Cons.prems, of ev] by auto
  show ?case using Cons.IH [OF off] order_trans [OF _ sub] unfolding fold_simps by blast
qed simp

text \<open>The row of a controller.\<close>

definition heartbeat_row :: "ControllerName \<Rightarrow> db \<Rightarrow> (bool \<times> time) option" where
  "heartbeat_row name d = map_option (\<lambda>c. (c_is_online c, c_last_heartbeat c)) (find_row (\<lambda>c. c_id c = name) (controllers d))"

lemma find_row_set_heartbeat:
  "find_row (\<lambda>c. c_id c = name) (update_where (\<lambda>c. c_id c = name)
     (\<lambda>c. c\<lparr> c_is_online := o', c_plane_version := v, c_plane_hash := h, c_last_heartbeat := t \<rparr>) cs) =
   map_option (\<lambda>c. c\<lparr> c_is_online := o', c_plane_version := v, c_plane_hash := h, c_last_heartbeat := t \<rparr>)
     (find_row (\<lambda>c. c_id c = name) cs)"
  by (induction cs) (auto simp: find_row_def update_where_def)

lemma heartbeat_row_heartbeat:
  "heartbeat_row name (controller_heartbeat now version hash name is_online d) = Some (is_online, now)"
proof (cases "find_row (\<lambda>c. c_id c = name) (controllers d)")
  case None
  then have "\<not> exists_row (\<lambda>c. c_id c = name) (controllers d)" by (simp add: find_row_None_iff exists_row_iff)
  moreover have "find_row P [x] = (if P x then Some x else None)" for P and x :: controller_row
    by (simp add: find_row_def)
  ultimately show ?thesis using None by (simp add: controller_heartbeat_def heartbeat_row_def find_row_append)
next
  case (Some c)
  then have "exists_row (\<lambda>c. c_id c = name) (controllers d)" by (auto simp: exists_row_iff dest: find_row_SomeD)
  with Some show ?thesis by (simp add: controller_heartbeat_def heartbeat_row_def find_row_set_heartbeat)
qed

fun is_beat :: "heartbeat_event \<Rightarrow> bool" where
  "is_beat (Beat _ _) = True" | "is_beat _ = False"

fun last_beat :: "time \<Rightarrow> heartbeat_event list \<Rightarrow> time" where
  "last_beat t [] = t"
| "last_beat t (Beat now ok # evs) = last_beat (if ok then now else t) evs"
| "last_beat t (TerminateSender now ok # evs) = last_beat t evs"

lemma beats_run:
  assumes "list_all is_beat evs" and "heartbeat_row name d = Some (True, t)"
  shows "fst (fold (heartbeat_step version hash name) evs (True, d))
    \<and> heartbeat_row name (snd (fold (heartbeat_step version hash name) evs (True, d))) = Some (True, last_beat t evs)"
  using assms
proof (induction t evs arbitrary: d rule: last_beat.induct)
  case (2 t now ok evs)
  then show ?case by (cases ok) (simp_all add: heartbeat_row_heartbeat)
qed simp_all

lemma stopped_run:
  "list_all is_beat evs \<Longrightarrow> fold (heartbeat_step version hash name) evs (False, d) = (False, d)"
proof (induction evs)
  case (Cons ev evs)
  then show ?case by (cases ev) simp_all
qed simp

section \<open>Properties\<close>

text \<open>
  C37: A graceful shutdown lets open connections finish and accepts no new ones. After the signal every
  connection that was open is asked to finish at its next poll; once the loop has seen the signal
  nothing is accepted, and the shutdown is complete exactly when no connection is left. The ids of
  later connections differ from those of open ones.
\<close>

theorem graceful_shutdown_drains:
  assumes "s1 = fold http_server_step evs1 new_http_server" and "s2 = fold http_server_step evs2 (shutdown_signal s1)"
    and "\<forall>ev\<in>set evs2. accepts ev \<inter> wc_id ` set (sv_conns s1) = {}"
    and "s3 = fold http_server_step evs3 (listen_signal s2)"
  shows "(\<forall>c\<in>set (sv_conns s2). wc_id c \<in> wc_id ` set (sv_conns s1) \<longrightarrow> wc_cancelled (poll_watched c))
    \<and> \<not> sv_listening s3
    \<and> wc_id ` set (sv_conns s3) \<subseteq> wc_id ` set (sv_conns s2) \<union> set (sv_handshakes s2)
    \<and> (watch_closed s3 \<longleftrightarrow> sv_conns s3 = [])"
proof -
  have told: "told (wc_id ` set (sv_conns s1)) s2" unfolding assms(2) using told_signal assms(3) by (rule told_run)
  then have "\<not> sv_listening (listen_signal s2)" by (simp add: told_def listen_signal_def)
  then have "\<not> sv_listening s3
      \<and> wc_id ` set (sv_conns s3) \<union> set (sv_handshakes s3)
        \<subseteq> wc_id ` set (sv_conns (listen_signal s2)) \<union> set (sv_handshakes (listen_signal s2))"
    unfolding assms(4) by (rule not_listening_run)
  moreover have "sv_conns (listen_signal s2) = sv_conns s2" "sv_handshakes (listen_signal s2) = sv_handshakes s2"
    by (simp_all add: listen_signal_def)
  ultimately show ?thesis using told by (auto simp: told_def watch_closed_def)
qed

theorem graceful_shutdown_drains_witness:
  "let s3 = fold http_server_step [Poll 1 True, AcceptHttp (Some 2)]
      (listen_signal (fold http_server_step [Poll 1 False]
        (shutdown_signal (fold http_server_step [AcceptHttp (Some 1)] new_http_server))))
   in \<not> sv_listening s3 \<and> watch_closed s3"
proof -
  let ?s1 = "fold http_server_step [AcceptHttp (Some 1)] new_http_server"
  let ?s2 = "fold http_server_step [Poll 1 False] (shutdown_signal ?s1)"
  let ?s3 = "fold http_server_step [Poll 1 True, AcceptHttp (Some 2)] (listen_signal ?s2)"
  have "\<not> sv_listening ?s3 \<and> (watch_closed ?s3 \<longleftrightarrow> sv_conns ?s3 = [])"
    using graceful_shutdown_drains [of ?s1 "[AcceptHttp (Some 1)]" ?s2 "[Poll 1 False]" ?s3
        "[Poll 1 True, AcceptHttp (Some 2)]"] by simp
  moreover have "sv_conns ?s3 = []"
    by (simp add: new_http_server_def listen_accept_def shutdown_signal_def listen_signal_def poll_conn_def poll_watched_def)
  ultimately show ?thesis by (simp only: Let_def simp_thms)
qed

text \<open>
  A connection that is accepted after the signal but before the loop sees it is never asked to finish.
\<close>

lemma late_connection_not_told:
  assumes "sv_listening s"
  shows "\<exists>c\<in>set (sv_conns (listen_accept (Some i) (shutdown_signal s))). wc_id c = i \<and> poll_watched c = c \<and> \<not> wc_cancelled c"
  using assms by (auto simp: listen_accept_def shutdown_signal_def poll_watched_def)

text \<open>
  A controller is online in the database while its heartbeats run, with the time of its last
  successful heartbeat; terminating it marks it offline, and no heartbeat of its own puts it back
  online. The first heartbeat is awaited: if it fails, the controller does not start.
\<close>

theorem controller_online_until_terminated:
  assumes "heartbeat_start version hash name t0 ok d = Inr (running, d1)"
    and "list_all is_beat evs1" and "list_all is_beat evs2"
    and "p = fold (heartbeat_step version hash name) evs1 (running, d1)"
    and "q = fold (heartbeat_step version hash name) (TerminateSender t1 True # evs2) p"
  shows "heartbeat_row name (snd p) = Some (True, last_beat t0 evs1)
    \<and> heartbeat_row name (snd q) = Some (False, t1) \<and> \<not> fst q"
proof -
  have d1: "running" "heartbeat_row name d1 = Some (True, t0)"
    using assms(1) by (auto simp: heartbeat_start_def heartbeat_row_heartbeat split: if_splits)
  then have p: "fst p" "heartbeat_row name (snd p) = Some (True, last_beat t0 evs1)"
    using beats_run [OF assms(2) d1(2), of version hash] by (simp_all add: assms(4))
  obtain b d' where p': "p = (b, d')" by (cases p)
  have "q = (False, controller_heartbeat t1 version hash name False d')"
    using stopped_run [OF assms(3)] by (simp add: assms(5) p')
  then show ?thesis using p(2) by (simp add: heartbeat_row_heartbeat)
qed

theorem controller_online_until_terminated_witness:
  "heartbeat_row ''co-a'' (snd (fold (heartbeat_step ''1'' ''h'' ''co-a'') [TerminateSender 20 True, Beat 25 True]
      (fold (heartbeat_step ''1'' ''h'' ''co-a'') [Beat 10 True, Beat 15 False]
        (True, controller_heartbeat 5 ''1'' ''h'' ''co-a'' True empty_db)))) = Some (False, 20)"
  using controller_online_until_terminated [of "''1''" "''h''" "''co-a''" 5 True empty_db True
      "controller_heartbeat 5 ''1'' ''h'' ''co-a'' True empty_db" "[Beat 10 True, Beat 15 False]" "[Beat 25 True]", OF _ _ _ refl refl]
  by (simp add: heartbeat_start_def)

end
