(* ===== verification/Admin.thy ===== *)
theory Admin
  imports Controller_Api Docker
begin

text \<open>
  The command line tools, from \<open>plane/src/admin.rs\<close>, \<open>plane/src/bin/db-cli.rs\<close> and \<open>plane/src/util.rs\<close>: the
  requests they make, what they do to the database and what they report. Colours and the layout of
  the output are left out. Durations are in microseconds.
\<close>

section \<open>Definitions\<close>

subsection \<open>Durations\<close>

text \<open>Division that rounds towards zero.\<close>

definition tdiv :: "int \<Rightarrow> int \<Rightarrow> int" where
  "tdiv a b = (if 0 \<le> a then a div b else - ((- a) div b))"

definition tmod :: "int \<Rightarrow> int \<Rightarrow> int" where
  "tmod a b = a - b * tdiv a b"

definition num_seconds :: "time \<Rightarrow> int" where "num_seconds d = tdiv d 1000000"
definition num_minutes :: "time \<Rightarrow> int" where "num_minutes d = tdiv (num_seconds d) 60"
definition num_hours :: "time \<Rightarrow> int" where "num_hours d = tdiv (num_seconds d) 3600"
definition num_days :: "time \<Rightarrow> int" where "num_days d = tdiv (num_seconds d) 86400"

definition duration_part :: "int \<Rightarrow> char \<Rightarrow> string list" where
  "duration_part n u = (if n > 0 then [show_int n @ [u]] else [])"

fun join_words :: "string list \<Rightarrow> string" where
  "join_words [] = []"
| "join_words [w] = w"
| "join_words (w # ws) = w @ '' '' @ join_words ws"

definition format_duration :: "time \<Rightarrow> string" where
  "format_duration d =
     (let parts = duration_part (num_days d) (CHR ''d'')
            @ duration_part (tmod (num_hours d) 24) (CHR ''h'')
            @ duration_part (tmod (num_minutes d) 60) (CHR ''m'')
            @ duration_part (tmod (num_seconds d) 60) (CHR ''s'')
      in if parts = [] then ''0s'' else join_words parts)"

definition friendly_duration :: "time \<Rightarrow> string" where
  "friendly_duration d =
     (let seconds = num_seconds d; minutes = tdiv seconds 60; hours = tdiv minutes 60; days = tdiv hours 24
      in if days > 0 then show_int days @ ''d''
         else if hours > 0 then show_int hours @ ''h''
         else if minutes > 0 then show_int minutes @ ''m''
         else show_int seconds @ ''s'')"

subsection \<open>The admin command\<close>

text \<open>The statuses printed from a stream: up to the first one that is at least \<open>until\<close>.\<close>

fun print_status_stream :: "BackendStatus \<Rightarrow> BackendStatusStreamEntry list \<Rightarrow> (BackendStatus \<times> time) list" where
  "print_status_stream until [] = []"
| "print_status_stream until (e # es) = (se_status e, se_time e) #
     (if until \<le> se_status e then [] else print_status_stream until es)"

record connect_opts =
  co_cluster :: "ClusterName option"
  co_image :: string
  co_key :: "string option"
  co_max_idle_seconds :: "int option"
  co_backend_id :: "BackendName option"
  co_static_token :: bool
  co_pool :: DronePoolName
  co_mount :: "string option"
  co_subdomain :: "Subdomain option"

definition admin_connect_request :: "(DockerExecutorConfig \<Rightarrow> json) \<Rightarrow> connect_opts \<Rightarrow> ConnectRequest" where
  "admin_connect_request to_value opts =
     \<lparr> cr_key = map_option (\<lambda>name. \<lparr> kc_name = name, kc_namespace = [], kc_tag = [] \<rparr>) (co_key opts),
       cr_spawn_config = Some
         \<lparr> sc_id = co_backend_id opts, sc_cluster = co_cluster opts, sc_pool = co_pool opts,
           sc_executable = to_value ((from_image_with_defaults (co_image opts))\<lparr> dc_mount := map_option MountPath (co_mount opts) \<rparr>),
           sc_lifetime_limit_seconds = None,
           sc_max_idle_seconds = Some (case co_max_idle_seconds opts of Some n \<Rightarrow> n | None \<Rightarrow> 500),
           sc_use_static_token = co_static_token opts, sc_subdomain = co_subdomain opts \<rparr>,
       cr_user = None, cr_auth = [] \<rparr>"

subsection \<open>The database tool\<close>

text \<open>Marking backends as lost. The answer typed for a backend is \<open>answer\<close>, trimmed.\<close>

datatype mark_result = MarkNotFound | MarkAlreadyTerminated | MarkSkipped | Marked

definition lost_backend_state :: "BackendStatus \<Rightarrow> BackendState" where
  "lost_backend_state st = Terminated st None (Some Lost) None"

definition mark_one :: "time \<Rightarrow> string \<Rightarrow> BackendName \<Rightarrow> db \<Rightarrow> (mark_result \<times> db) sql" where
  "mark_one now answer i d = bind_result (get_backend now i d) (\<lambda>found. case found of
       None \<Rightarrow> Inr (MarkNotFound, d)
     | Some b \<Rightarrow>
         if status (br_state b) = StTerminated then Inr (MarkAlreadyTerminated, d)
         else if answer \<noteq> ''y'' then Inr (MarkSkipped, d)
         else bind_result (update_state now (br_id b) (lost_backend_state (status (br_state b))) d) (\<lambda>(_, d').
           Inr (Marked, d')))"

text \<open>An error ends the command; what was marked before stays marked.\<close>

fun mark_all :: "time \<Rightarrow> (BackendName \<Rightarrow> string) \<Rightarrow> BackendName list \<Rightarrow> db \<Rightarrow> (BackendName \<times> mark_result) list \<times> bool \<times> db" where
  "mark_all now typed [] d = ([], True, d)"
| "mark_all now typed (i # is) d = (case mark_one now (typed i) i d of
     Inl _ \<Rightarrow> ([], False, d)
   | Inr (r, d') \<Rightarrow> (let (rs, ok, d'') = mark_all now typed is d' in ((i, r) # rs, ok, d'')))"

definition backends_to_mark ::
  "time \<Rightarrow> DroneName option \<Rightarrow> ClusterName option \<Rightarrow> BackendName list \<Rightarrow> db \<Rightarrow> string + BackendName list" where
  "backends_to_mark now drone cluster given d = (case (drone, cluster, given = []) of
       (Some dr, Some cl, True) \<Rightarrow> map_err (\<lambda>_. ''database error'')
         (bind_result (list_alive_backends_for_drone now cl dr d) (\<lambda>rs. Inr (map br_id rs)))
     | (None, None, False) \<Rightarrow> Inr given
     | _ \<Rightarrow> Inl ''Must either provide a list of backends, or a drone and cluster'')"

definition mark_backend_lost ::
  "time \<Rightarrow> (BackendName \<Rightarrow> string) \<Rightarrow> DroneName option \<Rightarrow> ClusterName option \<Rightarrow> BackendName list \<Rightarrow> db
     \<Rightarrow> string + (BackendName \<times> mark_result) list \<times> bool \<times> db" where
  "mark_backend_lost now typed drone cluster given d =
     bind_result (backends_to_mark now drone cluster given d) (\<lambda>is. Inr (mark_all now typed is d))"

text \<open>Blocking the renewal of a key, listing nodes, and reporting candidates for termination.\<close>

definition cli_prevent_renew :: "BackendName \<Rightarrow> db \<Rightarrow> string \<times> db" where
  "cli_prevent_renew backend d = (let (success, d') = prevent_renew backend d
     in (if success then ''Blocked renew for '' @ backend @ ''.'' else ''Could not find active key for: '' @ backend, d'))"

definition shown_nodes :: "bool \<Rightarrow> ClusterName option \<Rightarrow> NodeRow list \<Rightarrow> NodeRow list" where
  "shown_nodes all cluster rows = filter (\<lambda>r. (case cluster of Some c \<Rightarrow> nr_cluster r = Some c | None \<Rightarrow> True)
     \<and> (all \<or> node_active r)) rows"

datatype candidate_report = PastExpiration time | PastIdle int int | IsCandidate

definition candidate_report_of :: "TerminationCandidate \<Rightarrow> candidate_report" where
  "candidate_report_of c =
     (if (case tc_expiration_time c of Some t \<Rightarrow> t > tc_as_of c | None \<Rightarrow> False)
      then PastExpiration (the (tc_expiration_time c))
      else case tc_allowed_idle_seconds c of
        Some s \<Rightarrow> (let overage = tc_as_of c - tc_last_keepalive c - secs s
                   in if overage > 0 then PastIdle (num_seconds overage) s else IsCandidate)
      | None \<Rightarrow> IsCandidate)"

section \<open>Lemmas\<close>

text \<open>Reading a duration back.\<close>

definition unit_seconds :: "char \<Rightarrow> nat option" where
  "unit_seconds u = map_of [(CHR ''d'', 86400), (CHR ''h'', 3600), (CHR ''m'', 60), (CHR ''s'', 1)] u"

definition read_part :: "string \<Rightarrow> nat option" where
  "read_part w = (if w = [] then None else Option.bind (decimal (butlast w) 0) (\<lambda>n.
     Option.bind (unit_seconds (last w)) (\<lambda>k. Some (n * k))))"

definition read_duration :: "string \<Rightarrow> nat option" where
  "read_duration s = map_option sum_list (those (map read_part (split_char (CHR '' '') s)))"

declare show_nat.simps [simp del]

lemma digit_all:
  "list_all (\<lambda>n. is_ascii_digit (digit n) \<and> (of_char (digit n) :: nat) - 48 = n \<and> digit n \<noteq> CHR '' '') [0,1,2,3,4,5,6,7,8,9]"
  by code_simp

lemma digit_props:
  assumes "n < 10"
  shows "is_ascii_digit (digit n)" "(of_char (digit n) :: nat) - 48 = n" "digit n \<noteq> CHR '' ''"
proof -
  have "n \<in> {0,1,2,3,4,5,6,7,8,9}" using assms by auto
  then show "is_ascii_digit (digit n)" "(of_char (digit n) :: nat) - 48 = n" "digit n \<noteq> CHR '' ''"
    using digit_all unfolding list_all_iff by (auto simp del: One_nat_def)
qed

lemma decimal_append: "decimal (xs @ ys) acc = Option.bind (decimal xs acc) (decimal ys)"
  by (induction xs arbitrary: acc) auto

lemma show_nat_props:
  "decimal (show_nat n) 0 = Some n" "CHR '' '' \<notin> set (show_nat n)" "show_nat n \<noteq> []"
proof (induction n rule: show_nat.induct)
  case (1 n)
  have d: "is_ascii_digit (digit (n mod 10))" "of_char (digit (n mod 10)) - 48 = n mod 10" "digit (n mod 10) \<noteq> CHR '' ''"
    by (intro digit_props; simp)+
  have unfold: "show_nat n = (if n < 10 then [] else show_nat (n div 10)) @ [digit (n mod 10)]"
    by (subst show_nat.simps) simp
  show "decimal (show_nat n) 0 = Some n"
  proof (cases "n < 10")
    case True
    then show ?thesis using d by (simp add: unfold)
  next
    case False
    then have "decimal (show_nat n) 0 = Some (10 * (n div 10) + n mod 10)"
      using d 1(1) by (simp add: unfold decimal_append)
    then show ?thesis by simp
  qed
  show "CHR '' '' \<notin> set (show_nat n)" using 1(2) d(3) by (auto simp: unfold)
  show "show_nat n \<noteq> []" by (simp add: unfold)
qed

lemma read_part_show: "unit_seconds u = Some k \<Longrightarrow> read_part (show_nat n @ [u]) = Some (n * k)"
  by (simp add: read_part_def show_nat_props)

lemma duration_part_read:
  "\<lbrakk> unit_seconds u = Some k; 0 \<le> n \<rbrakk> \<Longrightarrow>
     \<exists>ns. those (map read_part (duration_part n u)) = Some ns \<and> sum_list ns = nat n * k"
  by (auto simp: duration_part_def show_int_def read_part_show)

lemma duration_part_words: "unit_seconds u = Some k \<Longrightarrow> \<forall>w\<in>set (duration_part n u). CHR '' '' \<notin> set w"
  using show_nat_props(2) by (auto simp: duration_part_def show_int_def unit_seconds_def split: if_splits)

lemma split_join: "\<lbrakk> ws \<noteq> []; \<forall>w\<in>set ws. CHR '' '' \<notin> set w \<rbrakk> \<Longrightarrow> split_char (CHR '' '') (join_words ws) = ws"
  by (induction ws rule: join_words.induct) (simp_all add: split_char_none split_char_append)

lemma those_append:
  "\<lbrakk> those xs = Some as; those ys = Some bs \<rbrakk> \<Longrightarrow> those (xs @ ys) = Some (as @ bs)"
  by (induction xs arbitrary: as) (auto split: option.splits)

lemma read_duration_join:
  assumes "\<forall>w\<in>set ws. CHR '' '' \<notin> set w"
  shows "read_duration (if ws = [] then ''0s'' else join_words ws) = map_option sum_list (those (map read_part ws))"
proof (cases "ws = []")
  case True
  have "digit 0 = CHR ''0''" by code_simp
  then have "show_nat 0 = ''0''" by (subst show_nat.simps) simp
  then have "read_part ''0s'' = Some 0" using read_part_show [of "CHR ''s''" 1 0] by (simp add: unit_seconds_def)
  then have "read_duration ''0s'' = Some 0" by (simp add: read_duration_def)
  with True show ?thesis by simp
next
  case False
  then show ?thesis using assms by (simp add: read_duration_def split_join)
qed

lemma tdiv_nonneg: "\<lbrakk> 0 \<le> a; 0 < b \<rbrakk> \<Longrightarrow> tdiv a b = a div b \<and> tmod a b = a mod b \<and> 0 \<le> a div b \<and> 0 \<le> a mod b"
  by (simp add: tdiv_def tmod_def minus_mult_div_eq_mod pos_imp_zdiv_nonneg_iff)

lemma duration_sum:
  assumes "0 \<le> s"
  shows "nat (s div 86400) * 86400 + (nat (s div 3600 mod 24) * 3600 + (nat (s div 60 mod 60) * 60 + nat (s mod 60))) = nat s"
proof -
  define m where "m = s div 60"
  define h where "h = m div 60"
  have e: "s div 3600 = h" "s div 86400 = h div 24"
    using zdiv_zmult2_eq [of 60 s 60] zdiv_zmult2_eq [of 3600 s 24] by (simp_all add: m_def h_def flip: zdiv_zmult2_eq)
  have pos: "0 \<le> m" "0 \<le> h" "0 \<le> h div 24" using assms by (simp_all add: m_def h_def pos_imp_zdiv_nonneg_iff)
  have "s = 60 * m + s mod 60" "m = 60 * h + m mod 60" "h = 24 * (h div 24) + h mod 24"
    by (simp_all add: m_def h_def)
  then have "h div 24 * 86400 + (h mod 24 * 3600 + (m mod 60 * 60 + s mod 60)) = s" by linarith
  moreover have "nat (h div 24) * 86400 + (nat (h mod 24) * 3600 + (nat (m mod 60) * 60 + nat (s mod 60)))
      = nat (h div 24 * 86400 + (h mod 24 * 3600 + (m mod 60 * 60 + s mod 60)))"
    using pos by (simp add: nat_add_distrib nat_mult_distrib)
  ultimately show ?thesis unfolding e m_def [symmetric] by simp
qed

section \<open>Properties\<close>

text \<open>
  A printed duration can be read back: the numbers of days, hours, minutes and seconds that
  \<open>format_duration\<close> prints for a duration that is not negative add up to its whole seconds.
\<close>

theorem format_duration_roundtrip:
  assumes "0 \<le> d"
  shows "read_duration (format_duration d) = Some (nat (num_seconds d))"
proof -
  define s where "s = num_seconds d"
  have s: "0 \<le> s" using assms tdiv_nonneg [of d 1000000] by (simp add: s_def num_seconds_def)
  define pd where "pd = duration_part (s div 86400) (CHR ''d'')"
  define ph where "ph = duration_part (s div 3600 mod 24) (CHR ''h'')"
  define pm where "pm = duration_part (s div 60 mod 60) (CHR ''m'')"
  define p where "p = duration_part (s mod 60) (CHR ''s'')"
  have units: "unit_seconds (CHR ''d'') = Some 86400" "unit_seconds (CHR ''h'') = Some 3600"
    "unit_seconds (CHR ''m'') = Some 60" "unit_seconds (CHR ''s'') = Some 1" by (simp_all add: unit_seconds_def)
  have nn: "0 \<le> s div 86400" "0 \<le> s div 3600 mod 24" "0 \<le> s div 60 mod 60" "0 \<le> s mod 60"
    using s by (simp_all add: pos_imp_zdiv_nonneg_iff)
  have fmt: "format_duration d = (if pd @ ph @ pm @ p = [] then ''0s'' else join_words (pd @ ph @ pm @ p))"
    using s by (simp only: format_duration_def pd_def ph_def pm_def p_def num_days_def num_hours_def num_minutes_def
        s_def [symmetric] tdiv_nonneg zero_less_numeral pos_imp_zdiv_nonneg_iff Let_def)
  have words: "\<forall>w\<in>set (pd @ ph @ pm @ p). CHR '' '' \<notin> set w"
    unfolding set_append ball_Un pd_def ph_def pm_def p_def by (intro conjI duration_part_words [OF units(1)] duration_part_words [OF units(2)]
        duration_part_words [OF units(3)] duration_part_words [OF units(4)])
  obtain a where a: "those (map read_part pd) = Some a" "sum_list a = nat (s div 86400) * 86400"
    unfolding pd_def using duration_part_read [OF units(1) nn(1)] by blast
  obtain b where b: "those (map read_part ph) = Some b" "sum_list b = nat (s div 3600 mod 24) * 3600"
    unfolding ph_def using duration_part_read [OF units(2) nn(2)] by blast
  obtain c where c: "those (map read_part pm) = Some c" "sum_list c = nat (s div 60 mod 60) * 60"
    unfolding pm_def using duration_part_read [OF units(3) nn(3)] by blast
  obtain e where e: "those (map read_part p) = Some e" "sum_list e = nat (s mod 60) * 1"
    unfolding p_def using duration_part_read [OF units(4) nn(4)] by blast
  have "those (map read_part (pd @ ph @ pm @ p)) = Some (a @ b @ c @ e)"
    unfolding map_append by (intro those_append a(1) b(1) c(1) e(1))
  moreover have "sum_list (a @ b @ c @ e) = nat s"
    using duration_sum [OF s] unfolding sum_list_append a(2) b(2) c(2) e(2) mult_1_right .
  ultimately have "map_option sum_list (those (map read_part (pd @ ph @ pm @ p))) = Some (nat s)"
    by (simp only: option.map)
  then show ?thesis unfolding fmt read_duration_join [OF words] s_def .
qed

theorem format_duration_roundtrip_witness: "read_duration (format_duration (secs 93784)) = Some 93784"
  using format_duration_roundtrip [of "secs 93784"] by (simp add: secs_def num_seconds_def tdiv_def)



text \<open>
  What the command waits for: of a stream with increasing statuses, everything before the status
  waited for is printed and then the first entry that reaches it.
\<close>

lemma print_status_stream_until:
  assumes "sorted_wrt (<) (map se_status es)"
  shows "map fst (print_status_stream until es) =
    map se_status (filter (\<lambda>e. se_status e < until) es)
    @ (case filter (\<lambda>e. until \<le> se_status e) es of [] \<Rightarrow> [] | e # _ \<Rightarrow> [se_status e])"
  using assms
proof (induction es)
  case (Cons e es)
  show ?case
  proof (cases "until \<le> se_status e")
    case True
    then have "filter (\<lambda>e. se_status e < until) es = []" using Cons.prems by (auto simp: filter_empty_conv)
    with True show ?thesis by simp
  next
    case False
    with Cons show ?thesis by simp
  qed
qed simp

text \<open>
  A candidate that is past its expiration time is never reported as such: the report asks for an
  expiration time in the future.
\<close>

lemma past_expiration_not_reported:
  "tc_expiration_time c = Some t \<Longrightarrow> t \<le> tc_as_of c \<Longrightarrow> candidate_report_of c \<noteq> PastExpiration t'"
  by (auto simp: candidate_report_of_def Let_def split: option.split)

end
