(* ===== verification/Spec2Isabelle.thy ===== *)
theory Spec2Isabelle
  imports Backend_State Names Plane_Types Database Db_Keys Db_Nodes Db_Backend Connect Subscribe Db_System
    State_Store Backend_Manager Key_Manager Drone Controller_Drone
    Controller_Proxy Controller_Api Sse Dynamic_Proxy Proxy_Request Route_Map Connection_Monitor
    Dns Cert_Manager Proxy_Connection Docker Drone_Session Typed_Socket Unix_Socket Servers Admin
begin

text \<open>
  A verification development for Plane, an orchestrator of session backends: containers that run
  for one user session or document each, and that clients reach through a proxy.

  \<^bold>\<open>The system.\<close> Any number of controllers share one Postgres database, and all coordination goes
  through its tables and the notifications it sends. A client asks a controller to \<^emph>\<open>connect\<close> to a
  key. If no backend holds the key, the controller chooses a drone, inserts a backend that holds the
  key for a lease of a minute, and leaves an action for the drone; in every case it returns a token.
  A drone keeps a socket to a controller. It receives actions, runs the containers, reports every
  change of state until it is acknowledged, and renews the keys of its backends; a backend whose key
  is not renewed in time is terminated by the drone itself. A proxy asks a controller for the route
  of a token, adds headers that tell the backend who is calling, forwards requests, and reports which
  backends are in use, so that idle ones can be swept. Proxies obtain certificates under a lease for
  their cluster; a DNS server answers the challenges from the database.

  \<^bold>\<open>Conventions.\<close> The model is a shallow embedding. A struct is a record, an enum a datatype, fallible
  code returns a sum with \<open>Inl\<close> the error, an SQL statement or transaction is a function on the record
  \<open>db\<close> of tables with \<open>now()\<close> as argument. Times are numbers of microseconds. What comes from
  outside is an argument: random choices as the samples drawn, the clock as the readings of it, the
  interleaving with other clients as a function that changes the database between two statements or
  as a sequence of steps, and third-party code (Docker, the certificate authority, HTTP, JSON, the
  \<open>lru\<close> crate) as functions, with what the code relies on as hypotheses where a property needs it.
  Source paths below are relative to \<open>src/\<close>.

  \<^bold>\<open>Theories and the code they model.\<close>

  \<^item> \<open>Plane_Prelude\<close>: time, results, tables with unique keys, strings; the locale \<open>monotone_machine\<close>
    for components whose rank never falls.
  \<^item> \<open>Backend_State\<close> (\<open>common/src/types/backend_state.rs\<close>), \<open>Names\<close> (\<open>common/src/names.rs\<close>,
    \<open>util.rs\<close>), \<open>Plane_Types\<close> (\<open>common/src/types/mod.rs\<close>, \<open>protocol.rs\<close>): the data of the system; names
    and clusters are parsed as in the code, and termination only moves a backend forward.
  \<^item> \<open>Database\<close> (\<open>plane/schema/migrations\<close>, emission of events), \<open>Db_Keys\<close> (\<open>backend_key.rs\<close>), \<open>Db_Nodes\<close>
    (\<open>node.rs\<close>, \<open>drone.rs\<close>, \<open>controller.rs\<close>, \<open>cluster.rs\<close>, \<open>acme.rs\<close>), \<open>Db_Backend\<close> (\<open>backend.rs\<close>,
    \<open>backend_actions.rs\<close>), \<open>Connect\<close> (\<open>connect.rs\<close>), \<open>Subscribe\<close> (\<open>subscribe.rs\<close>), all of
    \<open>plane/src/database\<close>: every statement, with \<open>db_ok\<close>, the invariant of the schema and of the
    histories of the backends, preserved by each of them. The locales \<open>exclusive_lease\<close> and
    \<open>renewable_lease\<close> of \<open>Db_Keys\<close> state what a lease promises; they are interpreted on the
    certificate leases (\<open>Db_Nodes\<close>) and on the keys (\<open>Connect\<close>).
  \<^item> \<open>Db_System\<close>: the inductive relation \<open>db_step\<close> with one rule per statement, runs of it by any
    number of controllers (\<open>db_run\<close>, \<open>db_reaches\<close>), the invariants of all reachable databases, the
    safety of live keys, and the refinement of \<open>connect\<close> to such steps.
  \<^item> \<open>State_Store\<close>, \<open>Backend_Manager\<close>, \<open>Key_Manager\<close>, \<open>Drone\<close> (\<open>plane/src/drone\<close>): the store with its
    replay of events, the state machine of a backend, the renewal loop and the executor, over all
    sequences of inputs, restarts included. \<open>Docker\<close> (\<open>drone/runtime/docker\<close>) and \<open>Unix_Socket\<close>
    (\<open>typed_unix_socket\<close>, \<open>drone/runtime/unix_socket\<close>): the two container runtimes.
  \<^item> \<open>Controller_Drone\<close>, \<open>Controller_Proxy\<close>, \<open>Controller_Api\<close> (\<open>plane/src/controller\<close>,
    \<open>common/src/lib.rs\<close>, \<open>plane/src/cleanup.rs\<close>): the messages of drones, proxies and DNS servers,
    the sweep, the HTTP handlers with their routes and authorization, and the client of them.
    \<open>Drone_Session\<close> puts a drone and its controller together.
  \<^item> \<open>Dynamic_Proxy\<close> (\<open>dynamic-proxy/src\<close>), \<open>Proxy_Request\<close>, \<open>Route_Map\<close>, \<open>Connection_Monitor\<close>,
    \<open>Proxy_Connection\<close>, \<open>Cert_Manager\<close> (\<open>plane/src/proxy\<close>), \<open>Dns\<close> (\<open>plane/src/dns\<close>): the path of a
    request from the host header to the backend, the cache of routes, the counts of connections, the
    certificates and the challenges.
  \<^item> \<open>Sse\<close> (\<open>common/src/sse.rs\<close>, \<open>exponential_backoff.rs\<close>), \<open>Typed_Socket\<close>
    (\<open>common/src/typed_socket\<close>), \<open>Servers\<close> (\<open>dynamic-proxy/src/server.rs\<close>, \<open>graceful_shutdown.rs\<close>,
    \<open>plane/src/controller/mod.rs\<close>), \<open>Admin\<close> (\<open>plane/src/admin.rs\<close>, \<open>plane/src/bin/db-cli.rs\<close>): event
    streams, sockets, shutdown and the command line tools.

  \<^bold>\<open>What is shown.\<close> In this theory: a backend is stopped by its drone before its key can be given to
  another one, whatever the controllers do meanwhile, and the state changes of a drone arrive in the
  database and leave its store. In the others, by group:

  \<^item> Database: the invariants hold in every reachable database; a live key is never taken, fencing
    tokens never go back, a backend never moves backwards; cleanup, the choice of drones, route
    lookups and pending actions do what they promise; \<open>connect\<close> returns after at most three attempts
    and its token leads to the backend of the response.
  \<^item> Drones and their controllers: a manager only moves forward, keys belong to live backends, a
    restart terminates what ran before; an event is acknowledged only after it is recorded.
  \<^item> Proxies: only the headers of the route reach a backend as verified ones, requests go to the
    backend of their token, terminated backends are not routed to, open connections are reported,
    certificates are obtained under the lease.
  \<^item> Streams and sockets: events are delivered in order and exactly once, requests are answered at
    most once and with their own answer, encoded streams are read back, a shutdown drains the
    connections.

  Where the code does less than that, a lemma shows it on a concrete run, for example
  \<open>Subscribe.late_event_lost\<close>, \<open>Sse.sse_second_event_lost\<close>, \<open>Backend_Manager.stale_completion_undoes_termination\<close>
  or \<open>Drone.redelivered_spawn_runs_without_key\<close>.

  \<^bold>\<open>Loops.\<close> A loop over data is structural recursion. Three loops may run forever and are
  partial functions into an option, each proved to return: the renewal loop of a key when
  terminations succeed, the catch-up of a subscription on a log of events that the snapshots are
  prefixes of, and connecting with retries at the first attempt that succeeds. The three attempts of
  \<open>connect\<close> are the bound in the code. A server loop is a function on the sequence of its inputs, so
  that a property holds for every number of turns.

  \<^bold>\<open>Not modelled.\<close> The entry points with the parsing of their arguments, tracing, signals and the
  wiring of the tasks in \<open>run_proxy\<close> and the database handle, which only pass values on. JSON and serde
  attributes: a column or message holds the value itself, with a case for text that does not decode.
  TLS, TCP, HTTP connections, the websocket protocol and the DNS protocol, which are libraries. The
  isolation of Postgres below the level of single statements and transactions, which are taken as
  atomic. Statistics and metrics of the processes. Allocation and the scheduler of the runtime: tasks
  interleave at the points where the code waits.
\<close>

section \<open>Properties\<close>

text \<open>
  C1: A backend is stopped before its key can go to another one. After a renewal that a controller
  granted, the drone whose backend gets no further renewal ends its loop with a hard termination,
  and up to the moment of that termination no run of any statements takes the key from the backend,
  unless the backend was reported as terminated in that run. The clock of the drone may be off by
  any constant from the one of the database; the sleeps of the drone end at most 10 seconds late,
  terminations succeed, and the answer arrives before the deadline for the hard termination.
\<close>

theorem stopped_before_key_moves:
  assumes "db_ok d" and "key_held d key = Some (b, e0)"
    and renewed: "handle_message_from_drone now drone_id (RenewKey b sent) d = Inr (d', ms)"
    and clocks: "sent \<le> now + off"
    and late: "0 \<le> delay" "delay \<le> secs 10" "\<And>w. late w \<le> w + delay" and ok: "\<And>t. ok t"
    and received: "received \<le> sent + KEY_LEASE_HARD_TERMINATE_AFTER"
  shows "\<exists>k acts T. ms = [RenewKeyResponse b (Some k)]
    \<and> renew_key_loop late ok k received = Some (acts @ [LoopTerminate T Hard])
    \<and> (\<forall>t d''. db_run now d' t d'' \<and> t + off \<le> T \<longrightarrow>
         (\<exists>e. key_held d'' key = Some (b, e))
         \<or> (\<exists>t1 d1. db_run now d' t1 d1 \<and> db_run t1 d1 t d'' \<and> terminated_in b d1))"
proof -
  let ?k = "renewed_deadlines sent"
  have ren: "renew_key now b d = Inr d'" and ms: "ms = [RenewKeyResponse b (Some ?k)]"
    using renewed by (auto simp: bind_result_Inr_iff)
  have held: "key_held d' key = Some (b, now + KEY_LEASE_EXPIRATION)"
    using key_held_renew [OF assms(1) ren] assms(2) by simp
  have ok': "db_ok d'" using db_ok_renew_key [OF assms(1) ren] .
  have "ends_hard delay ?k received (renew_key_loop late ok ?k received)"
    using late ok by (intro loop_ends_hard) (simp_all add: renewed_deadlines_def lease_consts)
  then obtain acts T where loop: "renew_key_loop late ok ?k received = Some (acts @ [LoopTerminate T Hard])"
    and T: "T \<le> max received (kd_hard_terminate_at ?k + delay)"
    unfolding ends_hard_def by blast
  have "T \<le> sent + KEY_LEASE_EXPIRATION"
    using T received late(1,2) by (simp add: renewed_deadlines_def lease_consts secs_def)
  then have "t \<le> now + KEY_LEASE_EXPIRATION" if "t + off \<le> T" for t using that clocks by simp
  then have "(\<exists>e. key_held d'' key = Some (b, e))
       \<or> (\<exists>t1 d1. db_run now d' t1 d1 \<and> db_run t1 d1 t d'' \<and> terminated_in b d1)"
    if "db_run now d' t d''" "t + off \<le> T" for t d''
    using live_key_run [OF that(1) ok' held] that(2) by blast
  with ms loop show ?thesis by (intro exI [of _ ?k] exI [of _ acts] exI [of _ T]) blast
qed

theorem stopped_before_key_moves_witness:
  "\<exists>d' k acts T. handle_message_from_drone (secs 30) 1 (RenewKey ''b1'' (secs 29)) example_backend_db
       = Inr (d', [RenewKeyResponse ''b1'' (Some k)])
    \<and> renew_key_loop (\<lambda>w. w) (\<lambda>_. True) k (secs 31) = Some (acts @ [LoopTerminate T Hard])"
proof -
  have held: "key_held example_backend_db ([], ''k'') = Some (''b1'', secs 60)"
    by (simp add: key_held_def find_row_def example_backend_defs)
  obtain d' where d': "renew_key (secs 30) ''b1'' example_backend_db = Inr d'"
    by (simp add: renew_key_def rows_affected_def example_backend_defs)
  then have h: "handle_message_from_drone (secs 30) 1 (RenewKey ''b1'' (secs 29)) example_backend_db
     = Inr (d', [RenewKeyResponse ''b1'' (Some (renewed_deadlines (secs 29)))])" by simp
  show ?thesis
    using stopped_before_key_moves [OF example_backend_db_ok held h, of 0 0 "\<lambda>w. w" "\<lambda>_. True" "secs 31"] h
    by (auto simp: secs_def lease_consts)
qed



end
